theory Spec2Isabelle
  imports Complex_Main
begin

section \<open>The class scheduler of CurriculumScheduler/models/scheduler.py\<close>

text \<open>
  A shallow embedding of \<^verbatim>\<open>ClassScheduler\<close>. Python strings are \<open>string\<close>, Python ints are
  \<open>int\<close>, the float \<^verbatim>\<open>hours / 2\<close> is a \<open>rat\<close>, a dict is a map, a raised exception is the
  \<open>Inl\<close> of a sum. The attribute \<^verbatim>\<open>self.day_pairing_counter\<close> and the lists and dicts that the
  methods mutate in place are threaded through as an explicit state.
\<close>

datatype error = KeyError | ValueError

subsection \<open>Time of day: \<^verbatim>\<open>strptime\<close>, \<^verbatim>\<open>strftime\<close> and the slot grid\<close>

text \<open>The value of \<^verbatim>\<open>datetime.strptime(s, "%H:%M").time()\<close>; Python compares two of them
  as the tuples (hour, minute).\<close>

record time_obj =
  hour :: nat
  minute :: nat

definition time_le :: "time_obj \<Rightarrow> time_obj \<Rightarrow> bool" where
  "time_le a b = (hour a < hour b \<or> (hour a = hour b \<and> minute a \<le> minute b))"

definition digit_val :: "char \<Rightarrow> nat option" where
  "digit_val c = map_of (zip ''0123456789'' [0, 1, 2, 3, 4, 5, 6, 7, 8, 9]) c"

text \<open>One numeric field of the format: one or two decimal digits.\<close>

definition digits_field :: "string \<Rightarrow> nat option" where
  "digits_field s =
     (case s of
        [a] \<Rightarrow> digit_val a
      | [a, b] \<Rightarrow> (case (digit_val a, digit_val b) of
                     (Some x, Some y) \<Rightarrow> Some (10 * x + y)
                   | _ \<Rightarrow> None)
      | _ \<Rightarrow> None)"

text \<open>\<^verbatim>\<open>datetime.strptime(s, "%H:%M")\<close>: an hour field below 24, a colon, a minute field
  below 60, and nothing else; \<open>None\<close> stands for the ValueError it raises otherwise.\<close>

definition strptime :: "string \<Rightarrow> time_obj option" where
  "strptime s =
     (case (digits_field (takeWhile (\<lambda>c. c \<noteq> CHR '':'') s), dropWhile (\<lambda>c. c \<noteq> CHR '':'') s) of
        (Some h, c # rest) \<Rightarrow>
          (case digits_field rest of
             Some m \<Rightarrow> if h < 24 \<and> m < 60 then Some \<lparr>hour = h, minute = m\<rparr> else None
           | None \<Rightarrow> None)
      | _ \<Rightarrow> None)"

definition digit_char :: "nat \<Rightarrow> char" where
  "digit_char d = ''0123456789'' ! d"

text \<open>The format \<^verbatim>\<open>{n:02d}\<close> (and \<^verbatim>\<open>%H\<close>, \<^verbatim>\<open>%M\<close> of strftime) for \<open>n < 100\<close>, which is
  all the scheduler formats.\<close>

definition two_digits :: "nat \<Rightarrow> string" where
  "two_digits n = [digit_char (n div 10), digit_char (n mod 10)]"

definition format_time :: "nat \<Rightarrow> nat \<Rightarrow> string" where
  "format_time h m = two_digits h @ '':'' @ two_digits m"

text \<open>\<^verbatim>\<open>_generate_time_slots\<close>: the two nested loops with their guard.\<close>

definition generate_time_slots :: "string list" where
  "generate_time_slots =
     (let start_hour = 7; end_hour = 21 in
      concat (map (\<lambda>hour.
        concat (map (\<lambda>minute.
          if hour < end_hour \<or> (hour = end_hour \<and> minute = 0)
          then [format_time hour minute] else []) [0, 30]))
        [start_hour ..< end_hour]))"

definition time_slots :: "string list" where
  "time_slots = generate_time_slots"

definition days :: "string list" where
  "days = [''Monday'', ''Tuesday'', ''Wednesday'', ''Thursday'', ''Friday'', ''Saturday'']"

text \<open>\<^verbatim>\<open>_add_hours_to_time\<close>: parse, add \<^verbatim>\<open>timedelta(hours=hours)\<close> to today's date at that
  time, print hour and minute of the result, so the sum wraps around midnight. The bare
  \<^verbatim>\<open>except\<close> turns a failed parse into \<open>None\<close>. (The scheduler calls it with at most 14
  hours, or with \<open>hours_per_week \<le> 2\<close>; a date outside the years 1 to 9999, which would
  also give \<open>None\<close>, needs millions of hours.)\<close>

definition add_hours_to_time :: "string \<Rightarrow> rat \<Rightarrow> string option" where
  "add_hours_to_time time_str hours =
     (case strptime time_str of
        None \<Rightarrow> None
      | Some t \<Rightarrow>
          (let total = (int (60 * hour t + minute t) + \<lfloor>hours * 60\<rfloor>) mod 1440
           in Some (format_time (nat (total div 60)) (nat (total mod 60)))))"

subsection \<open>The conflict predicate\<close>

text \<open>\<^verbatim>\<open>_times_overlap\<close>: any string that does not parse makes the \<^verbatim>\<open>try\<close> block fail and
  the answer \<open>False\<close>.\<close>

definition times_overlap :: "string \<Rightarrow> string \<Rightarrow> string \<Rightarrow> string \<Rightarrow> bool" where
  "times_overlap start1 end1 start2 end2 =
     (case (strptime start1, strptime end1, strptime start2, strptime end2) of
        (Some start1_dt, Some end1_dt, Some start2_dt, Some end2_dt) \<Rightarrow>
          \<not> (time_le end1_dt start2_dt \<or> time_le end2_dt start1_dt)
      | _ \<Rightarrow> False)"

subsection \<open>Sessions and the pattern generator\<close>

record session =
  day :: string
  start_time :: string
  end_time :: string
  duration :: rat

type_synonym pattern = "session list"

text \<open>A Python slice \<^verbatim>\<open>xs[:i]\<close>; a negative \<open>i\<close> counts from the end.\<close>

definition slice_to :: "'a list \<Rightarrow> int \<Rightarrow> 'a list" where
  "slice_to xs i = (if i < 0 then take (nat (int (length xs) + i)) xs else take (nat i) xs)"

definition base_day_pairings :: "(string \<times> string) list" where
  "base_day_pairings =
     [(''Monday'', ''Thursday''), (''Tuesday'', ''Friday''), (''Wednesday'', ''Saturday'')]"

text \<open>The loop body shared by the three two-session branches of \<^verbatim>\<open>_get_time_patterns\<close>:
  for every day pair and every start slot whose end is on the grid, one pattern of two
  sessions at the same time of day.\<close>

definition two_session_patterns ::
    "(string \<times> string) list \<Rightarrow> string list \<Rightarrow> rat \<Rightarrow> pattern list" where
  "two_session_patterns day_pairings starts session_hours =
     concat (map (\<lambda>(day1, day2).
       concat (map (\<lambda>start.
         case add_hours_to_time start session_hours of
           None \<Rightarrow> []
         | Some end \<Rightarrow>
             if end \<in> set time_slots
             then [[\<lparr>day = day1, start_time = start, end_time = end, duration = session_hours\<rparr>,
                    \<lparr>day = day2, start_time = start, end_time = end, duration = session_hours\<rparr>]]
             else []) starts)) day_pairings)"

text \<open>\<^verbatim>\<open>_get_time_patterns\<close>, with \<^verbatim>\<open>self.day_pairing_counter\<close> as its first argument.\<close>

definition get_time_patterns :: "int \<Rightarrow> int \<Rightarrow> string \<Rightarrow> pattern list" where
  "get_time_patterns counter hours component_type =
     (let rotation = nat (counter mod 3);
          day_pairings = drop rotation base_day_pairings @ take rotation base_day_pairings;
          should_split = ((component_type = ''Lab'' \<and> hours \<ge> 2) \<or> (hours > 2 \<and> hours \<le> 4))
      in if hours \<le> 2 \<and> \<not> should_split then
           concat (map (\<lambda>d.
             concat (map (\<lambda>start.
               case add_hours_to_time start (of_int hours) of
                 None \<Rightarrow> []
               | Some end \<Rightarrow>
                   if end \<in> set time_slots
                   then [[\<lparr>day = d, start_time = start, end_time = end,
                            duration = of_int hours\<rparr>]]
                   else []) (slice_to time_slots (- 4)))) days)
         else if hours = 2 \<and> component_type = ''Lab'' then
           (let session_hours = 1
            in two_session_patterns day_pairings (slice_to time_slots (- 2)) session_hours)
         else if hours \<le> 4 then
           (let session_hours = of_int hours / 2;
                slots_needed = \<lfloor>session_hours * 2\<rfloor>
            in two_session_patterns day_pairings
                 (slice_to time_slots (if slots_needed > 0 then - slots_needed else - 1))
                 session_hours)
         else
           (let session_hours = of_int hours / 2;
                slots_needed = \<lfloor>session_hours * 2\<rfloor>
            in two_session_patterns day_pairings
                 (slice_to time_slots (if slots_needed > 0 then - slots_needed else - 1))
                 session_hours))"

subsection \<open>The tables, the schedule entries and the occupancy ledgers\<close>

text \<open>One row of each DataFrame, with the columns the scheduler reads.\<close>

record course_row =
  course_code :: string
  course_title :: string
  course_program :: string
  course_year_level :: int
  course_term :: int
  course_type :: string
  units :: int
  hours_per_week :: int

record room_row =
  room_name :: string
  room_type :: string
  capacity :: int

record faculty_row =
  faculty_name :: string

record section_row =
  section_name :: string
  section_program :: string
  section_year_level :: int
  section_term :: int
  students_count :: int

text \<open>The dict appended to \<^verbatim>\<open>schedule_list\<close>.\<close>

record schedule_entry =
  e_course_code :: string
  e_course_title :: string
  e_program :: string
  e_year_level :: int
  e_term :: int
  e_section :: string
  e_day :: string
  e_start_time :: string
  e_end_time :: string
  e_room :: string
  e_faculty :: string
  e_course_type :: string
  e_students_count :: int

text \<open>The dict \<^verbatim>\<open>session_info\<close> appended to the three ledgers.\<close>

record session_info =
  si_start_time :: string
  si_end_time :: string
  si_course :: string
  si_section :: string

text \<open>A ledger is a dict from a resource name to a dict from a day to the list of its
  bookings.\<close>

type_synonym ledger = "string \<rightharpoonup> (string \<rightharpoonup> session_info list)"

text \<open>What the methods mutate: the list and the three dicts they are handed, the attribute
  \<^verbatim>\<open>self.day_pairing_counter\<close>, and the warnings printed by the greedy loop, each as the
  pair (course code, section name).\<close>

record run_state =
  schedule_list :: "schedule_entry list"
  faculty_schedule :: ledger
  room_schedule :: ledger
  section_schedule :: ledger
  day_pairing_counter :: int
  warnings :: "(string \<times> string) list"

subsection \<open>String helpers\<close>

definition lower_char :: "char \<Rightarrow> char" where
  "lower_char c =
     (case map_of (zip ''ABCDEFGHIJKLMNOPQRSTUVWXYZ'' ''abcdefghijklmnopqrstuvwxyz'') c of
        Some l \<Rightarrow> l
      | None \<Rightarrow> c)"

text \<open>\<^verbatim>\<open>str.lower\<close> on ASCII text.\<close>

definition lower :: "string \<Rightarrow> string" where
  "lower s = map lower_char s"

text \<open>\<^verbatim>\<open>sub in s\<close> for strings.\<close>

fun contains :: "string \<Rightarrow> string \<Rightarrow> bool" where
  "contains sub [] = (sub = [])"
| "contains sub (c # cs) = (take (length sub) (c # cs) = sub \<or> contains sub cs)"

subsection \<open>\<^verbatim>\<open>_can_assign_pattern\<close> and \<^verbatim>\<open>_make_assignment\<close>\<close>

text \<open>The test of one resource inside the session loop: \<^verbatim>\<open>if day in d: for existing in d[day]:
  if overlap: return False\<close>, for the inner dict \<open>d\<close> of that resource.\<close>

definition day_conflict :: "(string \<rightharpoonup> session_info list) \<Rightarrow> session \<Rightarrow> bool" where
  "day_conflict d s =
     (case d (day s) of
        None \<Rightarrow> False
      | Some existing \<Rightarrow>
          list_ex (\<lambda>x. times_overlap (start_time s) (end_time s) (si_start_time x) (si_end_time x))
            existing)"

text \<open>The session loop of \<^verbatim>\<open>_can_assign_pattern\<close>. Indexing a ledger with a name that is not
  a key raises KeyError.\<close>

fun check_sessions ::
    "pattern \<Rightarrow> string \<Rightarrow> string \<Rightarrow> string \<Rightarrow> ledger \<Rightarrow> ledger \<Rightarrow> ledger \<Rightarrow> error + bool" where
  "check_sessions [] fname rname sname fs rs ss = Inr True"
| "check_sessions (s # rest) fname rname sname fs rs ss =
     (case fs fname of
        None \<Rightarrow> Inl KeyError
      | Some fd \<Rightarrow>
          if day_conflict fd s then Inr False
          else (case rs rname of
                  None \<Rightarrow> Inl KeyError
                | Some rd \<Rightarrow>
                    if day_conflict rd s then Inr False
                    else (case ss sname of
                            None \<Rightarrow> Inl KeyError
                          | Some sd \<Rightarrow>
                              if day_conflict sd s then Inr False
                              else check_sessions rest fname rname sname
                                     fs rs ss)))"

definition can_assign_pattern ::
    "pattern \<Rightarrow> string \<Rightarrow> string \<Rightarrow> string \<Rightarrow> ledger \<Rightarrow> ledger \<Rightarrow> ledger \<Rightarrow> bool
      \<Rightarrow> error + bool" where
  "can_assign_pattern p fname rname sname fs rs ss allow_conflicts =
     (if allow_conflicts then Inr True
      else check_sessions p fname rname sname fs rs ss)"

text \<open>\<^verbatim>\<open>if day not in sched[name]: sched[name][day] = []\<close> followed by
  \<^verbatim>\<open>sched[name][day].append(info)\<close>.\<close>

definition ledger_append :: "ledger \<Rightarrow> string \<Rightarrow> string \<Rightarrow> session_info \<Rightarrow> error + ledger" where
  "ledger_append sched name d info =
     (case sched name of
        None \<Rightarrow> Inl KeyError
      | Some ds \<Rightarrow>
          Inr (sched(name \<mapsto> ds(d \<mapsto> (case ds d of None \<Rightarrow> [] | Some l \<Rightarrow> l) @ [info]))))"

definition make_entry ::
    "session \<Rightarrow> course_row \<Rightarrow> section_row \<Rightarrow> string \<Rightarrow> string \<Rightarrow> string \<Rightarrow> schedule_entry" where
  "make_entry s course section fname rname component_type =
     \<lparr>e_course_code = course_code course, e_course_title = course_title course,
      e_program = section_program section, e_year_level = section_year_level section,
      e_term = section_term section, e_section = section_name section,
      e_day = day s, e_start_time = start_time s, e_end_time = end_time s,
      e_room = rname, e_faculty = fname, e_course_type = component_type,
      e_students_count = students_count section\<rparr>"

text \<open>The body of the session loop, the same text in \<^verbatim>\<open>_make_assignment\<close> and in
  \<^verbatim>\<open>_make_assignment_backtrack\<close>: append the entry, then book the session in the faculty,
  room and section ledgers.\<close>

definition record_session ::
    "session \<Rightarrow> course_row \<Rightarrow> section_row \<Rightarrow> string \<Rightarrow> string \<Rightarrow> string \<Rightarrow> run_state
      \<Rightarrow> error + run_state" where
  "record_session s course section fname rname component_type st =
     (let info = \<lparr>si_start_time = start_time s, si_end_time = end_time s,
                  si_course = course_code course, si_section = section_name section\<rparr>;
          entries = schedule_list st
                      @ [make_entry s course section fname rname component_type]
      in case ledger_append (faculty_schedule st) fname (day s) info of
           Inl e \<Rightarrow> Inl e
         | Inr fs \<Rightarrow>
             (case ledger_append (room_schedule st) rname (day s) info of
                Inl e \<Rightarrow> Inl e
              | Inr rs \<Rightarrow>
                  (case ledger_append (section_schedule st) (section_name section) (day s) info of
                     Inl e \<Rightarrow> Inl e
                   | Inr ss \<Rightarrow>
                       Inr (st\<lparr>schedule_list := entries, faculty_schedule := fs,
                               room_schedule := rs, section_schedule := ss\<rparr>))))"

fun record_sessions ::
    "pattern \<Rightarrow> course_row \<Rightarrow> section_row \<Rightarrow> string \<Rightarrow> string \<Rightarrow> string \<Rightarrow> run_state
      \<Rightarrow> error + run_state" where
  "record_sessions [] course section fname rname component_type st = Inr st"
| "record_sessions (s # rest) course section fname rname component_type st =
     (case record_session s course section fname rname component_type st of
        Inl e \<Rightarrow> Inl e
      | Inr st' \<Rightarrow> record_sessions rest course section fname rname component_type st')"

definition make_assignment ::
    "pattern \<Rightarrow> course_row \<Rightarrow> section_row \<Rightarrow> string \<Rightarrow> string \<Rightarrow> string \<Rightarrow> run_state
      \<Rightarrow> error + run_state" where
  "make_assignment p course section fname rname component_type st =
     (case record_sessions p course section fname rname component_type st of
        Inl e \<Rightarrow> Inl e
      | Inr st' \<Rightarrow> Inr (st'\<lparr>day_pairing_counter := day_pairing_counter st' + 1\<rparr>))"

subsection \<open>The greedy assigner\<close>

text \<open>\<^verbatim>\<open>_find_suitable_faculty\<close> returns a copy of the whole faculty table.\<close>

definition find_suitable_faculty :: "faculty_row list \<Rightarrow> course_row \<Rightarrow> faculty_row list" where
  "find_suitable_faculty faculty course = faculty"

text \<open>The three nested loops \<^verbatim>\<open>for pattern: for faculty: for room\<close>, as the list of the
  combinations in the order the loops visit them.\<close>

definition combinations ::
    "pattern list \<Rightarrow> faculty_row list \<Rightarrow> room_row list \<Rightarrow> (pattern \<times> string \<times> string) list" where
  "combinations time_patterns suitable_faculty suitable_rooms =
     concat (map (\<lambda>p.
       concat (map (\<lambda>f. map (\<lambda>r. (p, faculty_name f, room_name r)) suitable_rooms)
         suitable_faculty)) time_patterns)"

text \<open>The body of those loops in \<^verbatim>\<open>_schedule_course_component\<close>: the first combination
  that can be assigned is recorded and ends the search.\<close>

fun try_combinations ::
    "(pattern \<times> string \<times> string) list \<Rightarrow> course_row \<Rightarrow> section_row \<Rightarrow> string \<Rightarrow> bool
      \<Rightarrow> run_state \<Rightarrow> error + (bool \<times> run_state)" where
  "try_combinations [] course section component_type allow_conflicts st = Inr (False, st)"
| "try_combinations ((p, fname, rname) # rest) course section component_type
       allow_conflicts st =
     (case can_assign_pattern p fname rname (section_name section)
             (faculty_schedule st) (room_schedule st) (section_schedule st) allow_conflicts of
        Inl e \<Rightarrow> Inl e
      | Inr True \<Rightarrow>
          (case make_assignment p course section fname rname component_type st of
             Inl e \<Rightarrow> Inl e
           | Inr st' \<Rightarrow> Inr (True, st'))
      | Inr False \<Rightarrow> try_combinations rest course section component_type allow_conflicts st)"

definition schedule_course_component ::
    "course_row \<Rightarrow> section_row \<Rightarrow> string \<Rightarrow> int \<Rightarrow> run_state \<Rightarrow> faculty_row list
      \<Rightarrow> room_row list \<Rightarrow> bool \<Rightarrow> error + (bool \<times> run_state)" where
  "schedule_course_component course section component_type hours st suitable_faculty
       suitable_rooms allow_conflicts =
     (let time_patterns = get_time_patterns (day_pairing_counter st) hours component_type
      in try_combinations (combinations time_patterns suitable_faculty suitable_rooms)
           course section component_type allow_conflicts st)"

definition schedule_single_type_course ::
    "course_row \<Rightarrow> section_row \<Rightarrow> run_state \<Rightarrow> faculty_row list \<Rightarrow> room_row list \<Rightarrow> bool
      \<Rightarrow> error + (bool \<times> run_state)" where
  "schedule_single_type_course course section st suitable_faculty suitable_rooms
       allow_conflicts =
     (let hours = hours_per_week course;
          component_type =
            (if contains ''lecture'' (lower (course_type course)) then ''Lecture'' else ''Lab'')
      in schedule_course_component course section component_type hours st suitable_faculty
           suitable_rooms allow_conflicts)"

definition schedule_lecture_lab_course ::
    "room_row list \<Rightarrow> course_row \<Rightarrow> section_row \<Rightarrow> run_state \<Rightarrow> faculty_row list \<Rightarrow> bool
      \<Rightarrow> error + (bool \<times> run_state)" where
  "schedule_lecture_lab_course rooms course section st suitable_faculty allow_conflicts =
     (let hours = hours_per_week course;
          lecture_hours = hours div 2;
          lab_hours = hours - lecture_hours;
          lecture_rooms = filter (\<lambda>r. room_type r = ''Lecture'') rooms
      in case schedule_course_component course section ''Lecture'' lecture_hours st
                suitable_faculty lecture_rooms allow_conflicts of
           Inl e \<Rightarrow> Inl e
         | Inr (lecture_assigned, st1) \<Rightarrow>
             if \<not> lecture_assigned \<and> \<not> allow_conflicts then Inr (False, st1)
             else
               (let lab_rooms = filter (\<lambda>r. room_type r = ''Lab'') rooms
                in case schedule_course_component course section ''Lab'' lab_hours st1
                          suitable_faculty lab_rooms allow_conflicts of
                     Inl e \<Rightarrow> Inl e
                   | Inr (lab_assigned, st2) \<Rightarrow> Inr (lecture_assigned \<and> lab_assigned, st2)))"

definition assign_course_to_section ::
    "room_row list \<Rightarrow> faculty_row list \<Rightarrow> course_row \<Rightarrow> section_row \<Rightarrow> run_state \<Rightarrow> bool
      \<Rightarrow> error + (bool \<times> run_state)" where
  "assign_course_to_section rooms faculty course section st allow_conflicts =
     (let required_room_type =
            (if contains ''lab'' (lower (course_type course)) then ''Lab'' else ''Lecture'');
          suitable_faculty = find_suitable_faculty faculty course
      in if suitable_faculty = [] then Inr (False, st)
         else
           (let suitable_rooms = filter (\<lambda>r. room_type r = required_room_type) rooms
            in if suitable_rooms = [] then Inr (False, st)
               else if lower (course_type course) = ''both'' then
                 schedule_lecture_lab_course rooms course section st suitable_faculty
                   allow_conflicts
               else
                 schedule_single_type_course course section st suitable_faculty suitable_rooms
                   allow_conflicts))"

text \<open>The rows of \<^verbatim>\<open>courses_to_schedule\<close> that match the section's program, year and
  term.\<close>

definition section_courses :: "course_row list \<Rightarrow> section_row \<Rightarrow> course_row list" where
  "section_courses courses_to_schedule section =
     filter (\<lambda>c. course_program c = section_program section
                \<and> course_year_level c = section_year_level section
                \<and> course_term c = section_term section) courses_to_schedule"

text \<open>The inner loop of \<^verbatim>\<open>_greedy_scheduling\<close> over the courses of one section; a course
  that is not assigned is reported when conflicts are disallowed.\<close>

fun greedy_courses ::
    "room_row list \<Rightarrow> faculty_row list \<Rightarrow> course_row list \<Rightarrow> section_row \<Rightarrow> bool \<Rightarrow> run_state
      \<Rightarrow> error + run_state" where
  "greedy_courses rooms faculty [] section allow_conflicts st = Inr st"
| "greedy_courses rooms faculty (course # rest) section allow_conflicts st =
     (case assign_course_to_section rooms faculty course section st allow_conflicts of
        Inl e \<Rightarrow> Inl e
      | Inr (assigned, st') \<Rightarrow>
          greedy_courses rooms faculty rest section allow_conflicts
            (if \<not> assigned \<and> \<not> allow_conflicts
             then st'\<lparr>warnings := warnings st' @ [(course_code course, section_name section)]\<rparr>
             else st'))"

text \<open>The outer loop over the sections: each iteration first sets
  \<^verbatim>\<open>section_schedule[section_name] = {}\<close>.\<close>

fun greedy_sections ::
    "room_row list \<Rightarrow> faculty_row list \<Rightarrow> course_row list \<Rightarrow> section_row list \<Rightarrow> bool
      \<Rightarrow> run_state \<Rightarrow> error + run_state" where
  "greedy_sections rooms faculty courses_to_schedule [] allow_conflicts st = Inr st"
| "greedy_sections rooms faculty courses_to_schedule (section # rest) allow_conflicts st =
     (let st1 = st\<lparr>section_schedule := (section_schedule st)(section_name section \<mapsto> Map.empty)\<rparr>
      in case greedy_courses rooms faculty (section_courses courses_to_schedule section)
                section allow_conflicts st1 of
           Inl e \<Rightarrow> Inl e
         | Inr st2 \<Rightarrow>
             greedy_sections rooms faculty courses_to_schedule rest allow_conflicts st2)"

text \<open>\<^verbatim>\<open>for name in names: sched[name] = {}\<close> on an empty dict.\<close>

definition init_ledger :: "string list \<Rightarrow> ledger" where
  "init_ledger names = foldl (\<lambda>m n. m(n \<mapsto> Map.empty)) Map.empty names"

text \<open>The local variables of a run at its start, with the counter the object holds.\<close>

definition initial_state :: "room_row list \<Rightarrow> faculty_row list \<Rightarrow> int \<Rightarrow> run_state" where
  "initial_state rooms faculty counter =
     \<lparr>schedule_list = [], faculty_schedule = init_ledger (map faculty_name faculty),
      room_schedule = init_ledger (map room_name rooms), section_schedule = Map.empty,
      day_pairing_counter = counter, warnings = []\<rparr>"

text \<open>\<^verbatim>\<open>_greedy_scheduling\<close> up to its last statement: the state in which the loops end.\<close>

definition greedy_run ::
    "room_row list \<Rightarrow> faculty_row list \<Rightarrow> section_row list \<Rightarrow> course_row list \<Rightarrow> bool \<Rightarrow> int
      \<Rightarrow> error + run_state" where
  "greedy_run rooms faculty sections courses_to_schedule allow_conflicts counter =
     greedy_sections rooms faculty courses_to_schedule sections allow_conflicts
       (initial_state rooms faculty counter)"

text \<open>\<^verbatim>\<open>_greedy_scheduling\<close>: the DataFrame it returns is the list of entries (the empty
  DataFrame for the empty list); the second component is the counter it leaves on the
  object.\<close>

definition greedy_scheduling ::
    "room_row list \<Rightarrow> faculty_row list \<Rightarrow> section_row list \<Rightarrow> course_row list \<Rightarrow> bool \<Rightarrow> int
      \<Rightarrow> error + (schedule_entry list \<times> int)" where
  "greedy_scheduling rooms faculty sections courses_to_schedule allow_conflicts counter =
     (case greedy_run rooms faculty sections courses_to_schedule allow_conflicts counter of
        Inl e \<Rightarrow> Inl e
      | Inr st \<Rightarrow> Inr (schedule_list st, day_pairing_counter st))"

subsection \<open>The backtracking assigner\<close>

text \<open>The dict \<^verbatim>\<open>{'pattern', 'faculty', 'room'}\<close> built by \<^verbatim>\<open>_get_possible_assignments\<close>;
  \<^verbatim>\<open>_make_assignment_backtrack\<close> adds the key \<^verbatim>\<open>'assignment_data'\<close> to it.\<close>

record assignment_option =
  opt_pattern :: pattern
  opt_faculty :: string
  opt_room :: string
  assignment_data :: "nat list option"

text \<open>The session loop of \<^verbatim>\<open>_make_assignment_backtrack\<close>: the body of \<open>record_session\<close>,
  and the index of the appended entry stored for the undo.\<close>

fun record_sessions_backtrack ::
    "pattern \<Rightarrow> course_row \<Rightarrow> section_row \<Rightarrow> string \<Rightarrow> string \<Rightarrow> string \<Rightarrow> nat list
      \<Rightarrow> run_state \<Rightarrow> error + (nat list \<times> run_state)" where
  "record_sessions_backtrack [] course section fname rname component_type data st =
     Inr (data, st)"
| "record_sessions_backtrack (s # rest) course section fname rname component_type data st =
     (case record_session s course section fname rname component_type st of
        Inl e \<Rightarrow> Inl e
      | Inr st' \<Rightarrow>
          record_sessions_backtrack rest course section fname rname component_type
            (data @ [length (schedule_list st') - 1]) st')"

definition make_assignment_backtrack ::
    "assignment_option \<Rightarrow> course_row \<Rightarrow> section_row \<Rightarrow> run_state
      \<Rightarrow> error + (assignment_option \<times> run_state)" where
  "make_assignment_backtrack assignment_opt course section st =
     (let component_type =
            (if lower (course_type course) = ''both'' then ''Both''
             else if contains ''lecture'' (lower (course_type course)) then ''Lecture''
             else ''Lab'')
      in case record_sessions_backtrack (opt_pattern assignment_opt) course section
                (opt_faculty assignment_opt) (opt_room assignment_opt) component_type [] st of
           Inl e \<Rightarrow> Inl e
         | Inr (data, st') \<Rightarrow>
             Inr (assignment_opt\<lparr>assignment_data := Some data\<rparr>,
                  st'\<lparr>day_pairing_counter := day_pairing_counter st' + 1\<rparr>))"

text \<open>\<^verbatim>\<open>for idx in reversed(assignment_data): if idx < len(schedule_list):
  schedule_list.pop(idx)\<close>, on the list of indices already reversed.\<close>

fun pop_indices :: "nat list \<Rightarrow> 'a list \<Rightarrow> 'a list" where
  "pop_indices [] xs = xs"
| "pop_indices (idx # rest) xs =
     pop_indices rest (if idx < length xs then take idx xs @ drop (Suc idx) xs else xs)"

text \<open>One ledger in the session loop of \<^verbatim>\<open>_undo_assignment_backtrack\<close>: if the day is a key
  of the resource's dict, keep the bookings that do not match, and delete the day when
  none is left.\<close>

definition ledger_remove ::
    "ledger \<Rightarrow> string \<Rightarrow> string \<Rightarrow> (session_info \<Rightarrow> bool) \<Rightarrow> error + ledger" where
  "ledger_remove sched name d matches =
     (case sched name of
        None \<Rightarrow> Inl KeyError
      | Some ds \<Rightarrow>
          (case ds d of
             None \<Rightarrow> Inr sched
           | Some l \<Rightarrow>
               (let kept = filter (\<lambda>x. \<not> matches x) l
                in if kept = [] then Inr (sched(name \<mapsto> ds(d := None)))
                   else Inr (sched(name \<mapsto> ds(d \<mapsto> kept))))))"

fun unrecord_sessions ::
    "pattern \<Rightarrow> course_row \<Rightarrow> section_row \<Rightarrow> string \<Rightarrow> string \<Rightarrow> run_state
      \<Rightarrow> error + run_state" where
  "unrecord_sessions [] course section fname rname st = Inr st"
| "unrecord_sessions (s # rest) course section fname rname st =
     (case ledger_remove (faculty_schedule st) fname (day s)
             (\<lambda>x. si_course x = course_code course \<and> si_section x = section_name section) of
        Inl e \<Rightarrow> Inl e
      | Inr fs \<Rightarrow>
          (case ledger_remove (room_schedule st) rname (day s)
                  (\<lambda>x. si_course x = course_code course \<and> si_section x = section_name section) of
             Inl e \<Rightarrow> Inl e
           | Inr rs \<Rightarrow>
               (case ledger_remove (section_schedule st) (section_name section) (day s)
                       (\<lambda>x. si_course x = course_code course) of
                  Inl e \<Rightarrow> Inl e
                | Inr ss \<Rightarrow>
                    unrecord_sessions rest course section fname rname
                      (st\<lparr>faculty_schedule := fs, room_schedule := rs,
                          section_schedule := ss\<rparr>))))"

definition undo_assignment_backtrack ::
    "assignment_option \<Rightarrow> course_row \<Rightarrow> section_row \<Rightarrow> run_state \<Rightarrow> error + run_state" where
  "undo_assignment_backtrack assignment_opt course section st =
     (case assignment_data assignment_opt of
        None \<Rightarrow> Inr st
      | Some data \<Rightarrow>
          (let st1 = st\<lparr>schedule_list := pop_indices (rev data) (schedule_list st)\<rparr>
           in case unrecord_sessions (opt_pattern assignment_opt) course section
                     (opt_faculty assignment_opt) (opt_room assignment_opt) st1 of
                Inl e \<Rightarrow> Inl e
              | Inr st2 \<Rightarrow> Inr (st2\<lparr>day_pairing_counter := day_pairing_counter st2 - 1\<rparr>)))"

text \<open>\<^verbatim>\<open>int(s)\<close> for a non-empty string of decimal digits; \<open>None\<close> is its ValueError. (Signs,
  blanks and underscores, which \<^verbatim>\<open>int\<close> also reads, do not occur in a time string.)\<close>

definition py_int :: "string \<Rightarrow> int option" where
  "py_int s =
     (if s = [] \<or> (\<exists>c \<in> set s. digit_val c = None) then None
      else Some (foldl (\<lambda>acc c. 10 * acc + int (case digit_val c of Some d \<Rightarrow> d | None \<Rightarrow> 0))
                   0 s))"

text \<open>\<^verbatim>\<open>_assignment_preference\<close>; \<^verbatim>\<open>split(':')[0]\<close> is the text before the first colon.\<close>

definition assignment_preference :: "assignment_option \<Rightarrow> error + int" where
  "assignment_preference assignment_opt =
     (case opt_pattern assignment_opt of
        [] \<Rightarrow> Inr 0
      | first_session # _ \<Rightarrow>
          (case py_int (takeWhile (\<lambda>c. c \<noteq> CHR '':'') (start_time first_session)) of
             None \<Rightarrow> Inl ValueError
           | Some start_hour \<Rightarrow>
               Inr (start_hour
                    + (if list_ex (\<lambda>s. day s = ''Saturday'') (opt_pattern assignment_opt)
                       then 20 else 0))))"

text \<open>\<^verbatim>\<open>list.sort(key=f)\<close> computes the key of every element first, raising what \<open>f\<close>
  raises, and then sorts stably.\<close>

fun keyed :: "('a \<Rightarrow> error + int) \<Rightarrow> 'a list \<Rightarrow> error + (int \<times> 'a) list" where
  "keyed f [] = Inr []"
| "keyed f (x # xs) =
     (case f x of
        Inl e \<Rightarrow> Inl e
      | Inr k \<Rightarrow> (case keyed f xs of Inl e \<Rightarrow> Inl e | Inr ks \<Rightarrow> Inr ((k, x) # ks)))"

definition sort_by :: "('a \<Rightarrow> error + int) \<Rightarrow> 'a list \<Rightarrow> error + 'a list" where
  "sort_by f xs =
     (case keyed f xs of Inl e \<Rightarrow> Inl e | Inr ks \<Rightarrow> Inr (map snd (sort_key fst ks)))"

text \<open>The loops of \<^verbatim>\<open>_get_possible_assignments\<close>: the combinations that pass
  \<^verbatim>\<open>allow_conflicts or self._can_assign_pattern(...)\<close>.\<close>

fun assignable ::
    "(pattern \<times> string \<times> string) list \<Rightarrow> string \<Rightarrow> run_state \<Rightarrow> bool
      \<Rightarrow> error + assignment_option list" where
  "assignable [] sname st allow_conflicts = Inr []"
| "assignable ((p, fname, rname) # rest) sname st allow_conflicts =
     (case (if allow_conflicts then Inr True
            else can_assign_pattern p fname rname sname (faculty_schedule st)
                   (room_schedule st) (section_schedule st) allow_conflicts) of
        Inl e \<Rightarrow> Inl e
      | Inr ok \<Rightarrow>
          (case assignable rest sname st allow_conflicts of
             Inl e \<Rightarrow> Inl e
           | Inr opts \<Rightarrow>
               Inr ((if ok
                     then [\<lparr>opt_pattern = p, opt_faculty = fname, opt_room = rname,
                             assignment_data = None\<rparr>]
                     else []) @ opts)))"

text \<open>\<^verbatim>\<open>_get_possible_assignments\<close>; \<^verbatim>\<open>_get_time_patterns\<close> is called with the hours alone,
  so its component type is the default \<^verbatim>\<open>'Lecture'\<close>.\<close>

definition get_possible_assignments ::
    "room_row list \<Rightarrow> faculty_row list \<Rightarrow> course_row \<Rightarrow> section_row \<Rightarrow> run_state \<Rightarrow> bool
      \<Rightarrow> error + assignment_option list" where
  "get_possible_assignments rooms faculty course section st allow_conflicts =
     (let required_room_type =
            (if contains ''lab'' (lower (course_type course)) then ''Lab'' else ''Lecture'');
          suitable_rooms = filter (\<lambda>r. room_type r = required_room_type) rooms;
          suitable_faculty = find_suitable_faculty faculty course;
          hours = hours_per_week course;
          time_patterns = get_time_patterns (day_pairing_counter st) hours ''Lecture''
      in case assignable (combinations time_patterns suitable_faculty suitable_rooms)
                (section_name section) st allow_conflicts of
           Inl e \<Rightarrow> Inl e
         | Inr possible \<Rightarrow> sort_by assignment_preference possible)"

text \<open>\<^verbatim>\<open>_calculate_constraint_complexity\<close> of the obligation of a course.\<close>

definition calculate_constraint_complexity :: "course_row \<times> section_row \<Rightarrow> int" where
  "calculate_constraint_complexity a =
     (let course = fst a in
      (if contains ''lab'' (lower (course_type course)) \<or> lower (course_type course) = ''both''
       then 10 else 0)
      + hours_per_week course
      + (if lower (course_type course) = ''both'' then 5 else 0))"

text \<open>\<^verbatim>\<open>_backtrack_assign\<close>, on the obligations from \<^verbatim>\<open>index\<close> on, together with its loop
  over the options of the first of them.\<close>

function backtrack_assign ::
    "room_row list \<Rightarrow> faculty_row list \<Rightarrow> (course_row \<times> section_row) list \<Rightarrow> run_state \<Rightarrow> int
      \<Rightarrow> bool \<Rightarrow> error + (bool \<times> run_state)"
  and backtrack_options ::
    "room_row list \<Rightarrow> faculty_row list \<Rightarrow> assignment_option list \<Rightarrow> course_row \<times> section_row
      \<Rightarrow> (course_row \<times> section_row) list \<Rightarrow> run_state \<Rightarrow> int \<Rightarrow> bool
      \<Rightarrow> error + (bool \<times> run_state)" where
  "backtrack_assign rooms faculty [] st max_iterations allow_conflicts = Inr (True, st)"
| "backtrack_assign rooms faculty (a # rest) st max_iterations allow_conflicts =
     (if int (length (schedule_list st)) > max_iterations then Inr (False, st)
      else (case get_possible_assignments rooms faculty (fst a) (snd a) st allow_conflicts of
              Inl e \<Rightarrow> Inl e
            | Inr possible \<Rightarrow>
                backtrack_options rooms faculty possible a rest st max_iterations
                  allow_conflicts))"
| "backtrack_options rooms faculty [] a rest st max_iterations allow_conflicts =
     Inr (False, st)"
| "backtrack_options rooms faculty (assignment_opt # opts) a rest st max_iterations
       allow_conflicts =
     (case make_assignment_backtrack assignment_opt (fst a) (snd a) st of
        Inl e \<Rightarrow> Inl e
      | Inr (opt', st1) \<Rightarrow>
          (case backtrack_assign rooms faculty rest st1 max_iterations allow_conflicts of
             Inl e \<Rightarrow> Inl e
           | Inr (True, st2) \<Rightarrow> Inr (True, st2)
           | Inr (False, st2) \<Rightarrow>
               (case undo_assignment_backtrack opt' (fst a) (snd a) st2 of
                  Inl e \<Rightarrow> Inl e
                | Inr st3 \<Rightarrow>
                    backtrack_options rooms faculty opts a rest st3 max_iterations
                      allow_conflicts)))"
  by pat_completeness auto
termination
  by (relation "inv_image (less_than <*lex*> less_than <*lex*> less_than)
        (\<lambda>x. case x of
           Inl (rooms, faculty, as, st, m, ac) \<Rightarrow> (length as, 0, 0)
         | Inr (rooms, faculty, opts, a, rest, st, m, ac) \<Rightarrow> (length rest, 1, length opts))")
     auto

text \<open>The loops of \<^verbatim>\<open>_backtracking_scheduling\<close> that collect the obligations, section by
  section; they also set \<^verbatim>\<open>section_schedule[section_name] = {}\<close>.\<close>

definition collect_assignments ::
    "course_row list \<Rightarrow> section_row list \<Rightarrow> (course_row \<times> section_row) list" where
  "collect_assignments courses_to_schedule sections =
     concat (map (\<lambda>section. map (\<lambda>course. (course, section))
                                (section_courses courses_to_schedule section)) sections)"

text \<open>\<^verbatim>\<open>_backtracking_scheduling\<close>; \<^verbatim>\<open>sort(key=..., reverse=True)\<close> is the stable sort by
  descending key. When the search fails the method returns what the greedy assigner
  gives with conflicts allowed.\<close>

definition backtracking_scheduling ::
    "room_row list \<Rightarrow> faculty_row list \<Rightarrow> section_row list \<Rightarrow> course_row list \<Rightarrow> int \<Rightarrow> bool
      \<Rightarrow> int \<Rightarrow> error + (schedule_entry list \<times> int)" where
  "backtracking_scheduling rooms faculty sections courses_to_schedule max_iterations
       allow_conflicts counter =
     (let st0 = (initial_state rooms faculty counter)
                  \<lparr>section_schedule := init_ledger (map section_name sections)\<rparr>;
          assignments = sort_key (\<lambda>a. - calculate_constraint_complexity a)
                          (collect_assignments courses_to_schedule sections)
      in case backtrack_assign rooms faculty assignments st0 max_iterations allow_conflicts of
           Inl e \<Rightarrow> Inl e
         | Inr (True, st) \<Rightarrow> Inr (schedule_list st, day_pairing_counter st)
         | Inr (False, st) \<Rightarrow>
             greedy_scheduling rooms faculty sections courses_to_schedule True
               (day_pairing_counter st))"

subsection \<open>The constraint-satisfaction solver\<close>

text \<open>A Python dict whose order of insertion matters is an association list: a lookup
  finds the first pair of the key, an assignment replaces it in place or appends a new
  pair, \<^verbatim>\<open>del\<close> removes it.\<close>

type_synonym 'v dict = "(string \<times> 'v) list"

definition dict_get :: "'v dict \<Rightarrow> string \<Rightarrow> 'v option" where
  "dict_get d k = map_of d k"

fun dict_set :: "'v dict \<Rightarrow> string \<Rightarrow> 'v \<Rightarrow> 'v dict" where
  "dict_set [] k v = [(k, v)]"
| "dict_set ((k', v') # d) k v = (if k' = k then (k, v) # d else (k', v') # dict_set d k v)"

definition dict_keys :: "'v dict \<Rightarrow> string list" where
  "dict_keys d = map fst d"

text \<open>A value of a domain: the dict \<^verbatim>\<open>{'pattern', 'faculty', 'room', 'course', 'section'}\<close>
  of \<^verbatim>\<open>_generate_csp_domain\<close>.\<close>

record csp_value =
  v_pattern :: pattern
  v_faculty :: string
  v_room :: string
  v_course :: course_row
  v_section :: section_row

type_synonym domains = "csp_value list dict"

text \<open>\<^verbatim>\<open>_generate_csp_domain\<close>: every combination of a pattern for the hours of the course (of
  the default kind \<^verbatim>\<open>'Lecture'\<close>), a teacher and a room of the required type.\<close>

definition generate_csp_domain ::
    "room_row list \<Rightarrow> faculty_row list \<Rightarrow> int \<Rightarrow> course_row \<Rightarrow> section_row \<Rightarrow> csp_value list"
  where
  "generate_csp_domain rooms faculty counter course sec =
     (let required_room_type =
            (if contains ''lab'' (lower (course_type course)) then ''Lab'' else ''Lecture'');
          suitable_rooms = filter (\<lambda>r. room_type r = required_room_type) rooms;
          suitable_faculty = find_suitable_faculty faculty course;
          hours = hours_per_week course;
          time_patterns = get_time_patterns counter hours ''Lecture''
      in map (\<lambda>(p, fname, rname).
                \<lparr>v_pattern = p, v_faculty = fname, v_room = rname, v_course = course,
                 v_section = sec\<rparr>)
           (combinations time_patterns suitable_faculty suitable_rooms))"

text \<open>\<^verbatim>\<open>_generate_csp_constraints\<close>: the pairs of variables at positions \<open>i < j\<close>.\<close>

definition generate_csp_constraints :: "string list \<Rightarrow> (string \<times> string) list" where
  "generate_csp_constraints variables =
     concat (map (\<lambda>(i, var1).
       concat (map (\<lambda>(j, var2). if i < j then [(var1, var2)] else [])
                 (enumerate 0 variables)))
       (enumerate 0 variables))"

definition time_patterns_overlap :: "pattern \<Rightarrow> pattern \<Rightarrow> bool" where
  "time_patterns_overlap pattern1 pattern2 =
     list_ex (\<lambda>session1.
       list_ex (\<lambda>session2.
         day session1 = day session2
         \<and> times_overlap (start_time session1) (end_time session1)
              (start_time session2) (end_time session2)) pattern2) pattern1"

definition values_satisfy_constraint :: "csp_value \<Rightarrow> csp_value \<Rightarrow> bool" where
  "values_satisfy_constraint value1 value2 =
     (if v_faculty value1 = v_faculty value2
         \<and> time_patterns_overlap (v_pattern value1) (v_pattern value2) then False
      else if v_room value1 = v_room value2
              \<and> time_patterns_overlap (v_pattern value1) (v_pattern value2) then False
      else if section_name (v_section value1) = section_name (v_section value2)
              \<and> time_patterns_overlap (v_pattern value1) (v_pattern value2) then False
      else True)"

text \<open>The loop of \<^verbatim>\<open>_revise_domain\<close> over a copy of the domain of \<^verbatim>\<open>var1\<close>: a value without
  a compatible value in the domain of \<^verbatim>\<open>var2\<close> is removed from the domain of \<^verbatim>\<open>var1\<close>
  (\<^verbatim>\<open>list.remove\<close> raises ValueError for a value that is not in the list).\<close>

fun revise_loop ::
    "csp_value list \<Rightarrow> string \<Rightarrow> string \<Rightarrow> domains \<Rightarrow> bool \<Rightarrow> error + (bool \<times> domains)" where
  "revise_loop [] var1 var2 doms revised = Inr (revised, doms)"
| "revise_loop (value1 # rest) var1 var2 doms revised =
     (case dict_get doms var2 of
        None \<Rightarrow> Inl KeyError
      | Some d2 \<Rightarrow>
          if list_ex (\<lambda>value2. values_satisfy_constraint value1 value2) d2
          then revise_loop rest var1 var2 doms revised
          else (case dict_get doms var1 of
                  None \<Rightarrow> Inl KeyError
                | Some d1 \<Rightarrow>
                    if value1 \<in> set d1
                    then revise_loop rest var1 var2 (dict_set doms var1 (remove1 value1 d1)) True
                    else Inl ValueError))"

definition revise_domain :: "string \<Rightarrow> string \<Rightarrow> domains \<Rightarrow> error + (bool \<times> domains)" where
  "revise_domain var1 var2 doms =
     (case dict_get doms var1 of
        None \<Rightarrow> Inl KeyError
      | Some d1 \<Rightarrow> revise_loop d1 var1 var2 doms False)"

text \<open>The arcs put back on the queue when the domain of \<^verbatim>\<open>var1\<close> was revised against
  \<^verbatim>\<open>var2\<close>.\<close>

definition neighbour_arcs :: "string \<Rightarrow> string \<Rightarrow> (string \<times> string) list \<Rightarrow> (string \<times> string) list"
  where
  "neighbour_arcs var1 var2 constraints =
     concat (map (\<lambda>(c1, c2).
       if c1 = var1 \<and> c2 \<noteq> var2 then [(c2, var1)]
       else if c2 = var1 \<and> c1 \<noteq> var2 then [(c1, var1)]
       else []) constraints)"

text \<open>The number of values in all domains, the measure of the loop of AC-3.\<close>

definition domains_size :: "domains \<Rightarrow> nat" where
  "domains_size doms = sum_list (map (\<lambda>kv. length (snd kv)) doms)"

text \<open>The \<^verbatim>\<open>while queue\<close> loop of \<^verbatim>\<open>_apply_arc_consistency\<close>; the empty dict is returned when
  a domain has become empty.\<close>

function arc_consistency_loop ::
    "(string \<times> string) list \<Rightarrow> domains \<Rightarrow> (string \<times> string) list \<Rightarrow> error + domains" where
  "arc_consistency_loop [] doms constraints = Inr doms"
| "arc_consistency_loop ((var1, var2) # queue) doms constraints =
     (case revise_domain var1 var2 doms of
        Inl e \<Rightarrow> Inl e
      | Inr (revised, doms') \<Rightarrow>
          if revised then
            (case dict_get doms' var1 of
               None \<Rightarrow> Inl KeyError
             | Some d1 \<Rightarrow>
                 if d1 = [] then Inr []
                 else arc_consistency_loop (queue @ neighbour_arcs var1 var2 constraints)
                        doms' constraints)
          else arc_consistency_loop queue doms' constraints)"
  by pat_completeness auto
termination
proof (relation "inv_image (less_than <*lex*> less_than)
                   (\<lambda>(queue, doms, constraints). (domains_size doms, length queue))")
  have set_size: "domains_size (dict_set doms k v) + length old = domains_size doms + length v"
    if "dict_get doms k = Some old" for doms :: domains and k v old
    using that
    by (induction doms) (auto simp: dict_get_def domains_size_def split: if_splits)
  have loop: "domains_size doms' \<le> domains_size doms \<and> (r \<longrightarrow> r')
              \<and> (r' \<longrightarrow> r \<or> domains_size doms' < domains_size doms)
              \<and> (\<not> r' \<longrightarrow> doms' = doms)"
    if "revise_loop vs var1 var2 doms r = Inr (r', doms')" for vs var1 var2 doms r r' doms'
    using that
  proof (induction vs arbitrary: doms r)
    case Nil
    then show ?case by auto
  next
    case (Cons value1 rest)
    from Cons.prems obtain d2 where d2: "dict_get doms var2 = Some d2"
      by (auto split: option.splits)
    show ?case
    proof (cases "list_ex (\<lambda>value2. values_satisfy_constraint value1 value2) d2")
      case True
      with Cons.prems d2 have "revise_loop rest var1 var2 doms r = Inr (r', doms')" by simp
      from Cons.IH [OF this] show ?thesis .
    next
      case False
      with Cons.prems d2 obtain d1 where d1: "dict_get doms var1 = Some d1"
        and m: "value1 \<in> set d1"
        and rl: "revise_loop rest var1 var2 (dict_set doms var1 (remove1 value1 d1)) True
                   = Inr (r', doms')"
        by (auto split: option.splits if_splits)
      have "length (remove1 value1 d1) < length d1"
        using m length_pos_if_in_set [OF m] by (simp add: length_remove1)
      with set_size [OF d1, of "remove1 value1 d1"] have
        "domains_size (dict_set doms var1 (remove1 value1 d1)) < domains_size doms"
        by linarith
      moreover from Cons.IH [OF rl] have
        "domains_size doms' \<le> domains_size (dict_set doms var1 (remove1 value1 d1)) \<and> r'"
        by simp
      ultimately show ?thesis by simp
    qed
  qed
  show "wf (inv_image (less_than <*lex*> less_than)
              (\<lambda>(queue, doms, constraints). (domains_size doms, length queue)))"
    by (intro wf_inv_image wf_lex_prod wf_less_than)
  fix var1 var2 queue doms constraints x revised doms' d1
  assume "revise_domain var1 var2 doms = Inr x" and "(revised, doms') = x"
  then have rl: "revise_domain var1 var2 doms = Inr (revised, doms')" by simp
  then obtain d where "revise_loop d var1 var2 doms False = Inr (revised, doms')"
    by (auto simp: revise_domain_def split: option.splits)
  note l = loop [OF this]
  { assume revised
    with l show "((queue @ neighbour_arcs var1 var2 constraints, doms', constraints),
                  (var1, var2) # queue, doms, constraints)
                 \<in> inv_image (less_than <*lex*> less_than)
                     (\<lambda>(queue, doms, constraints). (domains_size doms, length queue))"
      by simp }
  { assume "\<not> revised"
    with l show "((queue, doms', constraints), (var1, var2) # queue, doms, constraints)
                 \<in> inv_image (less_than <*lex*> less_than)
                     (\<lambda>(queue, doms, constraints). (domains_size doms, length queue))"
      by simp }
qed


text \<open>\<^verbatim>\<open>_apply_arc_consistency\<close>: the queue starts with every constraint in both directions.\<close>

definition apply_arc_consistency ::
    "string list \<Rightarrow> domains \<Rightarrow> (string \<times> string) list \<Rightarrow> error + domains" where
  "apply_arc_consistency variables doms constraints =
     arc_consistency_loop (constraints @ map (\<lambda>(c1, c2). (c2, c1)) constraints) doms constraints"

text \<open>\<^verbatim>\<open>any(not domains[var] for var in variables)\<close>, from left to right.\<close>

fun any_empty :: "string list \<Rightarrow> domains \<Rightarrow> error + bool" where
  "any_empty [] doms = Inr False"
| "any_empty (var # rest) doms =
     (case dict_get doms var of
        None \<Rightarrow> Inl KeyError
      | Some d \<Rightarrow> if d = [] then Inr True else any_empty rest doms)"

text \<open>\<^verbatim>\<open>_count_conflicts\<close> and \<^verbatim>\<open>_assignment_consistent\<close> against the values assigned so
  far.\<close>

definition count_conflicts :: "csp_value \<Rightarrow> csp_value dict \<Rightarrow> int" where
  "count_conflicts val assignment =
     int (length (filter (\<lambda>(assigned_var, assigned_value).
                            \<not> values_satisfy_constraint val assigned_value) assignment))"

definition assignment_consistent :: "csp_value \<Rightarrow> csp_value dict \<Rightarrow> bool" where
  "assignment_consistent val assignment =
     list_all (\<lambda>(assigned_var, assigned_value). values_satisfy_constraint val assigned_value)
       assignment"

text \<open>The loop of \<^verbatim>\<open>_forward_check\<close> over the variables; \<open>None\<close> is returned as soon as all
  values of a domain would go.\<close>

fun forward_check_loop ::
    "string list \<Rightarrow> string \<Rightarrow> csp_value \<Rightarrow> domains \<Rightarrow> csp_value dict \<Rightarrow> csp_value list dict
      \<Rightarrow> error + csp_value list dict option" where
  "forward_check_loop [] var val doms assignment inference = Inr (Some inference)"
| "forward_check_loop (other_var # rest) var val doms assignment inference =
     (if other_var \<noteq> var \<and> other_var \<notin> set (dict_keys assignment) then
        (case dict_get doms other_var of
           None \<Rightarrow> Inl KeyError
         | Some d \<Rightarrow>
             (let removed_values = filter (\<lambda>other_value.
                                     \<not> values_satisfy_constraint val other_value) d
              in if removed_values \<noteq> [] then
                   (if length removed_values = length d then Inr None
                    else forward_check_loop rest var val doms assignment
                           (dict_set inference other_var removed_values))
                 else forward_check_loop rest var val doms assignment inference))
      else forward_check_loop rest var val doms assignment inference)"

definition forward_check ::
    "string \<Rightarrow> csp_value \<Rightarrow> string list \<Rightarrow> domains \<Rightarrow> csp_value dict
      \<Rightarrow> error + csp_value list dict option" where
  "forward_check var val variables doms assignment =
     forward_check_loop variables var val doms assignment []"

text \<open>Applying an inference in \<^verbatim>\<open>_csp_backtrack\<close>: the domain of each variable of the
  inference is copied to \<^verbatim>\<open>old_domains\<close> and loses the removed values it still holds.\<close>

fun apply_inference ::
    "csp_value list dict \<Rightarrow> domains \<Rightarrow> domains \<Rightarrow> error + (domains \<times> domains)" where
  "apply_inference [] old_domains doms = Inr (old_domains, doms)"
| "apply_inference ((inf_var, removed_values) # rest) old_domains doms =
     (case dict_get doms inf_var of
        None \<Rightarrow> Inl KeyError
      | Some d \<Rightarrow>
          apply_inference rest (dict_set old_domains inf_var d)
            (dict_set doms inf_var
               (foldl (\<lambda>d' removed_val. if removed_val \<in> set d' then remove1 removed_val d'
                                          else d') d removed_values)))"

text \<open>\<^verbatim>\<open>for inf_var, old_domain in old_domains.items(): domains[inf_var] = old_domain\<close>.\<close>

definition restore_domains :: "domains \<Rightarrow> domains \<Rightarrow> domains" where
  "restore_domains old_domains doms =
     foldl (\<lambda>d (inf_var, old_domain). dict_set d inf_var old_domain) doms old_domains"

text \<open>\<^verbatim>\<open>min(xs, key=...)\<close> on the list of the pairs (key, element): the first element whose
  key is least.\<close>

fun argmin_first :: "(int \<times> 'a) list \<Rightarrow> (int \<times> 'a) option" where
  "argmin_first [] = None"
| "argmin_first [x] = Some x"
| "argmin_first (x # y # rest) = argmin_first ((if fst y < fst x then y else x) # rest)"

text \<open>The variable that \<^verbatim>\<open>_csp_backtrack\<close> selects: \<^verbatim>\<open>min\<close> raises ValueError on the empty
  list, and the key \<^verbatim>\<open>len(domains[v])\<close> raises KeyError.\<close>

definition select_variable :: "string list \<Rightarrow> domains \<Rightarrow> error + string" where
  "select_variable unassigned_vars doms =
     (if unassigned_vars = [] then Inl ValueError
      else case keyed (\<lambda>v. case dict_get doms v of
                              None \<Rightarrow> Inl KeyError
                            | Some d \<Rightarrow> Inr (int (length d))) unassigned_vars of
             Inl e \<Rightarrow> Inl e
           | Inr ks \<Rightarrow> (case argmin_first ks of
                          None \<Rightarrow> Inl ValueError
                        | Some kv \<Rightarrow> Inr (snd kv)))"

text \<open>The number of variables outside a set of keys, the measure of the search.\<close>

definition unassigned_count :: "string set \<Rightarrow> string list \<Rightarrow> nat" where
  "unassigned_count ks variables = length (filter (\<lambda>v. v \<notin> ks) variables)"

text \<open>\<^verbatim>\<open>_csp_backtrack\<close> with its loop over the values of the selected variable. The domains,
  which the method mutates and restores, are returned with the result.\<close>

function csp_backtrack ::
    "string list \<Rightarrow> domains \<Rightarrow> (string \<times> string) list \<Rightarrow> csp_value dict \<Rightarrow> int \<Rightarrow> bool
      \<Rightarrow> error + (csp_value dict option \<times> domains)"
  and csp_try_values ::
    "csp_value list \<Rightarrow> string \<Rightarrow> string list \<Rightarrow> domains \<Rightarrow> (string \<times> string) list
      \<Rightarrow> csp_value dict \<Rightarrow> int \<Rightarrow> bool \<Rightarrow> error + (csp_value dict option \<times> domains)" where
  "csp_backtrack variables doms constraints assignment max_iterations allow_conflicts =
     (if length assignment = length variables then Inr (Some assignment, doms)
      else if int (length assignment) > max_iterations then Inr (None, doms)
      else
        (let unassigned_vars = filter (\<lambda>v. v \<notin> set (dict_keys assignment)) variables
         in case select_variable unassigned_vars doms of
              Inl e \<Rightarrow> Inl e
            | Inr var \<Rightarrow>
                (case dict_get doms var of
                   None \<Rightarrow> Inl KeyError
                 | Some d \<Rightarrow>
                     csp_try_values (sort_key (\<lambda>val. count_conflicts val assignment) d) var
                       variables doms constraints assignment max_iterations allow_conflicts)))"
| "csp_try_values [] var variables doms constraints assignment max_iterations allow_conflicts =
     Inr (None, doms)"
| "csp_try_values (val # rest) var variables doms constraints assignment max_iterations
       allow_conflicts =
     (if allow_conflicts \<or> assignment_consistent val assignment then
        (case forward_check var val variables doms (dict_set assignment var val) of
           Inl e \<Rightarrow> Inl e
         | Inr inference \<Rightarrow>
             if inference \<noteq> None \<or> allow_conflicts then
               (case apply_inference (case inference of None \<Rightarrow> [] | Some i \<Rightarrow> i) [] doms of
                  Inl e \<Rightarrow> Inl e
                | Inr (old_domains, doms1) \<Rightarrow>
                    (case csp_backtrack variables doms1 constraints
                            (dict_set assignment var val) max_iterations allow_conflicts of
                       Inl e \<Rightarrow> Inl e
                     | Inr (Some result, doms2) \<Rightarrow> Inr (Some result, doms2)
                     | Inr (None, doms2) \<Rightarrow>
                         csp_try_values rest var variables (restore_domains old_domains doms2)
                           constraints assignment max_iterations allow_conflicts))
             else csp_try_values rest var variables doms constraints assignment
                    max_iterations allow_conflicts)
      else csp_try_values rest var variables doms constraints assignment max_iterations
             allow_conflicts)"
  by pat_completeness auto

termination
  apply (relation "inv_image (less_than <*lex*> less_than <*lex*> less_than)
         (\<lambda>x. case x of
            Inl (variables, doms, constraints, assignment, m, ac) \<Rightarrow>
              (unassigned_count (set (dict_keys assignment)) variables, Suc 0, 0)
          | Inr (vals, var, variables, doms, constraints, assignment, m, ac) \<Rightarrow>
              (Suc (unassigned_count (insert var (set (dict_keys assignment))) variables),
               0, length vals))")
  subgoal by (intro wf_inv_image wf_lex_prod wf_less_than)
  subgoal premises p for variables doms constraints assignment max_iterations allow_conflicts
      unassigned var d
  proof -
    have argmin_mem: "argmin_first ks = Some kv \<Longrightarrow> kv \<in> set ks"
      for ks :: "(int \<times> string) list" and kv
      by (induction ks rule: argmin_first.induct) (auto split: if_splits)
    have keyed_map: "keyed f xs = Inr ks \<Longrightarrow> map snd ks = xs"
      for f :: "string \<Rightarrow> error + int" and xs ks
      by (induction xs arbitrary: ks) (auto split: sum.splits)
    from p obtain ks kv where
      k: "keyed (\<lambda>v. case dict_get doms v of
                       None \<Rightarrow> Inl KeyError
                     | Some d \<Rightarrow> Inr (int (length d))) unassigned = Inr ks"
      and m: "argmin_first ks = Some kv" and v: "var = snd kv"
      by (auto simp: select_variable_def split: if_splits sum.splits option.splits)
    from argmin_mem [OF m] have "snd kv \<in> set (map snd ks)" by simp
    with keyed_map [OF k] v p have
      mem: "var \<in> set (filter (\<lambda>v. v \<notin> set (dict_keys assignment)) variables)" by simp
    have "length (filter (\<lambda>v. v \<noteq> var)
                    (filter (\<lambda>v. v \<notin> set (dict_keys assignment)) variables))
            < length (filter (\<lambda>v. v \<notin> set (dict_keys assignment)) variables)"
      using mem by (intro length_filter_less [of var]) auto
    moreover have "filter (\<lambda>v. v \<noteq> var)
                     (filter (\<lambda>v. v \<notin> set (dict_keys assignment)) variables)
                   = filter (\<lambda>v. v \<notin> insert var (set (dict_keys assignment))) variables"
      by (auto intro: filter_cong)
    ultimately have
      "Suc (unassigned_count (insert var (set (dict_keys assignment))) variables)
         \<le> unassigned_count (set (dict_keys assignment)) variables"
      by (simp add: unassigned_count_def)
    then show ?thesis by auto
  qed
  subgoal for val rest var variables doms constraints assignment
  proof -
    have "set (dict_keys (dict_set a k v)) = insert k (set (dict_keys a))"
      for a :: "csp_value dict" and k v
    proof (induction a)
      case Nil
      show ?case by (simp add: dict_keys_def)
    next
      case (Cons x a)
      obtain k' v' where x: "x = (k', v')" by (cases x) auto
      from Cons show ?case by (auto simp: dict_keys_def x)
    qed
    then show ?thesis by simp
  qed
  by auto

text \<open>\<^verbatim>\<open>_solve_csp\<close>: \<open>None\<close> is its \<^verbatim>\<open>return None\<close>.\<close>

definition solve_csp ::
    "string list \<Rightarrow> domains \<Rightarrow> (string \<times> string) list \<Rightarrow> int \<Rightarrow> bool
      \<Rightarrow> error + csp_value dict option" where
  "solve_csp variables doms constraints max_iterations allow_conflicts =
     (if \<not> allow_conflicts then
        (case apply_arc_consistency variables doms constraints of
           Inl e \<Rightarrow> Inl e
         | Inr doms' \<Rightarrow>
             (case any_empty variables doms' of
                Inl e \<Rightarrow> Inl e
              | Inr True \<Rightarrow> Inr None
              | Inr False \<Rightarrow>
                  (case csp_backtrack variables doms' constraints [] max_iterations
                          allow_conflicts of
                     Inl e \<Rightarrow> Inl e
                   | Inr (result, doms'') \<Rightarrow> Inr result)))
      else
        (case csp_backtrack variables doms constraints [] max_iterations allow_conflicts of
           Inl e \<Rightarrow> Inl e
         | Inr (result, doms'') \<Rightarrow> Inr result))"

text \<open>\<^verbatim>\<open>_convert_csp_solution_to_schedule\<close>, in the order of the items of the solution.\<close>

definition convert_csp_solution_to_schedule :: "csp_value dict \<Rightarrow> schedule_entry list" where
  "convert_csp_solution_to_schedule solution =
     concat (map (\<lambda>(var_name, a).
       (let component_type =
              (if lower (course_type (v_course a)) = ''both'' then ''Both''
               else if contains ''lecture'' (lower (course_type (v_course a))) then ''Lecture''
               else ''Lab'')
        in map (\<lambda>s. make_entry s (v_course a) (v_section a) (v_faculty a) (v_room a)
                        component_type) (v_pattern a))) solution)"

text \<open>The name of the variable of an obligation, \<^verbatim>\<open>f"{course_code}_{section_name}"\<close>.\<close>

definition var_name_of :: "course_row \<times> section_row \<Rightarrow> string" where
  "var_name_of a = course_code (fst a) @ ''_'' @ section_name (snd a)"

text \<open>\<^verbatim>\<open>_constraint_satisfaction_scheduling\<close>. A solution that is \<open>None\<close> or the empty dict
  sends the method to the greedy assigner with conflicts allowed.\<close>

definition constraint_satisfaction_scheduling ::
    "room_row list \<Rightarrow> faculty_row list \<Rightarrow> section_row list \<Rightarrow> course_row list \<Rightarrow> int \<Rightarrow> bool
      \<Rightarrow> int \<Rightarrow> error + (schedule_entry list \<times> int)" where
  "constraint_satisfaction_scheduling rooms faculty sections courses_to_schedule
       max_iterations allow_conflicts counter =
     (let obligations = collect_assignments courses_to_schedule sections;
          variables = map var_name_of obligations;
          doms = foldl (\<lambda>d a. dict_set d (var_name_of a)
                                 (generate_csp_domain rooms faculty counter (fst a) (snd a)))
                   [] obligations;
          constraints = generate_csp_constraints variables
      in case solve_csp variables doms constraints max_iterations allow_conflicts of
           Inl e \<Rightarrow> Inl e
         | Inr (Some solution) \<Rightarrow>
             if solution \<noteq> [] then Inr (convert_csp_solution_to_schedule solution, counter)
             else greedy_scheduling rooms faculty sections courses_to_schedule True counter
         | Inr None \<Rightarrow>
             greedy_scheduling rooms faculty sections courses_to_schedule True counter)"

subsection \<open>The scheduler object and \<^verbatim>\<open>generate_schedule\<close>\<close>

text \<open>The attributes of a \<^verbatim>\<open>ClassScheduler\<close> that the engine reads: the four tables, \<open>None\<close>
  until \<^verbatim>\<open>load_data\<close>, and the rotation counter, which \<^verbatim>\<open>__init__\<close> sets to 0.\<close>

record scheduler =
  self_courses :: "course_row list option"
  self_rooms :: "room_row list option"
  self_faculty :: "faculty_row list option"
  self_sections :: "section_row list option"
  self_day_pairing_counter :: int

definition new_scheduler :: scheduler where
  "new_scheduler = \<lparr>self_courses = None, self_rooms = None, self_faculty = None,
                     self_sections = None, self_day_pairing_counter = 0\<rparr>"

definition load_data ::
    "scheduler \<Rightarrow> course_row list \<Rightarrow> room_row list \<Rightarrow> faculty_row list \<Rightarrow> section_row list
      \<Rightarrow> scheduler" where
  "load_data self courses_df rooms_df faculty_df sections_df =
     self\<lparr>self_courses := Some courses_df, self_rooms := Some rooms_df,
          self_faculty := Some faculty_df, self_sections := Some sections_df\<rparr>"

text \<open>\<^verbatim>\<open>generate_schedule\<close>: the schedule it returns and the object as the call leaves it.
  \<^verbatim>\<open>if term_filter:\<close> is false for \<open>None\<close> and for 0.\<close>

definition generate_schedule ::
    "scheduler \<Rightarrow> string \<Rightarrow> int \<Rightarrow> int option \<Rightarrow> bool
      \<Rightarrow> error + (schedule_entry list \<times> scheduler)" where
  "generate_schedule self algorithm max_iterations term_filter allow_conflicts =
     (case (self_courses self, self_rooms self, self_faculty self, self_sections self) of
        (Some courses, Some rooms, Some faculty, Some sections) \<Rightarrow>
          (let courses_to_schedule =
                 (case term_filter of
                    None \<Rightarrow> courses
                  | Some t \<Rightarrow> if t \<noteq> 0 then filter (\<lambda>c. course_term c = t) courses
                              else courses);
               result =
                 (if algorithm = ''greedy'' then
                    greedy_scheduling rooms faculty sections courses_to_schedule
                      allow_conflicts (self_day_pairing_counter self)
                  else if algorithm = ''backtracking'' then
                    backtracking_scheduling rooms faculty sections courses_to_schedule
                      max_iterations allow_conflicts (self_day_pairing_counter self)
                  else if algorithm = ''constraint satisfaction'' then
                    constraint_satisfaction_scheduling rooms faculty sections
                      courses_to_schedule max_iterations allow_conflicts
                      (self_day_pairing_counter self)
                  else Inl ValueError)
           in case result of
                Inl e \<Rightarrow> Inl e
              | Inr (schedule_df, counter) \<Rightarrow>
                  Inr (schedule_df, self\<lparr>self_day_pairing_counter := counter\<rparr>))
      | _ \<Rightarrow> Inl ValueError)"

section \<open>Predicates of the statements\<close>

text \<open>The minute of the day that a parsed time denotes.\<close>

definition minute_of_day :: "time_obj \<Rightarrow> nat" where
  "minute_of_day t = 60 * hour t + minute t"

text \<open>Two schedule entries conflict when they share the room, the teacher or the section
  name, are on the same day, and \<^verbatim>\<open>_times_overlap\<close> holds of their times.\<close>

definition entries_conflict :: "schedule_entry \<Rightarrow> schedule_entry \<Rightarrow> bool" where
  "entries_conflict a b =
     ((e_room a = e_room b \<or> e_faculty a = e_faculty b \<or> e_section a = e_section b)
      \<and> e_day a = e_day b
      \<and> times_overlap (e_start_time a) (e_end_time a) (e_start_time b) (e_end_time b))"

definition booked :: "ledger \<Rightarrow> string \<Rightarrow> string \<Rightarrow> string \<Rightarrow> string \<Rightarrow> bool" where
  "booked l name d s t =
     (case l name of
        None \<Rightarrow> False
      | Some ds \<Rightarrow>
          (case ds d of
             None \<Rightarrow> False
           | Some xs \<Rightarrow> list_ex (\<lambda>x. si_start_time x = s \<and> si_end_time x = t) xs))"

definition entry_booked :: "run_state \<Rightarrow> schedule_entry \<Rightarrow> bool" where
  "entry_booked st e =
     (booked (faculty_schedule st) (e_faculty e) (e_day e) (e_start_time e) (e_end_time e)
      \<and> booked (room_schedule st) (e_room e) (e_day e) (e_start_time e) (e_end_time e)
      \<and> booked (section_schedule st) (e_section e) (e_day e) (e_start_time e) (e_end_time e))"

definition ledgers_cover :: "run_state \<Rightarrow> bool" where
  "ledgers_cover st = list_all (entry_booked st) (schedule_list st)"

definition conflict_free :: "schedule_entry list \<Rightarrow> bool" where
  "conflict_free es = sorted_wrt (\<lambda>a b. \<not> entries_conflict a b) es"

definition free_in :: "ledger \<Rightarrow> string \<Rightarrow> session \<Rightarrow> bool" where
  "free_in l name s = (case l name of None \<Rightarrow> False | Some ds \<Rightarrow> \<not> day_conflict ds s)"

definition run_inv :: "run_state \<Rightarrow> bool" where
  "run_inv st = (conflict_free (schedule_list st) \<and> ledgers_cover st)"

definition extends_for :: "section_row \<Rightarrow> run_state \<Rightarrow> run_state \<Rightarrow> bool" where
  "extends_for sec st st' =
     (run_inv st'
      \<and> list_all (\<lambda>e. e \<in> set (schedule_list st) \<or> e_section e = section_name sec)
          (schedule_list st'))"

text \<open>An entry, or every session of a pattern, starts and ends on a slot of the grid.\<close>

definition on_grid :: "schedule_entry \<Rightarrow> bool" where
  "on_grid e = (e_start_time e \<in> set time_slots \<and> e_end_time e \<in> set time_slots)"

definition grid_pattern :: "pattern \<Rightarrow> bool" where
  "grid_pattern p =
     list_all (\<lambda>s. start_time s \<in> set time_slots \<and> end_time s \<in> set time_slots) p"

text \<open>What an entry of the schedule says: it is the entry of a session of a course for a
  section, with a teacher and a room of the tables, and carries a tag.\<close>

definition entry_of ::
    "schedule_entry \<Rightarrow> session \<Rightarrow> course_row \<Rightarrow> section_row \<Rightarrow> faculty_row \<Rightarrow> room_row
      \<Rightarrow> string \<Rightarrow> bool" where
  "entry_of e s c sec f r tag =
     (e_course_code e = course_code c \<and> e_section e = section_name sec
      \<and> e_day e = day s \<and> e_start_time e = start_time s \<and> e_end_time e = end_time s
      \<and> e_faculty e = faculty_name f \<and> e_room e = room_name r \<and> e_course_type e = tag)"

text \<open>The entries of one obligation placed whole, as \<^verbatim>\<open>_make_assignment_backtrack\<close> records
  it: one pattern of the generator for all the hours of the course, one teacher, one room
  of the type \<^verbatim>\<open>_get_possible_assignments\<close> requires, and on every entry the tag that
  \<^verbatim>\<open>_make_assignment_backtrack\<close> gives the course.\<close>

definition whole_entries ::
    "room_row list \<Rightarrow> faculty_row list \<Rightarrow> course_row \<times> section_row \<Rightarrow> schedule_entry list
      \<Rightarrow> bool" where
  "whole_entries rooms faculty a es =
     (\<exists>counter. \<exists>p\<in>set (get_time_patterns counter (hours_per_week (fst a)) ''Lecture'').
        \<exists>f\<in>set faculty. \<exists>r\<in>set rooms.
          room_type r = (if contains ''lab'' (lower (course_type (fst a))) then ''Lab''
                         else ''Lecture'')
          \<and> list_all2 (\<lambda>e s. entry_of e s (fst a) (snd a) f r
                 (if lower (course_type (fst a)) = ''both'' then ''Both''
                  else if contains ''lecture'' (lower (course_type (fst a))) then ''Lecture''
                  else ''Lab'')) es p)"

text \<open>An option of the backtracking search that comes from the tables: a pattern of the
  generator for the hours of the course, a teacher and a room of the required type.\<close>

definition option_of ::
    "room_row list \<Rightarrow> faculty_row list \<Rightarrow> course_row \<Rightarrow> assignment_option \<Rightarrow> bool" where
  "option_of rooms faculty c opt =
     (\<exists>counter. opt_pattern opt \<in> set (get_time_patterns counter (hours_per_week c) ''Lecture'')
        \<and> (\<exists>f\<in>set faculty. opt_faculty opt = faculty_name f)
        \<and> (\<exists>r\<in>set rooms. opt_room opt = room_name r
              \<and> room_type r = (if contains ''lab'' (lower (course_type c)) then ''Lab''
                                else ''Lecture'')))"

text \<open>Every value of a dict satisfies a predicate; a value of a domain whose pattern is on
  the grid.\<close>

definition dict_all :: "('v \<Rightarrow> bool) \<Rightarrow> 'v dict \<Rightarrow> bool" where
  "dict_all P d = list_all (\<lambda>kv. P (snd kv)) d"

definition value_on_grid :: "csp_value \<Rightarrow> bool" where
  "value_on_grid v = grid_pattern (v_pattern v)"

section \<open>Concrete inputs\<close>

text \<open>The tables of the repository's own test \<^verbatim>\<open>test_greedy_schedule_has_no_conflicts\<close>:
  two lecture rooms, two teachers, one section and two lecture courses of two hours.\<close>

definition test_rooms :: "room_row list" where
  "test_rooms = [\<lparr>room_name = ''R101'', room_type = ''Lecture'', capacity = 40\<rparr>,
                 \<lparr>room_name = ''R102'', room_type = ''Lecture'', capacity = 40\<rparr>]"

definition test_faculty :: "faculty_row list" where
  "test_faculty = [\<lparr>faculty_name = ''Alice''\<rparr>, \<lparr>faculty_name = ''Bob''\<rparr>]"

definition test_section :: section_row where
  "test_section = \<lparr>section_name = ''BSCS11A'', section_program = ''BSCS'',
                    section_year_level = 1, section_term = 1, students_count = 30\<rparr>"

definition cs101 :: course_row where
  "cs101 = \<lparr>course_code = ''CS101'', course_title = ''Intro to CS'', course_program = ''BSCS'',
             course_year_level = 1, course_term = 1, course_type = ''Lecture'', units = 3,
             hours_per_week = 2\<rparr>"

definition cs102 :: course_row where
  "cs102 = \<lparr>course_code = ''CS102'', course_title = ''Programming I'',
             course_program = ''BSCS'', course_year_level = 1, course_term = 1,
             course_type = ''Lecture'', units = 3, hours_per_week = 2\<rparr>"

text \<open>The state of a run on these tables when the loop has just reached the section.\<close>

definition test_state :: run_state where
  "test_state = (initial_state test_rooms test_faculty 0)
                  \<lparr>section_schedule := [''BSCS11A'' \<mapsto> Map.empty]\<rparr>"

definition monday_7_to_9 :: session where
  "monday_7_to_9 =
     \<lparr>day = ''Monday'', start_time = ''07:00'', end_time = ''09:00'', duration = 2\<rparr>"

text \<open>Two sections that differ in the term only, named as \<^verbatim>\<open>generate_sections\<close> names
  them (program, year level, letter), with a course of the default data for each term.\<close>

definition bscs1a_term1 :: section_row where
  "bscs1a_term1 = \<lparr>section_name = ''BSCS1A'', section_program = ''BSCS'',
                    section_year_level = 1, section_term = 1, students_count = 30\<rparr>"


definition bscs1a_term2 :: section_row where
  "bscs1a_term2 = \<lparr>section_name = ''BSCS1A'', section_program = ''BSCS'',
                    section_year_level = 1, section_term = 2, students_count = 30\<rparr>"


definition pe1 :: course_row where
  "pe1 = \<lparr>course_code = ''PE1'', course_title = ''Physical Education 1'',
           course_program = ''BSCS'', course_year_level = 1, course_term = 1,
           course_type = ''Lecture'', units = 2, hours_per_week = 2\<rparr>"


definition pe2 :: course_row where
  "pe2 = \<lparr>course_code = ''PE2'', course_title = ''Physical Education 2'',
           course_program = ''BSCS'', course_year_level = 1, course_term = 2,
           course_type = ''Lecture'', units = 2, hours_per_week = 2\<rparr>"


definition pe1_entry :: schedule_entry where
  "pe1_entry = make_entry monday_7_to_9 pe1 bscs1a_term1 ''Alice'' ''R101'' ''Lecture''"


definition pe2_entry :: schedule_entry where
  "pe2_entry = make_entry monday_7_to_9 pe2 bscs1a_term2 ''Bob'' ''R102'' ''Lecture''"


definition cs101_entry :: schedule_entry where
  "cs101_entry = make_entry monday_7_to_9 cs101 test_section ''Alice'' ''R101'' ''Lecture''"


definition cs102_entry :: schedule_entry where
  "cs102_entry =
     make_entry \<lparr>day = ''Monday'', start_time = ''09:00'', end_time = ''11:00'', duration = 2\<rparr>
       cs102 test_section ''Alice'' ''R101'' ''Lecture''"


text \<open>The bookings a ledger holds for a resource on a day (none if a key is missing).\<close>

definition bookings :: "ledger \<Rightarrow> string \<Rightarrow> string \<Rightarrow> session_info list" where
  "bookings l name d =
     (case l name of
        None \<Rightarrow> []
      | Some ds \<Rightarrow> (case ds d of None \<Rightarrow> [] | Some xs \<Rightarrow> xs))"

definition r101 :: room_row where
  "r101 = \<lparr>room_name = ''R101'', room_type = ''Lecture'', capacity = 40\<rparr>"


definition alice :: faculty_row where
  "alice = \<lparr>faculty_name = ''Alice''\<rparr>"

definition bscs2a :: section_row where
  "bscs2a = \<lparr>section_name = ''BSCS2A'', section_program = ''BSCS'',
              section_year_level = 2, section_term = 1, students_count = 30\<rparr>"

definition ccalcoml :: course_row where
  "ccalcoml = \<lparr>course_code = ''CCALCOML'', course_title = ''Algorithms and Complexity'',
                course_program = ''BSCS'', course_year_level = 2, course_term = 1,
                course_type = ''Both'', units = 4, hours_per_week = 6\<rparr>"

definition lecture_monday :: session where
  "lecture_monday =
     \<lparr>day = ''Monday'', start_time = ''07:00'', end_time = ''08:30'', duration = 3 / 2\<rparr>"

definition lecture_thursday :: session where
  "lecture_thursday =
     \<lparr>day = ''Thursday'', start_time = ''07:00'', end_time = ''08:30'', duration = 3 / 2\<rparr>"

definition ccalcoml_info :: session_info where
  "ccalcoml_info = \<lparr>si_start_time = ''07:00'', si_end_time = ''08:30'',
                     si_course = ''CCALCOML'', si_section = ''BSCS2A''\<rparr>"

definition bscs2a_state :: run_state where
  "bscs2a_state = (initial_state [r101] [alice] 0)
                    \<lparr>section_schedule := [''BSCS2A'' \<mapsto> Map.empty]\<rparr>"






text \<open>What a record and an undo do to one ledger: the appends, and the removals, of the
  sessions of a pattern one after the other.\<close>

fun ledger_appends :: "ledger \<Rightarrow> string \<Rightarrow> (string \<times> session_info) list \<Rightarrow> error + ledger" where
  "ledger_appends l name [] = Inr l"
| "ledger_appends l name ((d, info) # rest) =
     (case ledger_append l name d info of
        Inl e \<Rightarrow> Inl e
      | Inr l' \<Rightarrow> ledger_appends l' name rest)"

fun ledger_removes :: "ledger \<Rightarrow> string \<Rightarrow> string list \<Rightarrow> (session_info \<Rightarrow> bool) \<Rightarrow> error + ledger"
  where
  "ledger_removes l name [] matches = Inr l"
| "ledger_removes l name (d # rest) matches =
     (case ledger_remove l name d matches of
        Inl e \<Rightarrow> Inl e
      | Inr l' \<Rightarrow> ledger_removes l' name rest matches)"

text \<open>On a day, a resource has no booking that the undo would match, and no empty list
  (a missing resource or day is clear).\<close>

definition day_clear :: "ledger \<Rightarrow> string \<Rightarrow> string \<Rightarrow> (session_info \<Rightarrow> bool) \<Rightarrow> bool" where
  "day_clear l name d matches =
     (case l name of
        None \<Rightarrow> True
      | Some ds \<Rightarrow>
          (case ds d of
             None \<Rightarrow> True
           | Some xs \<Rightarrow> xs \<noteq> [] \<and> list_all (\<lambda>x. \<not> matches x) xs))"

text \<open>The bookings of one resource after the appends, and after the removals.\<close>

definition added :: "(string \<rightharpoonup> session_info list) \<Rightarrow> (string \<times> session_info) list
    \<Rightarrow> (string \<rightharpoonup> session_info list)" where
  "added ds xs =
     (\<lambda>d. if d \<in> fst ` set xs
          then Some ((case ds d of None \<Rightarrow> [] | Some ys \<Rightarrow> ys)
                     @ map snd (filter (\<lambda>x. fst x = d) xs))
          else ds d)"

definition removed :: "(string \<rightharpoonup> session_info list) \<Rightarrow> string list \<Rightarrow> (session_info \<Rightarrow> bool)
    \<Rightarrow> (string \<rightharpoonup> session_info list)" where
  "removed ds days' matches =
     (\<lambda>d. if d \<in> set days'
          then (case ds d of
                  None \<Rightarrow> None
                | Some ys \<Rightarrow> if filter (\<lambda>x. \<not> matches x) ys = [] then None
                            else Some (filter (\<lambda>x. \<not> matches x) ys))
          else ds d)"

definition session_info_of :: "session \<Rightarrow> course_row \<Rightarrow> section_row \<Rightarrow> session_info" where
  "session_info_of s c sec =
     \<lparr>si_start_time = start_time s, si_end_time = end_time s,
      si_course = course_code c, si_section = section_name sec\<rparr>"

text \<open>The condition of the undo on the state before the record: every day of the pattern
  is clear for the teacher, the room and the section of the option.\<close>

definition undo_safe :: "assignment_option \<Rightarrow> course_row \<Rightarrow> section_row \<Rightarrow> run_state \<Rightarrow> bool" where
  "undo_safe assignment_opt c sec st =
     list_all (\<lambda>s.
        day_clear (faculty_schedule st) (opt_faculty assignment_opt) (day s)
          (\<lambda>x. si_course x = course_code c \<and> si_section x = section_name sec)
        \<and> day_clear (room_schedule st) (opt_room assignment_opt) (day s)
            (\<lambda>x. si_course x = course_code c \<and> si_section x = section_name sec)
        \<and> day_clear (section_schedule st) (section_name sec) (day s)
            (\<lambda>x. si_course x = course_code c))
       (opt_pattern assignment_opt)"

text \<open>The state after CS101 was recorded for the section on Monday from 07:00 to 09:00
  with Alice in R101.\<close>

definition cs101_info :: session_info where
  "cs101_info = \<lparr>si_start_time = ''07:00'', si_end_time = ''09:00'',
                  si_course = ''CS101'', si_section = ''BSCS11A''\<rparr>"

definition cs101_booked_state :: run_state where
  "cs101_booked_state =
     test_state\<lparr>schedule_list := [cs101_entry],
       faculty_schedule := (faculty_schedule test_state)
                             (''Alice'' \<mapsto> [''Monday'' \<mapsto> [cs101_info]]),
       room_schedule := (room_schedule test_state)
                          (''R101'' \<mapsto> [''Monday'' \<mapsto> [cs101_info]]),
       section_schedule := [''BSCS11A'' \<mapsto> [''Monday'' \<mapsto> [cs101_info]]],
       day_pairing_counter := 1\<rparr>"

text \<open>A record for CS102 in that state, with the same teacher and room, two hours later;
  and the booking it makes.\<close>

definition cs102_option :: assignment_option where
  "cs102_option =
     \<lparr>opt_pattern = [\<lparr>day = ''Monday'', start_time = ''09:00'', end_time = ''11:00'',
                       duration = 2\<rparr>],
      opt_faculty = ''Alice'', opt_room = ''R101'', assignment_data = None\<rparr>"

definition cs102_info :: session_info where
  "cs102_info = \<lparr>si_start_time = ''09:00'', si_end_time = ''11:00'',
                  si_course = ''CS102'', si_section = ''BSCS11A''\<rparr>"

definition monday_9_to_11_option :: assignment_option where
  "monday_9_to_11_option =
     \<lparr>opt_pattern = [\<lparr>day = ''Monday'', start_time = ''09:00'', end_time = ''11:00'',
                       duration = 2\<rparr>],
      opt_faculty = ''Alice'', opt_room = ''R102'', assignment_data = None\<rparr>"

text \<open>Two courses of the default data, a lecture and its laboratory.\<close>

definition ccincobl :: course_row where
  "ccincobl = \<lparr>course_code = ''CCINCOBL'', course_title = ''Introduction to Computing Lab'',
                course_program = ''BSCS'', course_year_level = 1, course_term = 1,
                course_type = ''Lab'', units = 1, hours_per_week = 3\<rparr>"

definition ccincomx :: course_row where
  "ccincomx = \<lparr>course_code = ''CCINCOMX'', course_title = ''Introduction to Computing'',
                course_program = ''BSCS'', course_year_level = 1, course_term = 1,
                course_type = ''Lecture'', units = 3, hours_per_week = 3\<rparr>"

section \<open>Notions for comparing two runs\<close>

text \<open>
  The result of a fallible computation mapped through a function: an error stays the
  error it is.
\<close>

fun on_result :: "('a \<Rightarrow> 'b) \<Rightarrow> error + 'a \<Rightarrow> error + 'b" where
  "on_result f (Inl e) = Inl e"
| "on_result f (Inr x) = Inr (f x)"

text \<open>
  A run state whose rotation counter is moved forward by whole turns of the three-way
  rotation of \<^verbatim>\<open>_get_time_patterns\<close>.
\<close>

definition shift :: "int \<Rightarrow> run_state \<Rightarrow> run_state" where
  "shift k st = st\<lparr>day_pairing_counter := day_pairing_counter st + 3 * k\<rparr>"

text \<open>
  The selection of the assigner in the body of \<^verbatim>\<open>generate_schedule\<close>, on its own, as a
  function of the tables read from the object and of the counter at the start.
\<close>

definition run_algorithm ::
    "string \<Rightarrow> room_row list \<Rightarrow> faculty_row list \<Rightarrow> section_row list \<Rightarrow> course_row list
      \<Rightarrow> int \<Rightarrow> bool \<Rightarrow> int \<Rightarrow> error + (schedule_entry list \<times> int)" where
  "run_algorithm algorithm rs fs ss cts max_iterations allow_conflicts c =
     (if algorithm = ''greedy'' then
        greedy_scheduling rs fs ss cts allow_conflicts c
      else if algorithm = ''backtracking'' then
        backtracking_scheduling rs fs ss cts max_iterations allow_conflicts c
      else if algorithm = ''constraint satisfaction'' then
        constraint_satisfaction_scheduling rs fs ss cts max_iterations allow_conflicts c
      else Inl ValueError)"

text \<open>
  A scheduler object as the constructor and \<^verbatim>\<open>load_data\<close> leave it, with one
  three-hour lecture course, one room, one teacher and one section; and the two sessions
  of the second rotation of the day pairs.
\<close>

definition fresh_scheduler :: scheduler where
  "fresh_scheduler = load_data new_scheduler [ccincomx] [r101] [alice] [test_section]"

definition lecture_tuesday :: session where
  "lecture_tuesday =
     \<lparr>day = ''Tuesday'', start_time = ''07:00'', end_time = ''08:30'', duration = 3 / 2\<rparr>"

definition lecture_friday :: session where
  "lecture_friday =
     \<lparr>day = ''Friday'', start_time = ''07:00'', end_time = ''08:30'', duration = 3 / 2\<rparr>"

section \<open>Facts about the time domain\<close>

lemma time_slots_eq:
  "time_slots =
     [''07:00'', ''07:30'', ''08:00'', ''08:30'', ''09:00'', ''09:30'', ''10:00'', ''10:30'',
      ''11:00'', ''11:30'', ''12:00'', ''12:30'', ''13:00'', ''13:30'', ''14:00'', ''14:30'',
      ''15:00'', ''15:30'', ''16:00'', ''16:30'', ''17:00'', ''17:30'', ''18:00'', ''18:30'',
      ''19:00'', ''19:30'', ''20:00'', ''20:30'']"
  by (simp add: time_slots_def generate_time_slots_def format_time_def two_digits_def
      digit_char_def upt_conv_Cons)

declare time_slots_eq [code]

lemmas time_evals = strptime_def digits_field_def digit_val_def time_le_def format_time_def
  two_digits_def digit_char_def add_hours_to_time_def

lemma in_slice_to: "x \<in> set (slice_to xs i) \<Longrightarrow> x \<in> set xs"
  by (auto simp: slice_to_def split: if_splits dest: in_set_takeD)

lemma two_session_patterns_sessions:
  "p \<in> set (two_session_patterns dp starts sh) \<Longrightarrow> s \<in> set p \<Longrightarrow>
     start_time s \<in> set starts \<and> end_time s \<in> set time_slots"
  by (auto simp: two_session_patterns_def split: option.splits if_splits)

lemma get_time_patterns_sessions:
  "p \<in> set (get_time_patterns counter hours ct) \<Longrightarrow> s \<in> set p \<Longrightarrow>
     start_time s \<in> set time_slots \<and> end_time s \<in> set time_slots"
  by (auto simp: get_time_patterns_def Let_def split: option.splits if_splits
        dest!: two_session_patterns_sessions dest: in_slice_to)

lemma monday_pattern_3h:
  "[\<lparr>day = ''Monday'', start_time = ''07:00'', end_time = ''08:30'', duration = 3 / 2\<rparr>,
    \<lparr>day = ''Thursday'', start_time = ''07:00'', end_time = ''08:30'', duration = 3 / 2\<rparr>]
   \<in> set (get_time_patterns 0 3 ''Lecture'')"
  by code_simp

section \<open>The overlap predicate\<close>

lemma strptime_range:
  "strptime s = Some t \<Longrightarrow> hour t < 24 \<and> minute t < 60"
  by (auto simp: strptime_def split: option.splits list.splits if_splits)

lemma time_le_minutes:
  "minute a < 60 \<Longrightarrow> minute b < 60 \<Longrightarrow> time_le a b = (minute_of_day a \<le> minute_of_day b)"
  by (auto simp: time_le_def minute_of_day_def)

text \<open>
  Claim C8. For time strings that \<^verbatim>\<open>strptime\<close> accepts, \<^verbatim>\<open>_times_overlap\<close> is true exactly
  when each interval starts at an earlier minute of the day than the other ends, that is,
  when neither ends at or before the start of the other; two intervals that touch at a
  boundary do not overlap.
\<close>

theorem times_overlap_half_open:
  assumes "strptime start1 = Some s1" and "strptime end1 = Some e1"
    and "strptime start2 = Some s2" and "strptime end2 = Some e2"
  shows "times_overlap start1 end1 start2 end2
           = (minute_of_day s2 < minute_of_day e1 \<and> minute_of_day s1 < minute_of_day e2)
         \<and> (end1 = start2 \<or> end2 = start1 \<longrightarrow> \<not> times_overlap start1 end1 start2 end2)"
proof -
  from assms have r: "minute s1 < 60" "minute e1 < 60" "minute s2 < 60" "minute e2 < 60"
    by (auto dest: strptime_range)
  have o: "times_overlap start1 end1 start2 end2
             = (minute_of_day s2 < minute_of_day e1 \<and> minute_of_day s1 < minute_of_day e2)"
    using assms by (auto simp: times_overlap_def time_le_minutes r)
  moreover have "\<not> times_overlap start1 end1 start2 end2" if "end1 = start2 \<or> end2 = start1"
    using that assms unfolding o by auto
  ultimately show ?thesis by blast
qed

theorem times_overlap_half_open_witness:
  "strptime ''07:00'' = Some \<lparr>hour = 7, minute = 0\<rparr>
   \<and> strptime ''08:00'' = Some \<lparr>hour = 8, minute = 0\<rparr>
   \<and> strptime ''08:30'' = Some \<lparr>hour = 8, minute = 30\<rparr>
   \<and> strptime ''09:30'' = Some \<lparr>hour = 9, minute = 30\<rparr>
   \<and> times_overlap ''07:00'' ''08:30'' ''08:00'' ''09:30''
   \<and> \<not> times_overlap ''07:00'' ''08:00'' ''08:00'' ''09:30''
   \<and> \<not> times_overlap ''08:30'' ''09:30'' ''07:00'' ''08:00''"
proof -
  have a: "strptime ''07:00'' = Some \<lparr>hour = 7, minute = 0\<rparr>" by (simp add: time_evals)
  have b: "strptime ''08:00'' = Some \<lparr>hour = 8, minute = 0\<rparr>" by (simp add: time_evals)
  have c: "strptime ''08:30'' = Some \<lparr>hour = 8, minute = 30\<rparr>" by (simp add: time_evals)
  have d: "strptime ''09:30'' = Some \<lparr>hour = 9, minute = 30\<rparr>" by (simp add: time_evals)
  from times_overlap_half_open [OF a c b d] times_overlap_half_open [OF a b b d]
    times_overlap_half_open [OF c d a b] a b c d
  show ?thesis by (simp add: minute_of_day_def)
qed

section \<open>The pattern generator\<close>

text \<open>
  Claim C5. The single-session branch takes its start times from \<^verbatim>\<open>time_slots[:-4]\<close>, the
  slots up to 18:30. For a one-hour lecture the start 19:00 ends at 20:00, a slot of the
  grid, and yet no pattern starts at 19:00; the last start is 18:30.
\<close>

theorem single_session_start_omitted:
  "add_hours_to_time ''19:00'' (of_int 1) = Some ''20:00''
   \<and> ''19:00'' \<in> set time_slots \<and> ''20:00'' \<in> set time_slots
   \<and> \<not> list_ex (list_ex (\<lambda>s. day s = ''Monday'' \<and> start_time s = ''19:00''))
         (get_time_patterns 0 1 ''Lecture'')
   \<and> list_ex (list_ex (\<lambda>s. day s = ''Monday'' \<and> start_time s = ''18:30''))
         (get_time_patterns 0 1 ''Lecture'')"
  by code_simp

section \<open>Recording an assignment\<close>

lemma record_session_frame:
  "record_session s c sec f r ct st = Inr st' \<Longrightarrow>
     day_pairing_counter st' = day_pairing_counter st \<and> warnings st' = warnings st
     \<and> schedule_list st' = schedule_list st @ [make_entry s c sec f r ct]"
  by (auto simp: record_session_def Let_def split: sum.splits)

lemma record_sessions_counter:
  "record_sessions p c sec f r ct st = Inr st' \<Longrightarrow>
     day_pairing_counter st' = day_pairing_counter st"
  by (induction p arbitrary: st) (auto split: sum.splits dest: record_session_frame)

lemma record_sessions_backtrack_counter:
  "record_sessions_backtrack p c sec f r ct d st = Inr (d', st') \<Longrightarrow>
     day_pairing_counter st' = day_pairing_counter st"
  by (induction p arbitrary: st d) (auto split: sum.splits dest: record_session_frame)

text \<open>
  Claim C6, as the code has it. Every successful record, by \<^verbatim>\<open>_make_assignment\<close> or by
  \<^verbatim>\<open>_make_assignment_backtrack\<close>, adds one to the rotation counter, whatever the number of
  sessions of the pattern.
\<close>

theorem record_increments_counter:
  "(make_assignment p course section fname rname component_type st = Inr st' \<longrightarrow>
      day_pairing_counter st' = day_pairing_counter st + 1)
   \<and> (make_assignment_backtrack assignment_opt course section st = Inr (opt', st'') \<longrightarrow>
      day_pairing_counter st'' = day_pairing_counter st + 1)"
  by (auto simp: make_assignment_def make_assignment_backtrack_def Let_def
        split: sum.splits dest: record_sessions_counter record_sessions_backtrack_counter)

lemma test_make_assignment_counter:
  "(case make_assignment [monday_7_to_9] cs101 test_section ''Alice'' ''R101'' ''Lecture''
           test_state of
      Inl e \<Rightarrow> None
    | Inr st' \<Rightarrow> Some (day_pairing_counter st')) = Some 1"
  by code_simp

lemma test_make_assignment_backtrack_counter:
  "(case make_assignment_backtrack
           \<lparr>opt_pattern = [monday_7_to_9], opt_faculty = ''Alice'', opt_room = ''R101'',
            assignment_data = None\<rparr> cs101 test_section test_state of
      Inl e \<Rightarrow> None
    | Inr (opt', st') \<Rightarrow> Some (day_pairing_counter st')) = Some 1"
  by code_simp

lemma test_state_counter: "day_pairing_counter test_state = 0"
  by (simp add: test_state_def initial_state_def)

theorem record_increments_counter_witness:
  "(\<exists>st'. make_assignment [monday_7_to_9] cs101 test_section ''Alice'' ''R101'' ''Lecture''
            test_state = Inr st'
          \<and> day_pairing_counter st' = day_pairing_counter test_state + 1)
   \<and> (\<exists>opt' st'. make_assignment_backtrack
            \<lparr>opt_pattern = [monday_7_to_9], opt_faculty = ''Alice'', opt_room = ''R101'',
             assignment_data = None\<rparr> cs101 test_section test_state = Inr (opt', st')
          \<and> day_pairing_counter st' = day_pairing_counter test_state + 1)"
proof -
  obtain st1 where
    a: "make_assignment [monday_7_to_9] cs101 test_section ''Alice'' ''R101'' ''Lecture''
          test_state = Inr st1"
    using test_make_assignment_counter by (auto split: sum.splits)
  obtain opt2 st2 where
    b: "make_assignment_backtrack
          \<lparr>opt_pattern = [monday_7_to_9], opt_faculty = ''Alice'', opt_room = ''R101'',
           assignment_data = None\<rparr> cs101 test_section test_state = Inr (opt2, st2)"
    using test_make_assignment_backtrack_counter by (auto split: sum.splits)
  from record_increments_counter
         [of "[monday_7_to_9]" cs101 test_section "''Alice''" "''R101''" "''Lecture''"
             test_state st1
             "\<lparr>opt_pattern = [monday_7_to_9], opt_faculty = ''Alice'', opt_room = ''R101'',
               assignment_data = None\<rparr>" opt2 st2] a b
  show ?thesis by simp
qed

text \<open>
  The claim C6 as written fails: the record of a pattern of one session moves the counter
  from 0 to 1.
\<close>

theorem single_session_record_increments:
  "length [monday_7_to_9] = 1
   \<and> day_pairing_counter test_state = 0
   \<and> (case make_assignment [monday_7_to_9] cs101 test_section ''Alice'' ''R101'' ''Lecture''
             test_state of
        Inl e \<Rightarrow> None
      | Inr st' \<Rightarrow> Some (day_pairing_counter st')) = Some 1"
  using test_make_assignment_counter test_state_counter by simp

section \<open>The greedy assigner keeps the schedule free of conflicts\<close>

lemma times_overlap_sym: "times_overlap a b c d = times_overlap c d a b"
  by (auto simp: times_overlap_def split: option.splits)

lemma entries_conflict_sym: "entries_conflict a b = entries_conflict b a"
  using times_overlap_sym [of "e_start_time a" "e_end_time a" "e_start_time b" "e_end_time b"]
  by (auto simp: entries_conflict_def)

lemma ledger_append_booked_new:
  "ledger_append l n d info = Inr l' \<Longrightarrow> booked l' n d (si_start_time info) (si_end_time info)"
  by (auto simp: ledger_append_def booked_def split: option.splits)

lemma ledger_append_booked_old:
  "ledger_append l n d info = Inr l' \<Longrightarrow> booked l n' d' s t \<Longrightarrow> booked l' n' d' s t"
  by (auto simp: ledger_append_def booked_def split: option.splits if_splits)

lemma record_session_booked_old:
  "record_session s c sec f r ct st = Inr st' \<Longrightarrow> entry_booked st e \<Longrightarrow> entry_booked st' e"
  by (auto simp: record_session_def Let_def entry_booked_def split: sum.splits
        intro: ledger_append_booked_old)

lemma record_session_booked_new:
  "record_session s c sec f r ct st = Inr st' \<Longrightarrow> entry_booked st' (make_entry s c sec f r ct)"
  by (auto simp: record_session_def Let_def entry_booked_def make_entry_def split: sum.splits
        dest: ledger_append_booked_new)

lemma record_session_cover:
  "record_session s c sec f r ct st = Inr st' \<Longrightarrow> ledgers_cover st \<Longrightarrow> ledgers_cover st'"
  using record_session_booked_old [of s c sec f r ct st st']
    record_session_booked_new [of s c sec f r ct st st']
    record_session_frame [of s c sec f r ct st st']
  by (auto simp: ledgers_cover_def list_all_iff)

lemma check_sessions_free:
  "check_sessions p f r sn fs rs ss = Inr True \<Longrightarrow> s \<in> set p \<Longrightarrow>
     free_in fs f s \<and> free_in rs r s \<and> free_in ss sn s"
  by (induction p) (auto simp: free_in_def split: option.splits if_splits)

lemma free_booked_no_overlap:
  "free_in l n s \<Longrightarrow> booked l n (day s) a b \<Longrightarrow>
     \<not> times_overlap (start_time s) (end_time s) a b"
  by (auto simp: free_in_def booked_def day_conflict_def list_ex_iff split: option.splits)

lemma check_no_conflict:
  assumes chk: "check_sessions p f r (section_name sec) (faculty_schedule st)
                  (room_schedule st) (section_schedule st) = Inr True"
    and cov: "ledgers_cover st" and s: "s \<in> set p" and e: "e \<in> set (schedule_list st)"
  shows "\<not> entries_conflict e (make_entry s c sec f r ct)"
proof
  assume conf: "entries_conflict e (make_entry s c sec f r ct)"
  from cov e have b: "entry_booked st e"
    by (simp add: ledgers_cover_def list_all_iff)
  from check_sessions_free [OF chk s] have
    fr: "free_in (faculty_schedule st) f s" "free_in (room_schedule st) r s"
        "free_in (section_schedule st) (section_name sec) s" by simp_all
  from conf have d: "e_day e = day s"
    and ov: "times_overlap (start_time s) (end_time s) (e_start_time e) (e_end_time e)"
    and sh: "e_room e = r \<or> e_faculty e = f \<or> e_section e = section_name sec"
    using times_overlap_sym [of "e_start_time e" "e_end_time e" "start_time s" "end_time s"]
    by (auto simp: entries_conflict_def make_entry_def)
  from sh show False
  proof (elim disjE)
    assume "e_room e = r"
    with b d have "booked (room_schedule st) r (day s) (e_start_time e) (e_end_time e)"
      by (simp add: entry_booked_def)
    from free_booked_no_overlap [OF fr(2) this] ov show False by simp
  next
    assume "e_faculty e = f"
    with b d have "booked (faculty_schedule st) f (day s) (e_start_time e) (e_end_time e)"
      by (simp add: entry_booked_def)
    from free_booked_no_overlap [OF fr(1) this] ov show False by simp
  next
    assume "e_section e = section_name sec"
    with b d have "booked (section_schedule st) (section_name sec) (day s)
                     (e_start_time e) (e_end_time e)"
      by (simp add: entry_booked_def)
    from free_booked_no_overlap [OF fr(3) this] ov show False by simp
  qed
qed

lemma extends_for_refl: "run_inv st \<Longrightarrow> extends_for sec st st"
  by (simp add: extends_for_def list_all_iff)

lemma extends_for_trans:
  "extends_for sec st st1 \<Longrightarrow> extends_for sec st1 st2 \<Longrightarrow> extends_for sec st st2"
  by (auto simp: extends_for_def list_all_iff)

lemma extends_for_inv: "extends_for sec st st' \<Longrightarrow> run_inv st'"
  by (simp add: extends_for_def)

lemma make_entry_conflict_day:
  "entries_conflict (make_entry s c sec f r ct) (make_entry s' c sec f r ct) \<Longrightarrow> day s = day s'"
  by (simp add: entries_conflict_def make_entry_def)

lemma record_sessions_inv:
  "record_sessions p c sec f r ct st = Inr st' \<Longrightarrow> run_inv st \<Longrightarrow>
   (\<forall>s\<in>set p. \<forall>e\<in>set (schedule_list st). \<not> entries_conflict e (make_entry s c sec f r ct)) \<Longrightarrow>
   distinct (map day p) \<Longrightarrow> extends_for sec st st'"
proof (induction p arbitrary: st)
  case Nil
  then show ?case by (simp add: extends_for_refl)
next
  case (Cons s rest)
  from Cons.prems(1) obtain st1 where
    r1: "record_session s c sec f r ct st = Inr st1"
    and r2: "record_sessions rest c sec f r ct st1 = Inr st'"
    by (auto split: sum.splits)
  from record_session_frame [OF r1] have
    sl: "schedule_list st1 = schedule_list st @ [make_entry s c sec f r ct]" by simp
  have cf: "conflict_free (schedule_list st1)"
    using Cons.prems(2,3) by (simp add: sl run_inv_def conflict_free_def sorted_wrt_append)
  have cov: "ledgers_cover st1"
    using record_session_cover [OF r1] Cons.prems(2) by (simp add: run_inv_def)
  have inv1: "run_inv st1" using cf cov by (simp add: run_inv_def)
  have e1: "extends_for sec st st1"
    using inv1 by (simp add: extends_for_def sl list_all_iff make_entry_def)
  have fresh: "\<forall>s'\<in>set rest. \<forall>e\<in>set (schedule_list st1).
                 \<not> entries_conflict e (make_entry s' c sec f r ct)"
  proof (intro ballI)
    fix s' e assume s': "s' \<in> set rest" and e: "e \<in> set (schedule_list st1)"
    from e sl have "e \<in> set (schedule_list st) \<or> e = make_entry s c sec f r ct" by auto
    then show "\<not> entries_conflict e (make_entry s' c sec f r ct)"
    proof
      assume "e \<in> set (schedule_list st)"
      with Cons.prems(3) s' show ?thesis by simp
    next
      assume "e = make_entry s c sec f r ct"
      moreover from Cons.prems(4) s' have "day s \<noteq> day s'" by auto
      ultimately show ?thesis using make_entry_conflict_day by blast
    qed
  qed
  from Cons.prems(4) have "distinct (map day rest)" by simp
  from Cons.IH [OF r2 inv1 fresh this] e1 show ?case
    by (rule extends_for_trans [rotated])
qed

lemma entry_booked_counter [simp]:
  "entry_booked (st\<lparr>day_pairing_counter := k\<rparr>) = entry_booked st"
  by (rule ext) (simp add: entry_booked_def)

lemma entry_booked_warnings [simp]:
  "entry_booked (st\<lparr>warnings := w\<rparr>) = entry_booked st"
  by (rule ext) (simp add: entry_booked_def)

lemma run_inv_counter [simp]:
  "run_inv (st\<lparr>day_pairing_counter := k\<rparr>) = run_inv st"
  by (simp add: run_inv_def ledgers_cover_def)

lemma run_inv_warnings [simp]:
  "run_inv (st\<lparr>warnings := w\<rparr>) = run_inv st"
  by (simp add: run_inv_def ledgers_cover_def)

lemma extends_for_counter [simp]:
  "extends_for sec st (st'\<lparr>day_pairing_counter := k\<rparr>) = extends_for sec st st'"
  by (simp add: extends_for_def)

lemma extends_for_warnings [simp]:
  "extends_for sec st (st'\<lparr>warnings := w\<rparr>) = extends_for sec st st'"
  by (simp add: extends_for_def)

lemma make_assignment_inv:
  assumes "make_assignment p c sec f r ct st = Inr st'"
    and "check_sessions p f r (section_name sec) (faculty_schedule st)
           (room_schedule st) (section_schedule st) = Inr True"
    and "run_inv st" and "distinct (map day p)"
  shows "extends_for sec st st'"
proof -
  from assms(1) obtain st1 where
    r: "record_sessions p c sec f r ct st = Inr st1"
    and st': "st' = st1\<lparr>day_pairing_counter := day_pairing_counter st1 + 1\<rparr>"
    by (auto simp: make_assignment_def split: sum.splits)
  have "\<forall>s\<in>set p. \<forall>e\<in>set (schedule_list st). \<not> entries_conflict e (make_entry s c sec f r ct)"
    using check_no_conflict [OF assms(2)] assms(3) by (simp add: run_inv_def)
  from record_sessions_inv [OF r assms(3) this assms(4)] show ?thesis
    by (simp add: st')
qed

lemma try_combinations_inv:
  "try_combinations cs c sec ct False st = Inr (b, st') \<Longrightarrow> run_inv st \<Longrightarrow>
   list_all (\<lambda>(p, f, r). distinct (map day p)) cs \<Longrightarrow> extends_for sec st st'"
proof (induction cs)
  case Nil
  then show ?case by (simp add: extends_for_refl)
next
  case (Cons x rest)
  obtain p fname rname where x: "x = (p, fname, rname)" by (cases x) auto
  show ?case
  proof (cases "check_sessions p fname rname (section_name sec) (faculty_schedule st)
                  (room_schedule st) (section_schedule st)")
    case (Inl e)
    with Cons.prems(1) show ?thesis by (simp add: x can_assign_pattern_def)
  next
    case (Inr ok)
    show ?thesis
    proof (cases ok)
      case True
      with Inr Cons.prems(1) have
        m: "make_assignment p c sec fname rname ct st = Inr st'"
        by (auto simp: x can_assign_pattern_def split: sum.splits)
      from Cons.prems(3) have "distinct (map day p)" by (simp add: x)
      from make_assignment_inv [OF m _ Cons.prems(2) this] Inr True show ?thesis by simp
    next
      case False
      with Inr Cons.prems(1) have
        "try_combinations rest c sec ct False st = Inr (b, st')"
        by (simp add: x can_assign_pattern_def)
      with Cons.IH Cons.prems(2,3) show ?thesis by simp
    qed
  qed
qed

lemma day_pairings_distinct:
  "\<forall>(d1, d2)\<in>set (drop k base_day_pairings @ take k base_day_pairings). d1 \<noteq> d2"
proof -
  have "set (drop k base_day_pairings @ take k base_day_pairings) \<subseteq> set base_day_pairings"
    by (auto dest: in_set_dropD in_set_takeD)
  moreover have "\<forall>(d1, d2)\<in>set base_day_pairings. d1 \<noteq> d2"
    by (simp add: base_day_pairings_def)
  ultimately show ?thesis by blast
qed

lemma two_session_patterns_days:
  "p \<in> set (two_session_patterns dp starts sh) \<Longrightarrow> \<forall>(d1, d2)\<in>set dp. d1 \<noteq> d2 \<Longrightarrow>
     distinct (map day p)"
  by (auto simp: two_session_patterns_def split: option.splits if_splits)

lemma get_time_patterns_cases:
  "p \<in> set (get_time_patterns counter hours ct) \<Longrightarrow>
     (\<exists>s. p = [s])
     \<or> (\<exists>k starts sh. p \<in> set (two_session_patterns
                (drop k base_day_pairings @ take k base_day_pairings) starts sh))"
  unfolding get_time_patterns_def Let_def
  by (auto split: option.splits if_splits)

lemma get_time_patterns_days:
  assumes "p \<in> set (get_time_patterns counter hours ct)"
  shows "distinct (map day p)"
proof -
  from get_time_patterns_cases [OF assms] show ?thesis
  proof (elim disjE exE)
    fix s assume "p = [s]"
    then show ?thesis by simp
  next
    fix k starts sh
    assume "p \<in> set (two_session_patterns
                (drop k base_day_pairings @ take k base_day_pairings) starts sh)"
    then show ?thesis
      by (rule two_session_patterns_days) (rule day_pairings_distinct)
  qed
qed

lemma combinations_patterns:
  "(p, f, r) \<in> set (combinations ps fs rs) \<Longrightarrow> p \<in> set ps"
  by (auto simp: combinations_def)

lemma schedule_course_component_inv:
  "schedule_course_component c sec ct hours st fs rs False = Inr (b, st') \<Longrightarrow> run_inv st \<Longrightarrow>
     extends_for sec st st'"
  unfolding schedule_course_component_def Let_def
  by (erule try_combinations_inv)
     (auto simp: list_all_iff dest!: combinations_patterns get_time_patterns_days)


lemma schedule_single_type_course_inv:
  "schedule_single_type_course c sec st fs rs False = Inr (b, st') \<Longrightarrow> run_inv st \<Longrightarrow>
     extends_for sec st st'"
  unfolding schedule_single_type_course_def Let_def
  by (erule schedule_course_component_inv)

lemma schedule_lecture_lab_course_inv:
  assumes "schedule_lecture_lab_course rooms c sec st fs False = Inr (b, st')" and "run_inv st"
  shows "extends_for sec st st'"
proof -
  let ?lec = "schedule_course_component c sec ''Lecture'' (hours_per_week c div 2) st fs
                (filter (\<lambda>r. room_type r = ''Lecture'') rooms) False"
  from assms(1) obtain la st1 where l: "?lec = Inr (la, st1)"
    by (auto simp: schedule_lecture_lab_course_def Let_def split: sum.splits)
  from schedule_course_component_inv [OF l assms(2)] have e1: "extends_for sec st st1" .
  show ?thesis
  proof (cases la)
    case False
    with assms(1) l have "st' = st1"
      by (simp add: schedule_lecture_lab_course_def Let_def)
    with e1 show ?thesis by simp
  next
    case True
    with assms(1) l obtain lb where
      "schedule_course_component c sec ''Lab''
         (hours_per_week c - hours_per_week c div 2) st1 fs
         (filter (\<lambda>r. room_type r = ''Lab'') rooms) False = Inr (lb, st')"
      by (auto simp: schedule_lecture_lab_course_def Let_def split: sum.splits)
    from schedule_course_component_inv [OF this extends_for_inv [OF e1]] e1
    show ?thesis by (rule extends_for_trans [rotated])
  qed
qed

lemma assign_course_to_section_inv:
  "assign_course_to_section rooms faculty c sec st False = Inr (b, st') \<Longrightarrow> run_inv st \<Longrightarrow>
     extends_for sec st st'"
  unfolding assign_course_to_section_def Let_def
  by (auto split: if_splits intro: extends_for_refl schedule_lecture_lab_course_inv
        schedule_single_type_course_inv)

lemma greedy_courses_inv:
  "greedy_courses rooms faculty cs sec False st = Inr st' \<Longrightarrow> run_inv st \<Longrightarrow>
     extends_for sec st st'"
proof (induction cs arbitrary: st)
  case Nil
  then show ?case by (simp add: extends_for_refl)
next
  case (Cons c rest)
  from Cons.prems(1) obtain b st1 where
    a: "assign_course_to_section rooms faculty c sec st False = Inr (b, st1)"
    and g: "greedy_courses rooms faculty rest sec False
              (if \<not> b then st1\<lparr>warnings := warnings st1 @ [(course_code c, section_name sec)]\<rparr>
               else st1) = Inr st'"
    by (auto split: sum.splits)
  from assign_course_to_section_inv [OF a Cons.prems(2)] have e1: "extends_for sec st st1" .
  let ?st2 = "if \<not> b then st1\<lparr>warnings := warnings st1 @ [(course_code c, section_name sec)]\<rparr>
              else st1"
  have e2: "extends_for sec st ?st2" using e1 by simp
  have "extends_for sec ?st2 st'"
    using Cons.IH [OF g] extends_for_inv [OF e2] by blast
  with e2 show ?case by (rule extends_for_trans)
qed

lemma booked_other_name:
  "n' \<noteq> n \<Longrightarrow> booked (l(n \<mapsto> v)) n' d s t = booked l n' d s t"
  by (simp add: booked_def)

lemma reset_section_inv:
  assumes "run_inv st" and "\<forall>e\<in>set (schedule_list st). e_section e \<noteq> n"
  shows "run_inv (st\<lparr>section_schedule := (section_schedule st)(n \<mapsto> Map.empty)\<rparr>)"
  using assms
  by (auto simp: run_inv_def ledgers_cover_def list_all_iff entry_booked_def booked_other_name)

lemma greedy_sections_inv:
  "greedy_sections rooms faculty courses secs False st = Inr st' \<Longrightarrow> run_inv st \<Longrightarrow>
   distinct (map section_name secs) \<Longrightarrow>
   \<forall>e\<in>set (schedule_list st). e_section e \<notin> set (map section_name secs) \<Longrightarrow> run_inv st'"
proof (induction secs arbitrary: st)
  case Nil
  then show ?case by simp
next
  case (Cons sec rest)
  let ?st1 = "st\<lparr>section_schedule := (section_schedule st)(section_name sec \<mapsto> Map.empty)\<rparr>"
  from Cons.prems(1) obtain st2 where
    g: "greedy_courses rooms faculty (section_courses courses sec) sec False ?st1 = Inr st2"
    and r: "greedy_sections rooms faculty courses rest False st2 = Inr st'"
    by (auto simp: Let_def split: sum.splits)
  have inv1: "run_inv ?st1"
    using Cons.prems(2,4) by (intro reset_section_inv) auto
  from greedy_courses_inv [OF g inv1] have e: "extends_for sec ?st1 st2" .
  then have inv2: "run_inv st2" by (rule extends_for_inv)
  have "\<forall>e\<in>set (schedule_list st2). e_section e \<notin> set (map section_name rest)"
  proof
    fix e assume "e \<in> set (schedule_list st2)"
    with e have "e \<in> set (schedule_list st) \<or> e_section e = section_name sec"
      by (auto simp: extends_for_def list_all_iff)
    then show "e_section e \<notin> set (map section_name rest)"
      using Cons.prems(3,4) by auto
  qed
  moreover from Cons.prems(3) have "distinct (map section_name rest)" by simp
  ultimately show ?case using Cons.IH [OF r inv2] by blast
qed

lemma initial_state_inv: "run_inv (initial_state rooms faculty counter)"
  by (simp add: run_inv_def initial_state_def conflict_free_def ledgers_cover_def)

lemma greedy_run_conflict_free:
  assumes "greedy_run rooms faculty secs courses False counter = Inr st"
    and "distinct (map section_name secs)"
  shows "conflict_free (schedule_list st)"
proof -
  have "run_inv st"
    using assms initial_state_inv [of rooms faculty counter]
    unfolding greedy_run_def
    by (rule_tac greedy_sections_inv) (auto simp: initial_state_def)
  then show ?thesis by (simp add: run_inv_def)
qed

lemma conflict_free_nth:
  assumes "conflict_free es" and "i < length es" and "j < length es" and "i \<noteq> j"
  shows "\<not> entries_conflict (es ! i) (es ! j)"
proof (cases "i < j")
  case True
  with assms show ?thesis by (simp add: conflict_free_def sorted_wrt_iff_nth_less)
next
  case False
  with assms have "j < i" by simp
  with assms have "\<not> entries_conflict (es ! j) (es ! i)"
    by (simp add: conflict_free_def sorted_wrt_iff_nth_less)
  then show ?thesis by (simp add: entries_conflict_sym [of "es ! i"])
qed

lemma try_combinations_recorded:
  "try_combinations cs c sec ct allow st = Inr (True, st') \<Longrightarrow>
     \<exists>p f r. (p, f, r) \<in> set cs
       \<and> can_assign_pattern p f r (section_name sec) (faculty_schedule st) (room_schedule st)
            (section_schedule st) allow = Inr True
       \<and> make_assignment p c sec f r ct st = Inr st'"
proof (induction cs)
  case Nil
  then show ?case by simp
next
  case (Cons x rest)
  obtain p f r where x: "x = (p, f, r)" by (cases x) auto
  show ?case
  proof (cases "can_assign_pattern p f r (section_name sec) (faculty_schedule st)
                  (room_schedule st) (section_schedule st) allow")
    case (Inl e)
    with Cons.prems show ?thesis by (simp add: x)
  next
    case (Inr ok)
    show ?thesis
    proof (cases ok)
      case True
      with Inr Cons.prems have "make_assignment p c sec f r ct st = Inr st'"
        by (auto simp: x split: sum.splits)
      with Inr True show ?thesis by (auto simp: x)
    next
      case False
      with Inr Cons.prems have "try_combinations rest c sec ct allow st = Inr (True, st')"
        by (simp add: x)
      from Cons.IH [OF this] show ?thesis by auto
    qed
  qed
qed

text \<open>
  When the section names of the sections table are pairwise distinct, no two entries of a
  schedule that the greedy assigner produces with conflicts disallowed share the room,
  the teacher or the section and overlap on the same day. And, whatever the names, the
  pattern that the search of \<^verbatim>\<open>_schedule_course_component\<close> records is one for which
  \<^verbatim>\<open>_can_assign_pattern\<close> returned true on the three ledgers as they stood.
\<close>

lemma greedy_distinct_names_no_overlap:
  assumes "greedy_scheduling rooms faculty sections courses_to_schedule False counter
             = Inr (sched, counter')"
    and "distinct (map section_name sections)"
    and "i < length sched" "j < length sched" "i \<noteq> j"
  shows "\<not> entries_conflict (sched ! i) (sched ! j)"
proof -
  from assms(1) obtain st where
    "greedy_run rooms faculty sections courses_to_schedule False counter = Inr st"
    and "sched = schedule_list st"
    by (auto simp: greedy_scheduling_def split: sum.splits)
  with greedy_run_conflict_free [OF _ assms(2)] have "conflict_free sched" by simp
  from conflict_free_nth [OF this assms(3-5)] show ?thesis .
qed

text \<open>
  Claim C1. Two rows of the sections table with the same name, as \<^verbatim>\<open>generate_sections\<close>
  makes them for the two terms of a year, and one two-hour lecture for each. The loop of
  the greedy assigner over the sections sets \<^verbatim>\<open>section_schedule[section_name] = {}\<close> again
  for the second row, so the check of the second course does not see the booking of the
  first: with conflicts disallowed, the schedule holds two entries of section BSCS1A on
  Monday from 07:00 to 09:00, which conflict.
\<close>

theorem same_named_sections_overlap:
  "greedy_scheduling test_rooms test_faculty [bscs1a_term1, bscs1a_term2] [pe1, pe2] False 0
     = Inr ([pe1_entry, pe2_entry], 2)
   \<and> e_section pe1_entry = e_section pe2_entry \<and> e_day pe1_entry = e_day pe2_entry
   \<and> times_overlap (e_start_time pe1_entry) (e_end_time pe1_entry)
        (e_start_time pe2_entry) (e_end_time pe2_entry)
   \<and> entries_conflict pe1_entry pe2_entry"
  by code_simp

section \<open>A Both course whose laboratory part cannot be placed\<close>

text \<open>
  Claim C9. One lecture room, no laboratory room, one teacher, one section and one Both
  course of six hours, conflicts disallowed: the lecture component is placed and the
  laboratory component is not, \<^verbatim>\<open>_assign_course_to_section\<close> returns false and the course is
  reported, and the two lecture entries stay in the schedule that is returned and in the
  three ledgers.
\<close>

theorem both_lecture_kept_when_lab_fails:
  "(case schedule_course_component ccalcoml bscs2a ''Lecture'' 3 bscs2a_state [alice]
           (filter (\<lambda>r. room_type r = ''Lecture'') [r101]) False of
      Inl e \<Rightarrow> None
    | Inr (lecture_assigned, st1) \<Rightarrow>
        (case schedule_course_component ccalcoml bscs2a ''Lab'' 3 st1 [alice]
                (filter (\<lambda>r. room_type r = ''Lab'') [r101]) False of
           Inl e \<Rightarrow> None
         | Inr (lab_assigned, st2) \<Rightarrow> Some (lecture_assigned, lab_assigned)))
     = Some (True, False)
   \<and> (case assign_course_to_section [r101] [alice] ccalcoml bscs2a bscs2a_state False of
        Inl e \<Rightarrow> None
      | Inr (assigned, st') \<Rightarrow> Some (assigned, schedule_list st'))
     = Some (False,
             [make_entry lecture_monday ccalcoml bscs2a ''Alice'' ''R101'' ''Lecture'',
              make_entry lecture_thursday ccalcoml bscs2a ''Alice'' ''R101'' ''Lecture''])
   \<and> (case greedy_run [r101] [alice] [bscs2a] [ccalcoml] False 0 of
        Inl e \<Rightarrow> None
      | Inr st \<Rightarrow>
          Some (warnings st, schedule_list st,
                bookings (faculty_schedule st) ''Alice'' ''Monday'',
                bookings (faculty_schedule st) ''Alice'' ''Thursday'',
                bookings (room_schedule st) ''R101'' ''Monday'',
                bookings (room_schedule st) ''R101'' ''Thursday'',
                bookings (section_schedule st) ''BSCS2A'' ''Monday'',
                bookings (section_schedule st) ''BSCS2A'' ''Thursday''))
     = Some ([(''CCALCOML'', ''BSCS2A'')],
             [make_entry lecture_monday ccalcoml bscs2a ''Alice'' ''R101'' ''Lecture'',
              make_entry lecture_thursday ccalcoml bscs2a ''Alice'' ''R101'' ''Lecture''],
             [ccalcoml_info], [ccalcoml_info], [ccalcoml_info], [ccalcoml_info],
             [ccalcoml_info], [ccalcoml_info])
   \<and> greedy_scheduling [r101] [alice] [bscs2a] [ccalcoml] False 0
     = Inr ([make_entry lecture_monday ccalcoml bscs2a ''Alice'' ''R101'' ''Lecture'',
             make_entry lecture_thursday ccalcoml bscs2a ''Alice'' ''R101'' ''Lecture''], 1)"
  by code_simp

section \<open>Courses of type Both\<close>

lemma record_sessions_entries:
  "record_sessions p c sec f r ct st = Inr st' \<Longrightarrow>
     schedule_list st' = schedule_list st @ map (\<lambda>s. make_entry s c sec f r ct) p"
  by (induction p arbitrary: st) (auto split: sum.splits dest: record_session_frame)

lemma record_sessions_backtrack_entries:
  "record_sessions_backtrack p c sec f r ct d st = Inr (d', st') \<Longrightarrow>
     schedule_list st' = schedule_list st @ map (\<lambda>s. make_entry s c sec f r ct) p"
  by (induction p arbitrary: st d) (auto split: sum.splits dest: record_session_frame)

lemma make_assignment_entries:
  "make_assignment p c sec f r ct st = Inr st' \<Longrightarrow>
     schedule_list st' = schedule_list st @ map (\<lambda>s. make_entry s c sec f r ct) p
     \<and> day_pairing_counter st' = day_pairing_counter st + 1"
  by (auto simp: make_assignment_def split: sum.splits
        dest: record_sessions_entries record_sessions_counter)

lemma try_combinations_False:
  "try_combinations cs c sec ct allow st = Inr (False, st') \<Longrightarrow> st' = st"
proof (induction cs)
  case Nil
  then show ?case by simp
next
  case (Cons x rest)
  obtain p f r where x: "x = (p, f, r)" by (cases x) auto
  from Cons show ?case
    by (auto simp: x split: sum.splits bool.splits)
qed

lemma combinations_members:
  "(p, f, r) \<in> set (combinations ps fs rs) \<Longrightarrow>
     p \<in> set ps \<and> (\<exists>x\<in>set fs. f = faculty_name x) \<and> (\<exists>y\<in>set rs. r = room_name y)"
  by (auto simp: combinations_def)





lemma keyed_snd: "keyed f xs = Inr ks \<Longrightarrow> map snd ks = xs"
  by (induction xs arbitrary: ks) (auto split: sum.splits)

lemma sort_by_set:
  assumes "sort_by f xs = Inr ys"
  shows "set ys = set xs"
proof -
  from assms obtain ks where k: "keyed f xs = Inr ks" and y: "ys = map snd (sort_key fst ks)"
    by (auto simp: sort_by_def split: sum.splits)
  have "set ys = snd ` set ks" by (simp add: y)
  also have "\<dots> = set (map snd ks)" by simp
  also have "\<dots> = set xs" by (simp only: keyed_snd [OF k])
  finally show ?thesis .
qed

lemma assignable_members:
  "assignable cs sname st allow = Inr opts \<Longrightarrow> opt \<in> set opts \<Longrightarrow>
     (opt_pattern opt, opt_faculty opt, opt_room opt) \<in> set cs"
proof (induction cs arbitrary: opts)
  case Nil
  then show ?case by simp
next
  case (Cons x rest)
  obtain p f r where x: "x = (p, f, r)" by (cases x) auto
  from Cons.prems obtain ok opts' where
    r: "assignable rest sname st allow = Inr opts'"
    and o: "opts = (if ok then [\<lparr>opt_pattern = p, opt_faculty = f, opt_room = r,
                                  assignment_data = None\<rparr>] else []) @ opts'"
    by (auto simp: x split: sum.splits)
  from Cons.prems(2) o have
    "opt = \<lparr>opt_pattern = p, opt_faculty = f, opt_room = r, assignment_data = None\<rparr>
     \<or> opt \<in> set opts'" by (auto split: if_splits)
  then show ?case using Cons.IH [OF r] by (auto simp: x)
qed










section \<open>Record and undo on the backtracking path\<close>

lemma added_Cons:
  "added (ds(d \<mapsto> (case ds d of None \<Rightarrow> [] | Some ys \<Rightarrow> ys) @ [info])) rest
     = added ds ((d, info) # rest)"
  by (rule ext) (auto simp: added_def filter_empty_conv split: option.splits)

lemma ledger_appends_added:
  "ledger_appends l n xs = Inr l' \<Longrightarrow> xs \<noteq> [] \<Longrightarrow>
     \<exists>ds. l n = Some ds \<and> l' = l(n \<mapsto> added ds xs)"
proof (induction xs arbitrary: l)
  case Nil
  then show ?case by simp
next
  case (Cons x rest)
  obtain d info where x: "x = (d, info)" by (cases x) auto
  from Cons.prems(1) obtain ds where ds: "l n = Some ds"
    and r: "ledger_appends (l(n \<mapsto> ds(d \<mapsto> (case ds d of None \<Rightarrow> [] | Some ys \<Rightarrow> ys) @ [info])))
              n rest = Inr l'"
    by (auto simp: x ledger_append_def split: option.splits sum.splits)
  let ?ds1 = "ds(d \<mapsto> (case ds d of None \<Rightarrow> [] | Some ys \<Rightarrow> ys) @ [info])"
  show ?case
  proof (cases "rest = []")
    case True
    with r have "l' = l(n \<mapsto> ?ds1)" by simp
    moreover have "?ds1 = added ds [(d, info)]"
      by (rule ext) (auto simp: added_def split: option.splits)
    ultimately show ?thesis using ds True by (simp add: x)
  next
    case False
    from Cons.IH [OF r False] have "l' = l(n \<mapsto> added ?ds1 rest)" by auto
    then show ?thesis using ds by (simp add: x added_Cons)
  qed
qed

lemma removed_Cons:
  "removed (case ds d of
              None \<Rightarrow> ds
            | Some ys \<Rightarrow> if filter (\<lambda>x. \<not> m x) ys = [] then ds(d := None)
                         else ds(d \<mapsto> filter (\<lambda>x. \<not> m x) ys)) rest m
     = removed ds (d # rest) m"
  by (rule ext) (auto simp: removed_def split: option.splits)

lemma ledger_removes_removed:
  "l n = Some ds \<Longrightarrow> ledger_removes l n days' m = Inr (l(n \<mapsto> removed ds days' m))"
proof (induction days' arbitrary: l ds)
  case Nil
  have "removed ds [] m = ds" by (rule ext) (simp add: removed_def)
  with Nil show ?case by (simp add: fun_upd_idem)
next
  case (Cons d rest)
  let ?ds1 = "case ds d of
                None \<Rightarrow> ds
              | Some ys \<Rightarrow> if filter (\<lambda>x. \<not> m x) ys = [] then ds(d := None)
                           else ds(d \<mapsto> filter (\<lambda>x. \<not> m x) ys)"
  have 1: "ledger_remove l n d m = Inr (l(n \<mapsto> ?ds1))"
    using Cons.prems by (auto simp: ledger_remove_def Let_def fun_upd_idem split: option.splits)
  have "ledger_removes (l(n \<mapsto> ?ds1)) n rest m
          = Inr ((l(n \<mapsto> ?ds1))(n \<mapsto> removed ?ds1 rest m))"
    by (rule Cons.IH) simp
  then have 2: "ledger_removes (l(n \<mapsto> ?ds1)) n rest m
                  = Inr (l(n \<mapsto> removed ds (d # rest) m))"
    by (simp only: fun_upd_upd removed_Cons)
  show ?case
    by (simp only: ledger_removes.simps 1 sum.case 2)
qed

lemma removed_added:
  assumes "\<forall>x\<in>set xs. m (snd x)"
    and "\<forall>d\<in>fst ` set xs. case ds d of None \<Rightarrow> True
                                | Some ys \<Rightarrow> ys \<noteq> [] \<and> list_all (\<lambda>x. \<not> m x) ys"
  shows "removed (added ds xs) (map fst xs) m = ds"
proof (rule ext)
  fix d
  show "removed (added ds xs) (map fst xs) m d = ds d"
  proof (cases "d \<in> fst ` set xs")
    case False
    then show ?thesis by (simp add: removed_def added_def)
  next
    case True
    have new: "filter (\<lambda>x. \<not> m x) (map snd (filter (\<lambda>x. fst x = d) xs)) = []"
      using assms(1) by (auto simp: filter_empty_conv)
    from True assms(2) have old: "case ds d of None \<Rightarrow> True
                                  | Some ys \<Rightarrow> ys \<noteq> [] \<and> list_all (\<lambda>x. \<not> m x) ys" by blast
    show ?thesis
    proof (cases "ds d")
      case None
      with True new show ?thesis by (simp add: removed_def added_def)
    next
      case (Some ys)
      with old have "ys \<noteq> []" "filter (\<lambda>x. \<not> m x) ys = ys"
        by (auto simp: list_all_iff filter_id_conv)
      with True new Some show ?thesis by (simp add: removed_def added_def)
    qed
  qed
qed

lemma appends_then_removes:
  assumes a: "ledger_appends l n xs = Inr l'"
    and m: "\<forall>x\<in>set xs. m (snd x)"
    and c: "\<forall>d\<in>fst ` set xs. day_clear l n d m"
  shows "ledger_removes l' n (map fst xs) m = Inr l"
proof (cases "xs = []")
  case True
  with a show ?thesis by simp
next
  case False
  from ledger_appends_added [OF a False] obtain ds where
    ds: "l n = Some ds" and l': "l' = l(n \<mapsto> added ds xs)" by blast
  from c ds have "\<forall>d\<in>fst ` set xs. case ds d of None \<Rightarrow> True
                                | Some ys \<Rightarrow> ys \<noteq> [] \<and> list_all (\<lambda>x. \<not> m x) ys"
    by (simp add: day_clear_def)
  from removed_added [OF m this] have r: "removed (added ds xs) (map fst xs) m = ds" .
  have "ledger_removes l' n (map fst xs) m
          = Inr (l'(n \<mapsto> removed (added ds xs) (map fst xs) m))"
    by (rule ledger_removes_removed) (simp add: l')
  with r ds show ?thesis by (simp add: l' fun_upd_idem)
qed

lemma record_session_ledgers:
  "record_session s c sec f r ct st = Inr st' \<Longrightarrow>
     ledger_append (faculty_schedule st) f (day s) (session_info_of s c sec)
       = Inr (faculty_schedule st')
     \<and> ledger_append (room_schedule st) r (day s) (session_info_of s c sec)
       = Inr (room_schedule st')
     \<and> ledger_append (section_schedule st) (section_name sec) (day s) (session_info_of s c sec)
       = Inr (section_schedule st')"
  by (auto simp: record_session_def Let_def session_info_of_def split: sum.splits)

lemma record_sessions_backtrack_ledgers:
  "record_sessions_backtrack p c sec f r ct d st = Inr (d', st') \<Longrightarrow>
     ledger_appends (faculty_schedule st) f (map (\<lambda>s. (day s, session_info_of s c sec)) p)
       = Inr (faculty_schedule st')
     \<and> ledger_appends (room_schedule st) r (map (\<lambda>s. (day s, session_info_of s c sec)) p)
       = Inr (room_schedule st')
     \<and> ledger_appends (section_schedule st) (section_name sec)
         (map (\<lambda>s. (day s, session_info_of s c sec)) p)
       = Inr (section_schedule st')
     \<and> warnings st' = warnings st"
proof (induction p arbitrary: st d)
  case Nil
  then show ?case by simp
next
  case (Cons s rest)
  from Cons.prems obtain st1 where
    r1: "record_session s c sec f r ct st = Inr st1"
    and r2: "record_sessions_backtrack rest c sec f r ct
               (d @ [length (schedule_list st1) - 1]) st1 = Inr (d', st')"
    by (auto split: sum.splits)
  from record_session_ledgers [OF r1] record_session_frame [OF r1] Cons.IH [OF r2]
  show ?case by simp
qed

lemma record_sessions_backtrack_data:
  "record_sessions_backtrack p c sec f r ct d st = Inr (d', st') \<Longrightarrow>
     d' = d @ [length (schedule_list st) ..< length (schedule_list st) + length p]"
proof (induction p arbitrary: st d)
  case Nil
  then show ?case by simp
next
  case (Cons s rest)
  from Cons.prems obtain st1 where
    r1: "record_session s c sec f r ct st = Inr st1"
    and r2: "record_sessions_backtrack rest c sec f r ct
               (d @ [length (schedule_list st1) - 1]) st1 = Inr (d', st')"
    by (auto split: sum.splits)
  from record_session_frame [OF r1] have
    l: "length (schedule_list st1) = Suc (length (schedule_list st))" by simp
  have "[length (schedule_list st) ..< length (schedule_list st) + length (s # rest)]
          = length (schedule_list st)
            # [Suc (length (schedule_list st)) ..< Suc (length (schedule_list st)) + length rest]"
    by (simp add: upt_conv_Cons del: upt_Suc)
  with Cons.IH [OF r2] show ?case by (simp add: l del: upt_Suc)
qed

lemma pop_indices_tail:
  "pop_indices (rev [length xs ..< length xs + length ys]) (xs @ ys) = xs"
proof (induction ys rule: rev_induct)
  case Nil
  then show ?case by simp
next
  case (snoc y ys)
  have "pop_indices (rev [length xs ..< length xs + length (ys @ [y])]) (xs @ ys @ [y])
          = pop_indices (rev [length xs ..< length xs + length ys]) (xs @ ys)"
    by simp
  with snoc show ?case by simp
qed

lemma unrecord_sessions_ledgers:
  "ledger_removes (faculty_schedule st) f (map day p)
     (\<lambda>x. si_course x = course_code c \<and> si_section x = section_name sec) = Inr fs \<Longrightarrow>
   ledger_removes (room_schedule st) r (map day p)
     (\<lambda>x. si_course x = course_code c \<and> si_section x = section_name sec) = Inr rs \<Longrightarrow>
   ledger_removes (section_schedule st) (section_name sec) (map day p)
     (\<lambda>x. si_course x = course_code c) = Inr ss \<Longrightarrow>
   unrecord_sessions p c sec f r st
     = Inr (st\<lparr>faculty_schedule := fs, room_schedule := rs, section_schedule := ss\<rparr>)"
proof (induction p arbitrary: st)
  case Nil
  then show ?case by simp
next
  case (Cons s rest)
  let ?mf = "\<lambda>x. si_course x = course_code c \<and> si_section x = section_name sec"
  let ?ms = "\<lambda>x. si_course x = course_code c"
  from Cons.prems(1) obtain fs1 where
    f1: "ledger_remove (faculty_schedule st) f (day s) ?mf = Inr fs1"
    and f2: "ledger_removes fs1 f (map day rest) ?mf = Inr fs"
    by (auto split: sum.splits)
  from Cons.prems(2) obtain rs1 where
    r1: "ledger_remove (room_schedule st) r (day s) ?mf = Inr rs1"
    and r2: "ledger_removes rs1 r (map day rest) ?mf = Inr rs"
    by (auto split: sum.splits)
  from Cons.prems(3) obtain ss1 where
    s1: "ledger_remove (section_schedule st) (section_name sec) (day s) ?ms = Inr ss1"
    and s2: "ledger_removes ss1 (section_name sec) (map day rest) ?ms = Inr ss"
    by (auto split: sum.splits)
  let ?st1 = "st\<lparr>faculty_schedule := fs1, room_schedule := rs1, section_schedule := ss1\<rparr>"
  have "unrecord_sessions rest c sec f r ?st1
          = Inr (?st1\<lparr>faculty_schedule := fs, room_schedule := rs, section_schedule := ss\<rparr>)"
    by (rule Cons.IH) (simp_all add: f2 r2 s2)
  with f1 r1 s1 show ?case by simp
qed

text \<open>
  Claim C7, as the code has it. The undo removes from the three ledgers, on the days of
  the pattern, every booking with the course code (and, for teacher and room, the section
  name) of the obligation, and deletes a day left without bookings. So the record followed
  at once by the undo gives back the state before the record when, on those days, that
  state held for that teacher, room and section no booking with this course code and
  section and no empty list.
\<close>

theorem record_then_unrecord:
  assumes rec: "make_assignment_backtrack assignment_opt c sec st = Inr (opt', st1)"
    and safe: "undo_safe assignment_opt c sec st"
  shows "undo_assignment_backtrack opt' c sec st1 = Inr st"
proof -
  let ?p = "opt_pattern assignment_opt"
  let ?f = "opt_faculty assignment_opt"
  let ?r = "opt_room assignment_opt"
  let ?xs = "map (\<lambda>s. (day s, session_info_of s c sec)) ?p"
  let ?mf = "\<lambda>x. si_course x = course_code c \<and> si_section x = section_name sec"
  let ?ms = "\<lambda>x. si_course x = course_code c"
  from rec obtain ct data st0 where
    r: "record_sessions_backtrack ?p c sec ?f ?r ct [] st = Inr (data, st0)"
    and o: "opt' = assignment_opt\<lparr>assignment_data := Some data\<rparr>"
    and s1: "st1 = st0\<lparr>day_pairing_counter := day_pairing_counter st0 + 1\<rparr>"
    by (auto simp: make_assignment_backtrack_def Let_def split: sum.splits)
  from record_sessions_backtrack_data [OF r] have
    data: "data = [length (schedule_list st) ..< length (schedule_list st) + length ?p]"
    by simp
  from record_sessions_backtrack_entries [OF r] have
    sl: "schedule_list st0
           = schedule_list st @ map (\<lambda>s. make_entry s c sec ?f ?r ct) ?p" .
  have pop: "pop_indices (rev data) (schedule_list st0) = schedule_list st"
    using pop_indices_tail [of "schedule_list st" "map (\<lambda>s. make_entry s c sec ?f ?r ct) ?p"]
    by (simp add: data sl)
  from record_sessions_backtrack_ledgers [OF r] have
    af: "ledger_appends (faculty_schedule st) ?f ?xs = Inr (faculty_schedule st0)"
    and ar: "ledger_appends (room_schedule st) ?r ?xs = Inr (room_schedule st0)"
    and as: "ledger_appends (section_schedule st) (section_name sec) ?xs
               = Inr (section_schedule st0)"
    and w: "warnings st0 = warnings st" by simp_all
  have fst_xs: "map fst ?xs = map day ?p" by (simp add: comp_def)
  have rf: "ledger_removes (faculty_schedule st0) ?f (map day ?p) ?mf
              = Inr (faculty_schedule st)"
    using appends_then_removes [OF af, of ?mf] safe
    by (simp only: fst_xs) (auto simp: undo_safe_def list_all_iff session_info_of_def)
  have rr: "ledger_removes (room_schedule st0) ?r (map day ?p) ?mf = Inr (room_schedule st)"
    using appends_then_removes [OF ar, of ?mf] safe
    by (simp only: fst_xs) (auto simp: undo_safe_def list_all_iff session_info_of_def)
  have rs: "ledger_removes (section_schedule st0) (section_name sec) (map day ?p) ?ms
              = Inr (section_schedule st)"
    using appends_then_removes [OF as, of ?ms] safe
    by (simp only: fst_xs) (auto simp: undo_safe_def list_all_iff session_info_of_def)
  let ?st2 = "st1\<lparr>schedule_list := pop_indices (rev data) (schedule_list st1)\<rparr>"
  have u: "unrecord_sessions ?p c sec ?f ?r ?st2
             = Inr (?st2\<lparr>faculty_schedule := faculty_schedule st,
                         room_schedule := room_schedule st,
                         section_schedule := section_schedule st\<rparr>)"
    by (rule unrecord_sessions_ledgers) (simp_all add: s1 rf rr rs)
  have "?st2\<lparr>faculty_schedule := faculty_schedule st, room_schedule := room_schedule st,
             section_schedule := section_schedule st,
             day_pairing_counter := day_pairing_counter st1 - 1\<rparr> = st"
    using pop w record_sessions_backtrack_counter [OF r]
    by (intro run_state.equality) (simp_all add: s1)
  with u show ?thesis
    by (simp add: undo_assignment_backtrack_def o Let_def)
qed

lemma cs102_option_safe: "undo_safe cs102_option cs102 test_section cs101_booked_state"
  by (simp add: undo_safe_def cs102_option_def day_clear_def cs101_booked_state_def
        test_state_def cs101_info_def cs102_def test_section_def)

lemma cs101_bookings:
  "bookings (faculty_schedule cs101_booked_state) ''Alice'' ''Monday'' = [cs101_info]
   \<and> bookings (room_schedule cs101_booked_state) ''R101'' ''Monday'' = [cs101_info]
   \<and> bookings (section_schedule cs101_booked_state) ''BSCS11A'' ''Monday'' = [cs101_info]"
  by (simp add: bookings_def cs101_booked_state_def)

lemma cs102_option_recorded:
  "(case make_assignment_backtrack cs102_option cs102 test_section cs101_booked_state of
      Inl e \<Rightarrow> None
    | Inr (opt', st') \<Rightarrow>
        Some (schedule_list st',
              bookings (faculty_schedule st') ''Alice'' ''Monday'',
              bookings (room_schedule st') ''R101'' ''Monday'',
              bookings (section_schedule st') ''BSCS11A'' ''Monday'',
              day_pairing_counter st'))
     = Some ([cs101_entry, cs102_entry], [cs101_info, cs102_info], [cs101_info, cs102_info],
             [cs101_info, cs102_info], 2)"
  by code_simp

theorem record_then_unrecord_witness:
  "undo_safe cs102_option cs102 test_section cs101_booked_state
   \<and> schedule_list cs101_booked_state = [cs101_entry]
   \<and> bookings (faculty_schedule cs101_booked_state) ''Alice'' ''Monday'' = [cs101_info]
   \<and> bookings (room_schedule cs101_booked_state) ''R101'' ''Monday'' = [cs101_info]
   \<and> bookings (section_schedule cs101_booked_state) ''BSCS11A'' ''Monday'' = [cs101_info]
   \<and> (\<exists>opt' st1. make_assignment_backtrack cs102_option cs102 test_section cs101_booked_state
                     = Inr (opt', st1)
        \<and> schedule_list st1 = [cs101_entry, cs102_entry]
        \<and> bookings (faculty_schedule st1) ''Alice'' ''Monday'' = [cs101_info, cs102_info]
        \<and> bookings (room_schedule st1) ''R101'' ''Monday'' = [cs101_info, cs102_info]
        \<and> bookings (section_schedule st1) ''BSCS11A'' ''Monday'' = [cs101_info, cs102_info]
        \<and> undo_assignment_backtrack opt' cs102 test_section st1 = Inr cs101_booked_state)"
proof -
  obtain opt1 st1 where
    r: "make_assignment_backtrack cs102_option cs102 test_section cs101_booked_state
          = Inr (opt1, st1)"
    and s: "schedule_list st1 = [cs101_entry, cs102_entry]"
      "bookings (faculty_schedule st1) ''Alice'' ''Monday'' = [cs101_info, cs102_info]"
      "bookings (room_schedule st1) ''R101'' ''Monday'' = [cs101_info, cs102_info]"
      "bookings (section_schedule st1) ''BSCS11A'' ''Monday'' = [cs101_info, cs102_info]"
    using cs102_option_recorded by (auto split: sum.splits)
  have l: "schedule_list cs101_booked_state = [cs101_entry]"
    by (simp add: cs101_booked_state_def)
  from record_then_unrecord [OF r cs102_option_safe] r s l cs102_option_safe cs101_bookings
  show ?thesis by blast
qed

text \<open>
  The claim C7 as written fails in a state that already holds a booking of the same course
  code and section: a second record for CS101 and the section (Monday 09:00 to 11:00, Alice,
  R102) followed by its undo also removes the earlier booking from the ledgers of the
  teacher and of the section.
\<close>

theorem unrecord_removes_earlier_booking:
  "bookings (faculty_schedule cs101_booked_state) ''Alice'' ''Monday'' = [cs101_info]
   \<and> bookings (section_schedule cs101_booked_state) ''BSCS11A'' ''Monday'' = [cs101_info]
   \<and> (case make_assignment_backtrack monday_9_to_11_option cs101 test_section
             cs101_booked_state of
        Inl e \<Rightarrow> None
      | Inr (opt', st1) \<Rightarrow>
          (case undo_assignment_backtrack opt' cs101 test_section st1 of
             Inl e \<Rightarrow> None
           | Inr st2 \<Rightarrow>
               Some (bookings (faculty_schedule st2) ''Alice'' ''Monday'',
                     bookings (section_schedule st2) ''BSCS11A'' ''Monday'',
                     bookings (room_schedule st2) ''R101'' ''Monday'',
                     schedule_list st2, day_pairing_counter st2)))
     = Some ([], [], [cs101_info], [cs101_entry], 1)"
  by code_simp

section \<open>Arc consistency that empties a domain\<close>

text \<open>
  Claim C3. One lecture room and no laboratory room, one teacher, one section, a lecture
  course and a laboratory course, conflicts disallowed. The domain of the laboratory
  course is empty, AC-3 removes every value of the lecture course and returns the empty
  dict, and \<^verbatim>\<open>_solve_csp\<close> then indexes that dict with the first variable: the run ends
  in a KeyError and not in the result of the greedy assigner with conflicts allowed,
  which would have placed the lecture.
\<close>

theorem csp_pruned_domain_raises:
  "apply_arc_consistency [''CCINCOMX_BSCS11A'', ''CCINCOBL_BSCS11A'']
     [(''CCINCOMX_BSCS11A'', generate_csp_domain [r101] [alice] 0 ccincomx test_section),
      (''CCINCOBL_BSCS11A'', generate_csp_domain [r101] [alice] 0 ccincobl test_section)]
     [(''CCINCOMX_BSCS11A'', ''CCINCOBL_BSCS11A'')] = Inr []
   \<and> generate_schedule
         (load_data new_scheduler [ccincomx, ccincobl] [r101] [alice] [test_section])
         ''constraint satisfaction'' 1000 None False = Inl KeyError
   \<and> map_sum id (\<lambda>r. length (fst r))
         (greedy_scheduling [r101] [alice] [test_section] [ccincomx, ccincobl] True 0) = Inr 2"
  by code_simp

section \<open>The rotation counter from one run to the next\<close>

text \<open>
  Every assigner reads the counter only through its remainder modulo 3, and only adds to
  it. So a run started three turns later does what the run started now does, and ends
  three turns later.
\<close>

lemma shift_fields [simp]:
  "schedule_list (shift k st) = schedule_list st"
  "faculty_schedule (shift k st) = faculty_schedule st"
  "room_schedule (shift k st) = room_schedule st"
  "section_schedule (shift k st) = section_schedule st"
  "warnings (shift k st) = warnings st"
  "day_pairing_counter (shift k st) = day_pairing_counter st + 3 * k"
  by (simp_all add: shift_def)

lemma shift_updates [simp]:
  "(shift k st)\<lparr>schedule_list := a\<rparr> = shift k (st\<lparr>schedule_list := a\<rparr>)"
  "(shift k st)\<lparr>faculty_schedule := b\<rparr> = shift k (st\<lparr>faculty_schedule := b\<rparr>)"
  "(shift k st)\<lparr>room_schedule := b\<rparr> = shift k (st\<lparr>room_schedule := b\<rparr>)"
  "(shift k st)\<lparr>section_schedule := b\<rparr> = shift k (st\<lparr>section_schedule := b\<rparr>)"
  "(shift k st)\<lparr>warnings := w\<rparr> = shift k (st\<lparr>warnings := w\<rparr>)"
  by (simp_all add: shift_def)

lemma shift_counter_update:
  "(shift k st)\<lparr>day_pairing_counter := day_pairing_counter st + 3 * k + d\<rparr>
     = shift k (st\<lparr>day_pairing_counter := day_pairing_counter st + d\<rparr>)"
  by (simp add: shift_def)

lemma get_time_patterns_shift [simp]:
  "get_time_patterns (c + 3 * k) hours ct = get_time_patterns c hours ct"
  by (simp add: get_time_patterns_def)

lemma record_session_shift:
  "record_session s c sec f r ct (shift k st)
     = on_result (shift k) (record_session s c sec f r ct st)"
  by (simp add: record_session_def Let_def split: sum.splits)

lemma record_sessions_shift:
  "record_sessions p c sec f r ct (shift k st)
     = on_result (shift k) (record_sessions p c sec f r ct st)"
  by (induction p arbitrary: st) (auto simp: record_session_shift split: sum.splits)

lemma make_assignment_shift:
  "make_assignment p c sec f r ct (shift k st)
     = on_result (shift k) (make_assignment p c sec f r ct st)"
proof (cases "record_sessions p c sec f r ct st")
  case (Inl e)
  then show ?thesis by (simp add: make_assignment_def record_sessions_shift)
next
  case (Inr st1)
  have "(shift k st1)\<lparr>day_pairing_counter := day_pairing_counter st1 + 3 * k + 1\<rparr>
          = shift k (st1\<lparr>day_pairing_counter := day_pairing_counter st1 + 1\<rparr>)"
    by (rule shift_counter_update)
  with Inr show ?thesis by (simp add: make_assignment_def record_sessions_shift)
qed

lemma try_combinations_shift:
  "try_combinations cs c sec ct allow (shift k st)
     = on_result (apsnd (shift k)) (try_combinations cs c sec ct allow st)"
proof (induction cs)
  case Nil
  show ?case by simp
next
  case (Cons x rest)
  obtain p f r where x: "x = (p, f, r)" by (cases x) auto
  show ?case
    by (cases "can_assign_pattern p f r (section_name sec) (faculty_schedule st)
                 (room_schedule st) (section_schedule st) allow";
        cases "make_assignment p c sec f r ct st")
       (auto simp: x Cons.IH make_assignment_shift split: bool.splits)
qed

lemma schedule_course_component_shift:
  "schedule_course_component c sec ct hours (shift k st) fs rs allow
     = on_result (apsnd (shift k)) (schedule_course_component c sec ct hours st fs rs allow)"
  by (simp add: schedule_course_component_def try_combinations_shift)

lemma schedule_single_type_course_shift:
  "schedule_single_type_course c sec (shift k st) fs rs allow
     = on_result (apsnd (shift k)) (schedule_single_type_course c sec st fs rs allow)"
  by (simp add: schedule_single_type_course_def schedule_course_component_shift)

lemma schedule_lecture_lab_course_shift:
  "schedule_lecture_lab_course rooms c sec (shift k st) fs allow
     = on_result (apsnd (shift k)) (schedule_lecture_lab_course rooms c sec st fs allow)"
proof (cases "schedule_course_component c sec ''Lecture'' (hours_per_week c div 2) st fs
                (filter (\<lambda>r. room_type r = ''Lecture'') rooms) allow")
  case (Inl e)
  then show ?thesis
    by (simp add: schedule_lecture_lab_course_def Let_def schedule_course_component_shift)
next
  case (Inr res)
  obtain la st1 where res: "res = (la, st1)" by (cases res) auto
  show ?thesis
    by (cases "schedule_course_component c sec ''Lab''
                 (hours_per_week c - hours_per_week c div 2) st1 fs
                 (filter (\<lambda>r. room_type r = ''Lab'') rooms) allow")
       (auto simp: schedule_lecture_lab_course_def Let_def schedule_course_component_shift
          Inr res)
qed

lemma assign_course_to_section_shift:
  "assign_course_to_section rooms faculty c sec (shift k st) allow
     = on_result (apsnd (shift k)) (assign_course_to_section rooms faculty c sec st allow)"
  by (simp add: assign_course_to_section_def Let_def schedule_lecture_lab_course_shift
        schedule_single_type_course_shift)

lemma greedy_courses_shift:
  "greedy_courses rooms faculty cs sec allow (shift k st)
     = on_result (shift k) (greedy_courses rooms faculty cs sec allow st)"
proof (induction cs arbitrary: st)
  case Nil
  show ?case by simp
next
  case (Cons c rest)
  show ?case
  proof (cases "assign_course_to_section rooms faculty c sec st allow")
    case (Inl e)
    then show ?thesis by (simp add: assign_course_to_section_shift)
  next
    case (Inr res)
    obtain b st1 where res: "res = (b, st1)" by (cases res) auto
    let ?w = "\<lambda>s. if \<not> b \<and> \<not> allow
                   then s\<lparr>warnings := warnings s @ [(course_code c, section_name sec)]\<rparr>
                   else s"
    have w: "?w (shift k st1) = shift k (?w st1)" by simp
    have step: "assign_course_to_section rooms faculty c sec (shift k st) allow
                  = Inr (b, shift k st1)"
      by (simp add: assign_course_to_section_shift Inr res)
    have "greedy_courses rooms faculty (c # rest) sec allow (shift k st)
            = greedy_courses rooms faculty rest sec allow (?w (shift k st1))"
      by (simp only: greedy_courses.simps step sum.case prod.case)
    also have "\<dots> = on_result (shift k) (greedy_courses rooms faculty rest sec allow (?w st1))"
      by (simp only: w Cons.IH)
    also have "\<dots> = on_result (shift k) (greedy_courses rooms faculty (c # rest) sec allow st)"
      by (simp only: greedy_courses.simps Inr res sum.case prod.case)
    finally show ?thesis .
  qed
qed

lemma greedy_sections_shift:
  "greedy_sections rooms faculty courses secs allow (shift k st)
     = on_result (shift k) (greedy_sections rooms faculty courses secs allow st)"
proof (induction secs arbitrary: st)
  case Nil
  show ?case by simp
next
  case (Cons sec rest)
  show ?case
    by (cases "greedy_courses rooms faculty (section_courses courses sec) sec allow
                 (st\<lparr>section_schedule := (section_schedule st)(section_name sec \<mapsto> Map.empty)\<rparr>)")
       (simp_all add: Let_def greedy_courses_shift Cons.IH)
qed

lemma initial_state_shift:
  "initial_state rooms faculty (c + 3 * k) = shift k (initial_state rooms faculty c)"
  by (simp add: initial_state_def shift_def)

lemma greedy_scheduling_shift:
  "greedy_scheduling rooms faculty sections courses allow (c + 3 * k)
     = on_result (apsnd (\<lambda>n. n + 3 * k))
         (greedy_scheduling rooms faculty sections courses allow c)"
  by (cases "greedy_sections rooms faculty courses sections allow
               (initial_state rooms faculty c)")
     (simp_all add: greedy_scheduling_def greedy_run_def initial_state_shift
        greedy_sections_shift)

lemma record_sessions_backtrack_shift:
  "record_sessions_backtrack p c sec f r ct d (shift k st)
     = on_result (apsnd (shift k)) (record_sessions_backtrack p c sec f r ct d st)"
proof (induction p arbitrary: st d)
  case Nil
  show ?case by simp
next
  case (Cons s rest)
  show ?case
    by (cases "record_session s c sec f r ct st")
       (simp_all add: record_session_shift Cons.IH)
qed

lemma make_assignment_backtrack_shift:
  "make_assignment_backtrack opt c sec (shift k st)
     = on_result (apsnd (shift k)) (make_assignment_backtrack opt c sec st)"
proof -
  let ?ct = "if lower (course_type c) = ''both'' then ''Both''
             else if contains ''lecture'' (lower (course_type c)) then ''Lecture'' else ''Lab''"
  show ?thesis
  proof (cases "record_sessions_backtrack (opt_pattern opt) c sec (opt_faculty opt)
                  (opt_room opt) ?ct [] st")
    case (Inl e)
    then show ?thesis
      by (simp add: make_assignment_backtrack_def Let_def record_sessions_backtrack_shift)
  next
    case (Inr res)
    obtain data st1 where res: "res = (data, st1)" by (cases res) auto
    have "(shift k st1)\<lparr>day_pairing_counter := day_pairing_counter st1 + 3 * k + 1\<rparr>
            = shift k (st1\<lparr>day_pairing_counter := day_pairing_counter st1 + 1\<rparr>)"
      by (rule shift_counter_update)
    with Inr res show ?thesis
      by (simp add: make_assignment_backtrack_def Let_def record_sessions_backtrack_shift)
  qed
qed

lemma unrecord_sessions_shift:
  "unrecord_sessions p c sec f r (shift k st)
     = on_result (shift k) (unrecord_sessions p c sec f r st)"
proof (induction p arbitrary: st)
  case Nil
  show ?case by simp
next
  case (Cons s rest)
  show ?case
    by (simp add: Cons.IH split: sum.splits)
qed

lemma undo_assignment_backtrack_shift:
  "undo_assignment_backtrack opt c sec (shift k st)
     = on_result (shift k) (undo_assignment_backtrack opt c sec st)"
proof (cases "assignment_data opt")
  case None
  then show ?thesis by (simp add: undo_assignment_backtrack_def)
next
  case (Some data)
  show ?thesis
  proof (cases "unrecord_sessions (opt_pattern opt) c sec (opt_faculty opt) (opt_room opt)
                  (st\<lparr>schedule_list := pop_indices (rev data) (schedule_list st)\<rparr>)")
    case (Inl e)
    with Some show ?thesis
      by (simp add: undo_assignment_backtrack_def Let_def unrecord_sessions_shift)
  next
    case (Inr st2)
    have "(shift k st2)\<lparr>day_pairing_counter := day_pairing_counter st2 + 3 * k + (- 1)\<rparr>
            = shift k (st2\<lparr>day_pairing_counter := day_pairing_counter st2 + (- 1)\<rparr>)"
      by (rule shift_counter_update)
    with Inr Some show ?thesis
      by (simp add: undo_assignment_backtrack_def Let_def unrecord_sessions_shift)
  qed
qed

lemma assignable_shift:
  "assignable cs sname (shift k st) allow = assignable cs sname st allow"
proof (induction cs)
  case Nil
  show ?case by simp
next
  case (Cons x rest)
  obtain p f r where x: "x = (p, f, r)" by (cases x) auto
  show ?case by (simp add: x Cons.IH cong: sum.case_cong if_cong)
qed

lemma get_possible_assignments_shift:
  "get_possible_assignments rooms faculty c sec (shift k st) allow
     = get_possible_assignments rooms faculty c sec st allow"
  by (simp add: get_possible_assignments_def assignable_shift)

lemma backtrack_assign_shift:
  "backtrack_assign rooms faculty as (shift k st) m allow
     = on_result (apsnd (shift k)) (backtrack_assign rooms faculty as st m allow)"
proof (induction as arbitrary: st)
  case Nil
  show ?case by simp
next
  case (Cons a rest)
  have opts: "backtrack_options rooms faculty opts a rest (shift k st) m allow
                = on_result (apsnd (shift k))
                    (backtrack_options rooms faculty opts a rest st m allow)" for opts st
  proof (induction opts arbitrary: st)
    case Nil
    show ?case by simp
  next
    case (Cons opt opts)
    show ?case
    proof (cases "make_assignment_backtrack opt (fst a) (snd a) st")
      case (Inl e)
      then show ?thesis by (simp add: make_assignment_backtrack_shift)
    next
      case (Inr res)
      obtain opt' st1 where res: "res = (opt', st1)" by (cases res) auto
      note m1 = Inr [unfolded res]
      show ?thesis
      proof (cases "backtrack_assign rooms faculty rest st1 m allow")
        case (Inl e)
        with m1 show ?thesis
          by (simp add: make_assignment_backtrack_shift \<open>\<And>st. backtrack_assign rooms faculty rest
                (shift k st) m allow = on_result (apsnd (shift k))
                  (backtrack_assign rooms faculty rest st m allow)\<close>)
      next
        case (Inr res2)
        obtain ok st2 where res2: "res2 = (ok, st2)" by (cases res2) auto
        note b1 = Inr [unfolded res2]
        show ?thesis
        proof (cases ok)
          case True
          with m1 b1 show ?thesis
            by (simp add: make_assignment_backtrack_shift \<open>\<And>st. backtrack_assign rooms faculty
                  rest (shift k st) m allow = on_result (apsnd (shift k))
                    (backtrack_assign rooms faculty rest st m allow)\<close>)
        next
          case False
          show ?thesis
          proof (cases "undo_assignment_backtrack opt' (fst a) (snd a) st2")
            case (Inl e)
            with m1 b1 False show ?thesis
              by (simp add: make_assignment_backtrack_shift undo_assignment_backtrack_shift
                    \<open>\<And>st. backtrack_assign rooms faculty rest (shift k st) m allow
                       = on_result (apsnd (shift k))
                           (backtrack_assign rooms faculty rest st m allow)\<close>)
          next
            case (Inr st3)
            with m1 b1 False show ?thesis
              by (simp add: make_assignment_backtrack_shift undo_assignment_backtrack_shift
                    Cons.IH
                    \<open>\<And>st. backtrack_assign rooms faculty rest (shift k st) m allow
                       = on_result (apsnd (shift k))
                           (backtrack_assign rooms faculty rest st m allow)\<close>)
          qed
        qed
      qed
    qed
  qed
  show ?case
    by (cases "get_possible_assignments rooms faculty (fst a) (snd a) st allow")
       (simp_all add: get_possible_assignments_shift opts)
qed

lemma backtracking_scheduling_shift:
  "backtracking_scheduling rooms faculty sections courses m allow (c + 3 * k)
     = on_result (apsnd (\<lambda>n. n + 3 * k))
         (backtracking_scheduling rooms faculty sections courses m allow c)"
proof -
  let ?st0 = "(initial_state rooms faculty c)
                \<lparr>section_schedule := init_ledger (map section_name sections)\<rparr>"
  let ?as = "sort_key (\<lambda>a. - calculate_constraint_complexity a)
               (collect_assignments courses sections)"
  have s0: "(initial_state rooms faculty (c + 3 * k))
              \<lparr>section_schedule := init_ledger (map section_name sections)\<rparr> = shift k ?st0"
    by (simp add: initial_state_shift)
  show ?thesis
  proof (cases "backtrack_assign rooms faculty ?as ?st0 m allow")
    case (Inl e)
    then show ?thesis
      by (simp add: backtracking_scheduling_def Let_def s0 backtrack_assign_shift
            del: shift_updates)
  next
    case (Inr res)
    obtain ok st where res: "res = (ok, st)" by (cases res) auto
    from Inr res show ?thesis
      by (cases ok)
         (simp_all add: backtracking_scheduling_def Let_def s0 backtrack_assign_shift
            greedy_scheduling_shift del: shift_updates)
  qed
qed

lemma generate_csp_domain_shift:
  "generate_csp_domain rooms faculty (c + 3 * k) course sec
     = generate_csp_domain rooms faculty c course sec"
  by (simp add: generate_csp_domain_def)

lemma constraint_satisfaction_scheduling_shift:
  "constraint_satisfaction_scheduling rooms faculty sections courses m allow (c + 3 * k)
     = on_result (apsnd (\<lambda>n. n + 3 * k))
         (constraint_satisfaction_scheduling rooms faculty sections courses m allow c)"
proof -
  let ?obs = "collect_assignments courses sections"
  let ?vars = "map var_name_of ?obs"
  let ?doms = "foldl (\<lambda>d a. dict_set d (var_name_of a)
                              (generate_csp_domain rooms faculty c (fst a) (snd a))) [] ?obs"
  show ?thesis
  proof (cases "solve_csp ?vars ?doms (generate_csp_constraints ?vars) m allow")
    case (Inl e)
    then show ?thesis
      by (simp add: constraint_satisfaction_scheduling_def Let_def generate_csp_domain_shift)
  next
    case (Inr sol)
    then show ?thesis
      by (cases sol)
         (simp_all add: constraint_satisfaction_scheduling_def Let_def
            generate_csp_domain_shift greedy_scheduling_shift)
  qed
qed

lemma run_algorithm_shift:
  "run_algorithm algorithm rs fs ss cts m ac (c + 3 * k)
     = on_result (apsnd (\<lambda>n. n + 3 * k)) (run_algorithm algorithm rs fs ss cts m ac c)"
  unfolding run_algorithm_def
  by (simp only: greedy_scheduling_shift backtracking_scheduling_shift
        constraint_satisfaction_scheduling_shift on_result.simps if_distrib [of "on_result _"])

lemma generate_schedule_run:
  "self_courses s = Some cs \<Longrightarrow> self_rooms s = Some rs \<Longrightarrow> self_faculty s = Some fs \<Longrightarrow>
   self_sections s = Some ss \<Longrightarrow>
   generate_schedule s algorithm m tf ac
     = (case run_algorithm algorithm rs fs ss
               (case tf of None \<Rightarrow> cs
                | Some t \<Rightarrow> if t \<noteq> 0 then filter (\<lambda>c. course_term c = t) cs else cs)
               m ac (self_day_pairing_counter s) of
          Inl e \<Rightarrow> Inl e
        | Inr (schedule_df, counter) \<Rightarrow>
            Inr (schedule_df, s\<lparr>self_day_pairing_counter := counter\<rparr>))"
  unfolding generate_schedule_def run_algorithm_def Let_def
  by (simp only: option.case prod.case)

lemma generate_schedule_not_loaded:
  assumes "\<not> (\<exists>cs rs fs ss. self_courses s = Some cs \<and> self_rooms s = Some rs
                  \<and> self_faculty s = Some fs \<and> self_sections s = Some ss)"
  shows "generate_schedule s algorithm m tf ac = Inl ValueError"
proof -
  from assms consider "self_courses s = None" | "self_rooms s = None"
    | "self_faculty s = None" | "self_sections s = None"
    by (cases "self_courses s"; cases "self_rooms s"; cases "self_faculty s";
        cases "self_sections s") simp_all
  then show ?thesis
  proof cases
    case 1
    then show ?thesis by (simp add: generate_schedule_def)
  next
    case 2
    then show ?thesis
      by (cases "self_courses s") (simp_all add: generate_schedule_def)
  next
    case 3
    then show ?thesis
      by (cases "self_courses s"; cases "self_rooms s") (simp_all add: generate_schedule_def)
  next
    case 4
    then show ?thesis
      by (cases "self_courses s"; cases "self_rooms s"; cases "self_faculty s")
         (simp_all add: generate_schedule_def)
  qed
qed

text \<open>
  Claim C2, as the code has it. The ledgers of a run are made by the call, but the
  rotation counter is an attribute of the scheduler object: the constructor sets it to 0
  and no call resets it. For fixed tables, selector, iteration budget, term filter and
  conflict flag, two runs whose counters at the start agree modulo 3 (two runs on freshly
  made objects, for one) end alike: the same error, or the same schedule and the same
  advance of the counter.
\<close>

theorem generate_schedule_rotation:
  assumes "self_courses s2 = self_courses s1" and "self_rooms s2 = self_rooms s1"
    and "self_faculty s2 = self_faculty s1" and "self_sections s2 = self_sections s1"
    and "self_day_pairing_counter s2 mod 3 = self_day_pairing_counter s1 mod 3"
  shows "on_result (\<lambda>r. (fst r, self_day_pairing_counter (snd r) - self_day_pairing_counter s2))
           (generate_schedule s2 algorithm max_iterations term_filter allow_conflicts)
         = on_result (\<lambda>r. (fst r, self_day_pairing_counter (snd r)
                                   - self_day_pairing_counter s1))
             (generate_schedule s1 algorithm max_iterations term_filter allow_conflicts)"
proof -
  from assms(5) have "3 dvd self_day_pairing_counter s2 - self_day_pairing_counter s1"
    by (simp only: mod_eq_dvd_iff)
  then obtain k where "self_day_pairing_counter s2 - self_day_pairing_counter s1 = 3 * k"
    by (rule dvdE)
  then have k: "self_day_pairing_counter s2 = self_day_pairing_counter s1 + 3 * k" by simp
  show ?thesis
  proof (cases "\<exists>cs rs fs ss. self_courses s1 = Some cs \<and> self_rooms s1 = Some rs
                  \<and> self_faculty s1 = Some fs \<and> self_sections s1 = Some ss")
    case False
    then have "generate_schedule s1 algorithm max_iterations term_filter allow_conflicts
                 = Inl ValueError"
      by (rule generate_schedule_not_loaded)
    moreover from False have
      "\<not> (\<exists>cs rs fs ss. self_courses s2 = Some cs \<and> self_rooms s2 = Some rs
             \<and> self_faculty s2 = Some fs \<and> self_sections s2 = Some ss)"
      unfolding assms(1-4) .
    then have "generate_schedule s2 algorithm max_iterations term_filter allow_conflicts
         = Inl ValueError"
      by (rule generate_schedule_not_loaded)
    ultimately show ?thesis by simp
  next
    case True
    then obtain cs rs fs ss where t1: "self_courses s1 = Some cs" "self_rooms s1 = Some rs"
      "self_faculty s1 = Some fs" "self_sections s1 = Some ss" by blast
    with assms(1-4) have t2: "self_courses s2 = Some cs" "self_rooms s2 = Some rs"
      "self_faculty s2 = Some fs" "self_sections s2 = Some ss" by simp_all
    let ?cts = "case term_filter of
                  None \<Rightarrow> cs
                | Some t \<Rightarrow> if t \<noteq> 0 then filter (\<lambda>c. course_term c = t) cs else cs"
    let ?r1 = "run_algorithm algorithm rs fs ss ?cts max_iterations allow_conflicts
                 (self_day_pairing_counter s1)"
    note g1 = generate_schedule_run [OF t1, of algorithm max_iterations term_filter
                allow_conflicts]
    note g2 = generate_schedule_run [OF t2, of algorithm max_iterations term_filter
                allow_conflicts, unfolded k run_algorithm_shift]
    show ?thesis
    proof (cases ?r1)
      case (Inl e)
      then show ?thesis by (simp only: g1 g2) simp
    next
      case (Inr res)
      obtain sched n where res: "res = (sched, n)" by (cases res) auto
      from Inr show ?thesis by (simp only: g1 g2 res) (simp add: k)
    qed
  qed
qed

lemma fresh_first_run:
  "generate_schedule fresh_scheduler ''greedy'' 1000 None False
     = Inr ([make_entry lecture_monday ccincomx test_section ''Alice'' ''R101'' ''Lecture'',
             make_entry lecture_thursday ccincomx test_section ''Alice'' ''R101'' ''Lecture''],
            fresh_scheduler\<lparr>self_day_pairing_counter := 1\<rparr>)"
  by code_simp

text \<open>
  The claim C2 as written fails: the first run on a fresh object places the course on
  Monday and Thursday and leaves the counter at 1, and the second run on the same object,
  with the same tables and arguments, places it on Tuesday and Friday.
\<close>

theorem second_run_differs:
  "generate_schedule fresh_scheduler ''greedy'' 1000 None False
     = Inr ([make_entry lecture_monday ccincomx test_section ''Alice'' ''R101'' ''Lecture'',
             make_entry lecture_thursday ccincomx test_section ''Alice'' ''R101'' ''Lecture''],
            fresh_scheduler\<lparr>self_day_pairing_counter := 1\<rparr>)
   \<and> generate_schedule (fresh_scheduler\<lparr>self_day_pairing_counter := 1\<rparr>) ''greedy'' 1000 None
       False
     = Inr ([make_entry lecture_tuesday ccincomx test_section ''Alice'' ''R101'' ''Lecture'',
             make_entry lecture_friday ccincomx test_section ''Alice'' ''R101'' ''Lecture''],
            fresh_scheduler\<lparr>self_day_pairing_counter := 2\<rparr>)
   \<and> e_day (make_entry lecture_monday ccincomx test_section ''Alice'' ''R101'' ''Lecture'')
       \<noteq> e_day (make_entry lecture_tuesday ccincomx test_section ''Alice'' ''R101'' ''Lecture'')"
  by code_simp

theorem generate_schedule_rotation_witness:
  "self_day_pairing_counter (fresh_scheduler\<lparr>self_day_pairing_counter := 3\<rparr>) mod 3
     = self_day_pairing_counter fresh_scheduler mod 3
   \<and> on_result fst (generate_schedule (fresh_scheduler\<lparr>self_day_pairing_counter := 3\<rparr>)
                        ''greedy'' 1000 None False)
     = Inr [make_entry lecture_monday ccincomx test_section ''Alice'' ''R101'' ''Lecture'',
            make_entry lecture_thursday ccincomx test_section ''Alice'' ''R101'' ''Lecture'']"
proof -
  have c: "self_day_pairing_counter fresh_scheduler = 0"
    by (simp add: fresh_scheduler_def load_data_def new_scheduler_def)
  have m: "self_day_pairing_counter (fresh_scheduler\<lparr>self_day_pairing_counter := 3\<rparr>) mod 3
             = self_day_pairing_counter fresh_scheduler mod 3"
    by (simp add: c)
  from generate_schedule_rotation
         [of "fresh_scheduler\<lparr>self_day_pairing_counter := 3\<rparr>" fresh_scheduler
             "''greedy''" 1000 None False, OF _ _ _ _ m]
  have "on_result (\<lambda>r. (fst r, self_day_pairing_counter (snd r) - 3))
          (generate_schedule (fresh_scheduler\<lparr>self_day_pairing_counter := 3\<rparr>)
             ''greedy'' 1000 None False)
        = Inr ([make_entry lecture_monday ccincomx test_section ''Alice'' ''R101'' ''Lecture'',
                make_entry lecture_thursday ccincomx test_section ''Alice'' ''R101''
                  ''Lecture''], 1)"
    by (simp add: fresh_first_run c)
  then have "on_result fst (generate_schedule (fresh_scheduler\<lparr>self_day_pairing_counter := 3\<rparr>)
                             ''greedy'' 1000 None False)
        = Inr [make_entry lecture_monday ccincomx test_section ''Alice'' ''R101'' ''Lecture'',
               make_entry lecture_thursday ccincomx test_section ''Alice'' ''R101'' ''Lecture'']"
    by (cases "generate_schedule (fresh_scheduler\<lparr>self_day_pairing_counter := 3\<rparr>)
                 ''greedy'' 1000 None False") auto
  with m show ?thesis by simp
qed

section \<open>What the backtracking search records\<close>

text \<open>
  A search that succeeds has appended, for each obligation in turn, the entries of one
  option placed whole; a search that fails leaves the schedule list as it found it,
  because every undo pops the entries its record appended.
\<close>

lemma entries_of_pattern:
  "list_all2 (\<lambda>e s. entry_of e s c sec f r ct)
     (map (\<lambda>s. make_entry s c sec (faculty_name f) (room_name r) ct) p) p"
  by (simp add: list_all2_map1 entry_of_def make_entry_def list_all2_same)

lemma possible_assignment_option:
  assumes "get_possible_assignments rooms faculty c sec st allow = Inr opts"
    and "opt \<in> set opts"
  shows "option_of rooms faculty c opt"
proof -
  let ?rs = "filter (\<lambda>r. room_type r
               = (if contains ''lab'' (lower (course_type c)) then ''Lab'' else ''Lecture''))
               rooms"
  from assms(1) obtain possible where
    a: "assignable (combinations
          (get_time_patterns (day_pairing_counter st) (hours_per_week c) ''Lecture'')
          (find_suitable_faculty faculty c) ?rs)
          (section_name sec) st allow = Inr possible"
    and s: "sort_by assignment_preference possible = Inr opts"
    by (auto simp: get_possible_assignments_def Let_def split: sum.splits)
  from sort_by_set [OF s] assms(2) have "opt \<in> set possible" by simp
  from combinations_members [OF assignable_members [OF a this]] show ?thesis
    unfolding option_of_def find_suitable_faculty_def by auto
qed

lemma make_assignment_backtrack_whole:
  assumes m: "make_assignment_backtrack opt c sec st = Inr (opt', st1)"
    and o: "option_of rooms faculty c opt"
  shows "\<exists>es. schedule_list st1 = schedule_list st @ es \<and> whole_entries rooms faculty (c, sec) es"
proof -
  let ?ct = "if lower (course_type c) = ''both'' then ''Both''
             else if contains ''lecture'' (lower (course_type c)) then ''Lecture'' else ''Lab''"
  from m have
    e: "schedule_list st1 = schedule_list st
          @ map (\<lambda>s. make_entry s c sec (opt_faculty opt) (opt_room opt) ?ct) (opt_pattern opt)"
    by (auto simp: make_assignment_backtrack_def Let_def split: sum.splits
          dest: record_sessions_backtrack_entries)
  from o obtain counter f r where
    p: "opt_pattern opt \<in> set (get_time_patterns counter (hours_per_week c) ''Lecture'')"
    and f: "f \<in> set faculty" "opt_faculty opt = faculty_name f"
    and r: "r \<in> set rooms" "opt_room opt = room_name r"
      "room_type r = (if contains ''lab'' (lower (course_type c)) then ''Lab'' else ''Lecture'')"
    unfolding option_of_def by blast
  have "whole_entries rooms faculty (c, sec)
          (map (\<lambda>s. make_entry s c sec (opt_faculty opt) (opt_room opt) ?ct) (opt_pattern opt))"
    unfolding whole_entries_def fst_conv snd_conv f(2) r(2)
    using p f(1) r(1,3) entries_of_pattern [of c sec f r ?ct "opt_pattern opt"] by blast
  with e show ?thesis by blast
qed

lemma unrecord_sessions_schedule_list:
  "unrecord_sessions p c sec f r st = Inr st' \<Longrightarrow> schedule_list st' = schedule_list st"
  by (induction p arbitrary: st) (auto split: sum.splits)

lemma undo_after_record:
  assumes m: "make_assignment_backtrack opt c sec st = Inr (opt', st1)"
    and l: "schedule_list st2 = schedule_list st1"
    and u: "undo_assignment_backtrack opt' c sec st2 = Inr st3"
  shows "schedule_list st3 = schedule_list st"
proof -
  from m obtain ct data st0 where
    r: "record_sessions_backtrack (opt_pattern opt) c sec (opt_faculty opt) (opt_room opt) ct []
          st = Inr (data, st0)"
    and o: "opt' = opt\<lparr>assignment_data := Some data\<rparr>"
    and s1: "st1 = st0\<lparr>day_pairing_counter := day_pairing_counter st0 + 1\<rparr>"
    by (auto simp: make_assignment_backtrack_def Let_def split: sum.splits)
  from record_sessions_backtrack_data [OF r] have
    data: "data = [length (schedule_list st) ..< length (schedule_list st)
                      + length (opt_pattern opt)]"
    by simp
  from record_sessions_backtrack_entries [OF r] have
    sl: "schedule_list st0 = schedule_list st
           @ map (\<lambda>s. make_entry s c sec (opt_faculty opt) (opt_room opt) ct) (opt_pattern opt)" .
  have pop: "pop_indices (rev data) (schedule_list st2) = schedule_list st"
    using pop_indices_tail [of "schedule_list st"
            "map (\<lambda>s. make_entry s c sec (opt_faculty opt) (opt_room opt) ct) (opt_pattern opt)"]
    by (simp add: data sl l s1)
  from u obtain st4 where
    "unrecord_sessions (opt_pattern opt) c sec (opt_faculty opt) (opt_room opt)
       (st2\<lparr>schedule_list := pop_indices (rev data) (schedule_list st2)\<rparr>) = Inr st4"
    and "st3 = st4\<lparr>day_pairing_counter := day_pairing_counter st4 - 1\<rparr>"
    by (auto simp: undo_assignment_backtrack_def o Let_def split: sum.splits)
  with unrecord_sessions_schedule_list [OF this(1)] pop show ?thesis by simp
qed

lemma backtrack_entries:
  "backtrack_assign rooms faculty as st m allow = Inr (b, st') \<Longrightarrow>
     (if b then \<exists>ess. schedule_list st' = schedule_list st @ concat ess
                  \<and> list_all2 (whole_entries rooms faculty) as ess
      else schedule_list st' = schedule_list st)"
  "backtrack_options rooms faculty opts a rest st m allow = Inr (b, st') \<Longrightarrow>
     \<forall>opt\<in>set opts. option_of rooms faculty (fst a) opt \<Longrightarrow>
     (if b then \<exists>es ess. schedule_list st' = schedule_list st @ es @ concat ess
                  \<and> whole_entries rooms faculty a es
                  \<and> list_all2 (whole_entries rooms faculty) rest ess
      else schedule_list st' = schedule_list st)"
proof (induction rooms faculty as st m allow and rooms faculty opts a rest st m allow
       arbitrary: b st' and b st' rule: backtrack_assign_backtrack_options.induct)
  case (1 rooms faculty st max_iterations allow_conflicts)
  then show ?case by auto
next
  case (2 rooms faculty a rest st max_iterations allow_conflicts)
  show ?case
  proof (cases "int (length (schedule_list st)) > max_iterations")
    case True
    with "2.prems" show ?thesis by auto
  next
    case False
    with "2.prems" obtain possible where
      g: "get_possible_assignments rooms faculty (fst a) (snd a) st allow_conflicts
            = Inr possible"
      and o: "backtrack_options rooms faculty possible a rest st max_iterations
                allow_conflicts = Inr (b, st')"
      by (auto split: sum.splits)
    have ok: "\<forall>opt\<in>set possible. option_of rooms faculty (fst a) opt"
      using possible_assignment_option [OF g] by blast
    from "2.IH" [OF False g o ok] show ?thesis
    proof (cases b)
      case True
      with \<open>if b then _ else _\<close> obtain es ess where
        "schedule_list st' = schedule_list st @ es @ concat ess"
        "whole_entries rooms faculty a es" "list_all2 (whole_entries rooms faculty) rest ess"
        by auto
      then have "schedule_list st' = schedule_list st @ concat (es # ess)
                 \<and> list_all2 (whole_entries rooms faculty) (a # rest) (es # ess)" by simp
      with True show ?thesis by metis
    next
      case False
      with \<open>if b then _ else _\<close> show ?thesis by simp
    qed
  qed
next
  case (3 rooms faculty a rest st max_iterations allow_conflicts)
  then show ?case by auto
next
  case (4 rooms faculty assignment_opt opts a rest st max_iterations allow_conflicts)
  from "4.prems"(1) obtain opt1 st1 where
    m: "make_assignment_backtrack assignment_opt (fst a) (snd a) st = Inr (opt1, st1)"
    by (auto split: sum.splits)
  with "4.prems"(1) obtain b2 st2 where
    d: "backtrack_assign rooms faculty rest st1 max_iterations allow_conflicts = Inr (b2, st2)"
    by (auto split: sum.splits)
  from "4.prems"(2) have oa: "option_of rooms faculty (fst a) assignment_opt" by simp
  from make_assignment_backtrack_whole [OF m oa] obtain es where
    es: "schedule_list st1 = schedule_list st @ es" "whole_entries rooms faculty a es"
    by auto
  have x: "(opt1, st1) = (opt1, st1)" ..
  note ih1 = "4.IH"(1) [OF m x d]
  show ?case
  proof (cases b2)
    case True
    with "4.prems"(1) m d have "b" "st' = st2" by auto
    from ih1 True obtain ess where
      "schedule_list st2 = schedule_list st1 @ concat ess"
      "list_all2 (whole_entries rooms faculty) rest ess" by auto
    with es \<open>b\<close> \<open>st' = st2\<close> show ?thesis by auto
  next
    case False
    with ih1 have l: "schedule_list st2 = schedule_list st1" by simp
    from "4.prems"(1) m d False obtain st3 where
      u: "undo_assignment_backtrack opt1 (fst a) (snd a) st2 = Inr st3"
      and r: "backtrack_options rooms faculty opts a rest st3 max_iterations allow_conflicts
                = Inr (b, st')"
      by (auto split: sum.splits)
    from undo_after_record [OF m l u] have l3: "schedule_list st3 = schedule_list st" .
    from "4.prems"(2) have ok: "\<forall>opt\<in>set opts. option_of rooms faculty (fst a) opt" by simp
    have y: "(b2, st2) = (False, st2)" using False by simp
    from "4.IH"(2) [OF m x d _ _ u r ok] False l3 show ?thesis by auto
  qed
qed

section \<open>Every scheduled class is on the grid\<close>

lemma get_time_patterns_grid:
  "p \<in> set (get_time_patterns counter hours ct) \<Longrightarrow> grid_pattern p"
  by (auto simp: grid_pattern_def list_all_iff dest: get_time_patterns_sessions)

lemma pattern_entries_on_grid:
  "grid_pattern p \<Longrightarrow> list_all on_grid (map (\<lambda>s. make_entry s c sec f r ct) p)"
  by (simp add: grid_pattern_def list_all_iff on_grid_def make_entry_def)

lemma try_combinations_grid:
  assumes t: "try_combinations cs c sec ct allow st = Inr (b, st')"
    and g: "list_all on_grid (schedule_list st)"
    and p: "\<forall>x\<in>set cs. grid_pattern (fst x)"
  shows "list_all on_grid (schedule_list st')"
proof (cases b)
  case True
  with t have "try_combinations cs c sec ct allow st = Inr (True, st')" by simp
  from try_combinations_recorded [OF this] obtain q f r where
    m: "(q, f, r) \<in> set cs" and a: "make_assignment q c sec f r ct st = Inr st'" by blast
  from p m have "grid_pattern q" by auto
  with make_assignment_entries [OF a] g show ?thesis
    by (simp add: pattern_entries_on_grid)
next
  case False
  with t have "st' = st" by (auto dest: try_combinations_False)
  with g show ?thesis by simp
qed

lemma schedule_course_component_grid:
  assumes "schedule_course_component c sec ct hours st fs rs allow = Inr (b, st')"
    and "list_all on_grid (schedule_list st)"
  shows "list_all on_grid (schedule_list st')"
proof -
  from assms(1) have
    "try_combinations (combinations (get_time_patterns (day_pairing_counter st) hours ct) fs rs)
       c sec ct allow st = Inr (b, st')"
    by (simp add: schedule_course_component_def Let_def)
  then show ?thesis
  proof (rule try_combinations_grid)
    show "list_all on_grid (schedule_list st)" by (rule assms(2))
    show "\<forall>x\<in>set (combinations (get_time_patterns (day_pairing_counter st) hours ct) fs rs).
            grid_pattern (fst x)"
      by (auto dest!: combinations_members intro: get_time_patterns_grid)
  qed
qed

lemma schedule_lecture_lab_course_grid:
  assumes "schedule_lecture_lab_course rooms c sec st fs allow = Inr (b, st')"
    and "list_all on_grid (schedule_list st)"
  shows "list_all on_grid (schedule_list st')"
proof -
  from assms(1) obtain la st1 where
    l: "schedule_course_component c sec ''Lecture'' (hours_per_week c div 2) st fs
          (filter (\<lambda>r. room_type r = ''Lecture'') rooms) allow = Inr (la, st1)"
    by (auto simp: schedule_lecture_lab_course_def Let_def split: sum.splits)
  from schedule_course_component_grid [OF l assms(2)] have
    g1: "list_all on_grid (schedule_list st1)" .
  show ?thesis
  proof (cases "\<not> la \<and> \<not> allow")
    case True
    with assms(1) l have "st' = st1"
      by (auto simp: schedule_lecture_lab_course_def Let_def)
    with g1 show ?thesis by simp
  next
    case False
    with assms(1) l obtain lb where
      "schedule_course_component c sec ''Lab'' (hours_per_week c - hours_per_week c div 2) st1 fs
         (filter (\<lambda>r. room_type r = ''Lab'') rooms) allow = Inr (lb, st')"
      by (auto simp: schedule_lecture_lab_course_def Let_def split: sum.splits if_splits)
    from schedule_course_component_grid [OF this g1] show ?thesis .
  qed
qed

lemma assign_course_to_section_grid:
  assumes "assign_course_to_section rooms faculty c sec st allow = Inr (b, st')"
    and "list_all on_grid (schedule_list st)"
  shows "list_all on_grid (schedule_list st')"
  using assms
  by (auto simp: assign_course_to_section_def schedule_single_type_course_def Let_def
        split: if_splits
        dest: schedule_lecture_lab_course_grid schedule_course_component_grid)

lemma greedy_courses_grid:
  "greedy_courses rooms faculty cs sec allow st = Inr st' \<Longrightarrow>
   list_all on_grid (schedule_list st) \<Longrightarrow> list_all on_grid (schedule_list st')"
proof (induction cs arbitrary: st)
  case Nil
  then show ?case by simp
next
  case (Cons c rest)
  from Cons.prems(1) obtain b st1 where
    a: "assign_course_to_section rooms faculty c sec st allow = Inr (b, st1)"
    and r: "greedy_courses rooms faculty rest sec allow
              (if \<not> b \<and> \<not> allow
               then st1\<lparr>warnings := warnings st1 @ [(course_code c, section_name sec)]\<rparr>
               else st1) = Inr st'"
    by (auto split: sum.splits)
  from assign_course_to_section_grid [OF a Cons.prems(2)] have
    "list_all on_grid (schedule_list st1)" .
  then have "list_all on_grid (schedule_list
               (if \<not> b \<and> \<not> allow
                then st1\<lparr>warnings := warnings st1 @ [(course_code c, section_name sec)]\<rparr>
                else st1))" by simp
  from Cons.IH [OF r this] show ?case .
qed

lemma greedy_sections_grid:
  "greedy_sections rooms faculty courses secs allow st = Inr st' \<Longrightarrow>
   list_all on_grid (schedule_list st) \<Longrightarrow> list_all on_grid (schedule_list st')"
proof (induction secs arbitrary: st)
  case Nil
  then show ?case by simp
next
  case (Cons sec rest)
  let ?st1 = "st\<lparr>section_schedule := (section_schedule st)(section_name sec \<mapsto> Map.empty)\<rparr>"
  from Cons.prems(1) obtain st2 where
    g: "greedy_courses rooms faculty (section_courses courses sec) sec allow ?st1 = Inr st2"
    and r: "greedy_sections rooms faculty courses rest allow st2 = Inr st'"
    by (auto simp: Let_def split: sum.splits)
  from Cons.prems(2) have "list_all on_grid (schedule_list ?st1)" by simp
  from greedy_courses_grid [OF g this] have "list_all on_grid (schedule_list st2)" .
  from Cons.IH [OF r this] show ?case .
qed

lemma greedy_scheduling_grid:
  assumes "greedy_scheduling rooms faculty secs courses allow counter = Inr (sched, n)"
  shows "list_all on_grid sched"
proof -
  from assms obtain st where
    g: "greedy_sections rooms faculty courses secs allow (initial_state rooms faculty counter)
          = Inr st"
    and s: "sched = schedule_list st"
    by (auto simp: greedy_scheduling_def greedy_run_def split: sum.splits)
  have "list_all on_grid (schedule_list (initial_state rooms faculty counter))"
    by (simp add: initial_state_def)
  from greedy_sections_grid [OF g this] s show ?thesis by simp
qed

lemma whole_entries_grid:
  assumes "whole_entries rooms faculty a es"
  shows "list_all on_grid es"
proof -
  from assms obtain counter p f r tag where
    p: "p \<in> set (get_time_patterns counter (hours_per_week (fst a)) ''Lecture'')"
    and l: "list_all2 (\<lambda>e s. entry_of e s (fst a) (snd a) f r tag) es p"
    unfolding whole_entries_def by blast
  from get_time_patterns_grid [OF p] have g: "grid_pattern p" .
  show ?thesis
    unfolding list_all_iff
  proof
    fix e assume "e \<in> set es"
    then obtain i where i: "i < length es" "e = es ! i" by (auto simp: in_set_conv_nth)
    from l i have "entry_of e (p ! i) (fst a) (snd a) f r tag" "i < length p"
      by (auto simp: list_all2_conv_all_nth)
    moreover from g \<open>i < length p\<close> have
      "start_time (p ! i) \<in> set time_slots \<and> end_time (p ! i) \<in> set time_slots"
      by (simp add: grid_pattern_def list_all_length)
    ultimately show "on_grid e" by (simp add: entry_of_def on_grid_def)
  qed
qed

lemma backtracking_scheduling_grid:
  assumes "backtracking_scheduling rooms faculty secs courses m allow counter = Inr (sched, n)"
  shows "list_all on_grid sched"
proof -
  let ?st0 = "(initial_state rooms faculty counter)
                \<lparr>section_schedule := init_ledger (map section_name secs)\<rparr>"
  let ?as = "sort_key (\<lambda>a. - calculate_constraint_complexity a) (collect_assignments courses secs)"
  from assms obtain b st where
    s: "backtrack_assign rooms faculty ?as ?st0 m allow = Inr (b, st)"
    by (auto simp: backtracking_scheduling_def Let_def split: sum.splits)
  show ?thesis
  proof (cases b)
    case True
    with assms s have sch: "sched = schedule_list st"
      by (simp add: backtracking_scheduling_def Let_def)
    from backtrack_entries(1) [OF s] True obtain ess where
      e: "schedule_list st = schedule_list ?st0 @ concat ess"
      and l: "list_all2 (whole_entries rooms faculty) ?as ess" by auto
    have "\<forall>es\<in>set ess. list_all on_grid es"
    proof
      fix es assume "es \<in> set ess"
      then obtain i where i: "i < length ess" "es = ess ! i" by (auto simp: in_set_conv_nth)
      with l have "whole_entries rooms faculty (?as ! i) es"
        by (auto simp: list_all2_conv_all_nth)
      then show "list_all on_grid es" by (rule whole_entries_grid)
    qed
    then have "list_all on_grid (concat ess)" by (auto simp: list_all_iff)
    with e sch show ?thesis by (simp add: initial_state_def)
  next
    case False
    with assms s have
      "greedy_scheduling rooms faculty secs courses True (day_pairing_counter st)
         = Inr (sched, n)"
      by (simp add: backtracking_scheduling_def Let_def)
    then show ?thesis by (rule greedy_scheduling_grid)
  qed
qed

lemma dict_get_mem: "dict_get d k = Some v \<Longrightarrow> (k, v) \<in> set d"
  by (simp add: dict_get_def map_of_SomeD)

lemma dict_all_get: "dict_all P d \<Longrightarrow> dict_get d k = Some v \<Longrightarrow> P v"
  by (auto simp: dict_all_def list_all_iff dest!: dict_get_mem)

lemma dict_all_set: "dict_all P d \<Longrightarrow> P v \<Longrightarrow> dict_all P (dict_set d k v)"
  by (induction d) (auto simp: dict_all_def)

lemma dict_all_Nil: "dict_all P []"
  by (simp add: dict_all_def)

lemma list_all_remove1: "list_all P xs \<Longrightarrow> list_all P (remove1 x xs)"
  by (auto simp: list_all_iff dest: notin_set_remove1)

lemma generate_csp_domain_grid:
  "list_all value_on_grid (generate_csp_domain rooms faculty counter c sec)"
  by (auto simp: generate_csp_domain_def Let_def list_all_iff value_on_grid_def
        dest!: combinations_members intro: get_time_patterns_grid)

lemma initial_domains_grid:
  "dict_all (list_all value_on_grid) d \<Longrightarrow>
   dict_all (list_all value_on_grid)
     (foldl (\<lambda>d a. dict_set d (var_name_of a)
                      (generate_csp_domain rooms faculty counter (fst a) (snd a))) d obligations)"
  by (induction obligations arbitrary: d) (simp_all add: dict_all_set generate_csp_domain_grid)

lemma revise_loop_grid:
  "revise_loop vs var1 var2 doms r = Inr (r', doms') \<Longrightarrow>
   dict_all (list_all value_on_grid) doms \<Longrightarrow> dict_all (list_all value_on_grid) doms'"
proof (induction vs arbitrary: doms r)
  case Nil
  then show ?case by simp
next
  case (Cons value1 rest)
  from Cons.prems(1) obtain d2 where d2: "dict_get doms var2 = Some d2"
    by (auto split: option.splits)
  show ?case
  proof (cases "list_ex (\<lambda>value2. values_satisfy_constraint value1 value2) d2")
    case True
    with Cons.prems(1) d2 have "revise_loop rest var1 var2 doms r = Inr (r', doms')" by simp
    from Cons.IH [OF this Cons.prems(2)] show ?thesis .
  next
    case False
    with Cons.prems(1) d2 obtain d1 where d1: "dict_get doms var1 = Some d1"
      and rl: "revise_loop rest var1 var2 (dict_set doms var1 (remove1 value1 d1)) True
                 = Inr (r', doms')"
      by (auto split: option.splits if_splits)
    from dict_all_get [OF Cons.prems(2) d1] have "list_all value_on_grid (remove1 value1 d1)"
      by (rule list_all_remove1)
    from Cons.IH [OF rl dict_all_set [OF Cons.prems(2) this]] show ?thesis .
  qed
qed

lemma revise_domain_grid:
  "revise_domain var1 var2 doms = Inr (r, doms') \<Longrightarrow>
   dict_all (list_all value_on_grid) doms \<Longrightarrow> dict_all (list_all value_on_grid) doms'"
  by (auto simp: revise_domain_def split: option.splits dest: revise_loop_grid)

lemma arc_consistency_loop_grid:
  "arc_consistency_loop queue doms constraints = Inr doms' \<Longrightarrow>
   dict_all (list_all value_on_grid) doms \<Longrightarrow> dict_all (list_all value_on_grid) doms'"
proof (induction queue doms constraints arbitrary: doms' rule: arc_consistency_loop.induct)
  case (1 doms constraints)
  then show ?case by simp
next
  case (2 var1 var2 queue doms constraints)
  from "2.prems"(1) obtain revised doms1 where
    r: "revise_domain var1 var2 doms = Inr (revised, doms1)"
    by (auto split: sum.splits)
  from revise_domain_grid [OF r "2.prems"(2)] have g1: "dict_all (list_all value_on_grid) doms1" .
  have x: "(revised, doms1) = (revised, doms1)" ..
  show ?case
  proof (cases revised)
    case True
    with "2.prems"(1) r obtain d1 where d1: "dict_get doms1 var1 = Some d1"
      by (auto split: option.splits)
    show ?thesis
    proof (cases "d1 = []")
      case e: True
      with "2.prems"(1) r True d1 have "doms' = []" by simp
      then show ?thesis by (simp add: dict_all_Nil)
    next
      case ne: False
      with "2.prems"(1) r True d1 have
        l: "arc_consistency_loop (queue @ neighbour_arcs var1 var2 constraints) doms1 constraints
              = Inr doms'" by simp
      from "2.IH"(1) [OF r x True d1 ne l g1] show ?thesis .
    qed
  next
    case False
    with "2.prems"(1) r have l: "arc_consistency_loop queue doms1 constraints = Inr doms'"
      by simp
    from "2.IH"(2) [OF r x False l g1] show ?thesis .
  qed
qed

lemma apply_inference_grid:
  "apply_inference inference old doms = Inr (old', doms') \<Longrightarrow>
   dict_all (list_all value_on_grid) old \<Longrightarrow> dict_all (list_all value_on_grid) doms \<Longrightarrow>
   dict_all (list_all value_on_grid) old' \<and> dict_all (list_all value_on_grid) doms'"
proof (induction inference arbitrary: old doms)
  case Nil
  then show ?case by simp
next
  case (Cons x rest)
  obtain inf_var removed_values where x: "x = (inf_var, removed_values)" by (cases x) auto
  from Cons.prems(1) obtain d where d: "dict_get doms inf_var = Some d"
    and r: "apply_inference rest (dict_set old inf_var d)
              (dict_set doms inf_var
                 (foldl (\<lambda>d' removed_val. if removed_val \<in> set d' then remove1 removed_val d'
                                            else d') d removed_values)) = Inr (old', doms')"
    by (auto simp: x split: option.splits)
  from dict_all_get [OF Cons.prems(3) d] have gd: "list_all value_on_grid d" .
  have "list_all value_on_grid d' \<Longrightarrow>
        list_all value_on_grid
          (foldl (\<lambda>d' removed_val. if removed_val \<in> set d' then remove1 removed_val d' else d')
             d' rvs)" for d' rvs
    by (induction rvs arbitrary: d') (simp_all add: list_all_remove1)
  from this [OF gd] have
    "list_all value_on_grid
       (foldl (\<lambda>d' removed_val. if removed_val \<in> set d' then remove1 removed_val d' else d')
          d removed_values)" .
  from Cons.IH [OF r dict_all_set [OF Cons.prems(2) gd] dict_all_set [OF Cons.prems(3) this]]
  show ?case .
qed

lemma restore_domains_grid:
  "dict_all (list_all value_on_grid) old \<Longrightarrow> dict_all (list_all value_on_grid) doms \<Longrightarrow>
   dict_all (list_all value_on_grid) (restore_domains old doms)"
  unfolding restore_domains_def
proof (induction old arbitrary: doms)
  case Nil
  then show ?case by simp
next
  case (Cons x rest)
  obtain k v where x: "x = (k, v)" by (cases x) auto
  from Cons.prems(1) have v: "list_all value_on_grid v"
    and r: "dict_all (list_all value_on_grid) rest" by (simp_all add: dict_all_def x)
  from Cons.IH [OF r dict_all_set [OF Cons.prems(2) v]] show ?case by (simp add: x)
qed

lemma csp_search_grid:
  "csp_backtrack variables doms constraints assignment m allow = Inr (res, doms') \<Longrightarrow>
     dict_all (list_all value_on_grid) doms \<Longrightarrow> dict_all value_on_grid assignment \<Longrightarrow>
     dict_all (list_all value_on_grid) doms'
     \<and> (\<forall>sol. res = Some sol \<longrightarrow> dict_all value_on_grid sol)"
  "csp_try_values vals var variables doms constraints assignment m allow = Inr (res, doms') \<Longrightarrow>
     dict_all (list_all value_on_grid) doms \<Longrightarrow> dict_all value_on_grid assignment \<Longrightarrow>
     list_all value_on_grid vals \<Longrightarrow>
     dict_all (list_all value_on_grid) doms'
     \<and> (\<forall>sol. res = Some sol \<longrightarrow> dict_all value_on_grid sol)"
proof (induction variables doms constraints assignment m allow
         and vals var variables doms constraints assignment m allow
       arbitrary: res doms' and res doms' rule: csp_backtrack_csp_try_values.induct)
  case (1 variables doms constraints assignment max_iterations allow_conflicts)
  show ?case
  proof (cases "length assignment = length variables")
    case True
    with "1.prems" show ?thesis by (auto simp del: csp_try_values.simps)
  next
    case ne: False
    show ?thesis
    proof (cases "int (length assignment) > max_iterations")
      case True
      with ne "1.prems" show ?thesis by (auto simp del: csp_try_values.simps)
    next
      case le: False
      let ?un = "filter (\<lambda>v. v \<notin> set (dict_keys assignment)) variables"
      from ne le "1.prems"(1) obtain var d where
        s: "select_variable ?un doms = Inr var" and d: "dict_get doms var = Some d"
        and t: "csp_try_values (sort_key (\<lambda>val. count_conflicts val assignment) d) var
                  variables doms constraints assignment max_iterations allow_conflicts
                = Inr (res, doms')"
        by (auto simp: Let_def split: sum.splits option.splits simp del: csp_try_values.simps)
      from dict_all_get [OF "1.prems"(2) d] have
        "list_all value_on_grid (sort_key (\<lambda>val. count_conflicts val assignment) d)"
        by (simp add: list_all_iff)
      from "1.IH" [OF ne le refl s d t "1.prems"(2,3) this] show ?thesis .
    qed
  qed
next
  case (2 var variables doms constraints assignment max_iterations allow_conflicts)
  then show ?case by auto
next
  case (3 val rest var variables doms constraints assignment max_iterations allow_conflicts)
  from "3.prems"(4) have gv: "value_on_grid val" and gr: "list_all value_on_grid rest"
    by simp_all
  show ?case
  proof (cases "allow_conflicts \<or> assignment_consistent val assignment")
    case False
    with "3.prems"(1) have
      "csp_try_values rest var variables doms constraints assignment max_iterations
         allow_conflicts = Inr (res, doms')" by simp
    from "3.IH"(4) [OF False this "3.prems"(2,3) gr] show ?thesis .
  next
    case c: True
    with "3.prems"(1) obtain inference where
      f: "forward_check var val variables doms (dict_set assignment var val) = Inr inference"
      by (auto split: sum.splits)
    show ?thesis
    proof (cases "inference \<noteq> None \<or> allow_conflicts")
      case False
      with c f "3.prems"(1) have
        "csp_try_values rest var variables doms constraints assignment max_iterations
           allow_conflicts = Inr (res, doms')" by simp
      from "3.IH"(3) [OF c f False this "3.prems"(2,3) gr] show ?thesis .
    next
      case i: True
      with c f "3.prems"(1) obtain old_domains doms1 where
        a: "apply_inference (case inference of None \<Rightarrow> [] | Some i \<Rightarrow> i) [] doms
              = Inr (old_domains, doms1)"
        by (auto split: sum.splits)
      from apply_inference_grid [OF a dict_all_Nil "3.prems"(2)] have
        go: "dict_all (list_all value_on_grid) old_domains"
        and g1: "dict_all (list_all value_on_grid) doms1" by simp_all
      from i c f a "3.prems"(1) obtain res2 doms2 where
        b: "csp_backtrack variables doms1 constraints (dict_set assignment var val)
              max_iterations allow_conflicts = Inr (res2, doms2)"
        by (auto split: sum.splits)
      have ga: "dict_all value_on_grid (dict_set assignment var val)"
        using "3.prems"(3) gv by (rule dict_all_set)
      have x: "(old_domains, doms1) = (old_domains, doms1)" ..
      from "3.IH"(1) [OF c f i a x b g1 ga] have
        g2: "dict_all (list_all value_on_grid) doms2"
        and gs: "\<forall>sol. res2 = Some sol \<longrightarrow> dict_all value_on_grid sol" by simp_all
      show ?thesis
      proof (cases res2)
        case (Some result)
        with i c f a b "3.prems"(1) have "res = Some result" "doms' = doms2" by auto
        with g2 gs Some show ?thesis by simp
      next
        case None
        with i c f a b "3.prems"(1) have
          r: "csp_try_values rest var variables (restore_domains old_domains doms2)
                constraints assignment max_iterations allow_conflicts = Inr (res, doms')"
          by auto
        have y: "(res2, doms2) = (res2, doms2)" ..
        from "3.IH"(2) [OF c f i a x b y None r restore_domains_grid [OF go g2] "3.prems"(3) gr]
        show ?thesis .
      qed
    qed
  qed
qed

lemma solve_csp_grid:
  assumes "solve_csp variables doms constraints m allow = Inr (Some sol)"
    and "dict_all (list_all value_on_grid) doms"
  shows "dict_all value_on_grid sol"
proof (cases allow)
  case True
  with assms(1) obtain doms2 where
    "csp_backtrack variables doms constraints [] m allow = Inr (Some sol, doms2)"
    by (auto simp: solve_csp_def split: sum.splits)
  from csp_search_grid(1) [OF this assms(2) dict_all_Nil] show ?thesis by simp
next
  case False
  with assms(1) obtain doms1 doms2 where
    a: "apply_arc_consistency variables doms constraints = Inr doms1"
    and b: "csp_backtrack variables doms1 constraints [] m allow = Inr (Some sol, doms2)"
    by (auto simp: solve_csp_def split: sum.splits bool.splits)
  from a assms(2) have "dict_all (list_all value_on_grid) doms1"
    unfolding apply_arc_consistency_def by (rule arc_consistency_loop_grid)
  from csp_search_grid(1) [OF b this dict_all_Nil] show ?thesis by simp
qed

lemma convert_csp_solution_grid:
  "dict_all value_on_grid sol \<Longrightarrow> list_all on_grid (convert_csp_solution_to_schedule sol)"
  by (auto simp: convert_csp_solution_to_schedule_def dict_all_def list_all_iff Let_def
        value_on_grid_def grid_pattern_def on_grid_def make_entry_def)

lemma constraint_satisfaction_scheduling_grid:
  assumes "constraint_satisfaction_scheduling rooms faculty secs courses m allow counter
             = Inr (sched, n)"
  shows "list_all on_grid sched"
proof -
  let ?obs = "collect_assignments courses secs"
  let ?doms = "foldl (\<lambda>d a. dict_set d (var_name_of a)
                               (generate_csp_domain rooms faculty counter (fst a) (snd a)))
                 [] ?obs"
  let ?vars = "map var_name_of ?obs"
  have g: "dict_all (list_all value_on_grid) ?doms"
    by (rule initial_domains_grid) (rule dict_all_Nil)
  from assms obtain res where
    s: "solve_csp ?vars ?doms (generate_csp_constraints ?vars) m allow = Inr res"
    by (auto simp: constraint_satisfaction_scheduling_def Let_def split: sum.splits)
  show ?thesis
  proof (cases "\<exists>sol. res = Some sol \<and> sol \<noteq> []")
    case True
    then obtain sol where r: "res = Some sol" "sol \<noteq> []" by blast
    with assms s have "sched = convert_csp_solution_to_schedule sol"
      by (simp add: constraint_satisfaction_scheduling_def Let_def)
    moreover from solve_csp_grid [OF s [unfolded r(1)] g] have "dict_all value_on_grid sol" .
    ultimately show ?thesis by (simp add: convert_csp_solution_grid)
  next
    case False
    with assms s have
      "greedy_scheduling rooms faculty secs courses True counter = Inr (sched, n)"
      by (cases res) (auto simp: constraint_satisfaction_scheduling_def Let_def)
    then show ?thesis by (rule greedy_scheduling_grid)
  qed
qed

lemma run_algorithm_grid:
  "run_algorithm algorithm rs fs ss cts m ac c = Inr (sched, n) \<Longrightarrow> list_all on_grid sched"
  unfolding run_algorithm_def
  by (auto split: if_splits
        dest: greedy_scheduling_grid backtracking_scheduling_grid
          constraint_satisfaction_scheduling_grid)

lemma generate_schedule_grid:
  assumes "generate_schedule s algorithm m tf ac = Inr (sched, s')"
  shows "list_all on_grid sched"
proof -
  have "\<exists>cs rs fs ss. self_courses s = Some cs \<and> self_rooms s = Some rs
          \<and> self_faculty s = Some fs \<and> self_sections s = Some ss"
  proof (rule ccontr)
    assume "\<not> ?thesis"
    from generate_schedule_not_loaded [OF this, of algorithm m tf ac] assms show False by simp
  qed
  then obtain cs rs fs ss where t: "self_courses s = Some cs" "self_rooms s = Some rs"
    "self_faculty s = Some fs" "self_sections s = Some ss" by blast
  from assms generate_schedule_run [OF t, of algorithm m tf ac] obtain n where
    "run_algorithm algorithm rs fs ss
       (case tf of None \<Rightarrow> cs
        | Some t \<Rightarrow> if t \<noteq> 0 then filter (\<lambda>c. course_term c = t) cs else cs)
       m ac (self_day_pairing_counter s) = Inr (sched, n)"
    by (auto split: sum.splits)
  then show ?thesis by (rule run_algorithm_grid)
qed

lemma grid_slot_minutes:
  "x \<in> set time_slots \<Longrightarrow>
     \<exists>t. strptime x = Some t \<and> 7 * 60 \<le> minute_of_day t \<and> minute_of_day t \<le> 20 * 60 + 30"
  by (auto simp: time_slots_eq time_evals minute_of_day_def)

text \<open>
  Claim C10. The grid has 28 slots and 21:00 is not one of them. Every session of every
  pattern that \<^verbatim>\<open>_get_time_patterns\<close> returns starts and ends on a slot of the grid. Every
  entry of a schedule that \<^verbatim>\<open>generate_schedule\<close> returns, whichever assigner made it and
  whether or not it fell back to the greedy assigner, records a session of such a pattern:
  its start and its end are slots of the grid, so the class ends at 20:30 at the latest
  and before 21:00.
\<close>

theorem scheduled_classes_on_grid:
  "length time_slots = 28 \<and> ''21:00'' \<notin> set time_slots
   \<and> (p \<in> set (get_time_patterns counter hours component_type) \<longrightarrow> s \<in> set p \<longrightarrow>
        start_time s \<in> set time_slots \<and> end_time s \<in> set time_slots
        \<and> (\<exists>t. strptime (end_time s) = Some t \<and> minute_of_day t \<le> 20 * 60 + 30
                 \<and> minute_of_day t < 21 * 60))
   \<and> (generate_schedule self algorithm max_iterations term_filter allow_conflicts
         = Inr (sched, self') \<longrightarrow> e \<in> set sched \<longrightarrow>
        e_start_time e \<in> set time_slots \<and> e_end_time e \<in> set time_slots
        \<and> (\<exists>t. strptime (e_end_time e) = Some t \<and> minute_of_day t \<le> 20 * 60 + 30
                 \<and> minute_of_day t < 21 * 60))"
proof -
  have ends: "\<exists>t. strptime x = Some t \<and> minute_of_day t \<le> 20 * 60 + 30
                \<and> minute_of_day t < 21 * 60" if "x \<in> set time_slots" for x
    using grid_slot_minutes [OF that] by auto
  have "length time_slots = 28" "''21:00'' \<notin> set time_slots"
    by (simp_all add: time_slots_eq)
  moreover
  { assume "p \<in> set (get_time_patterns counter hours component_type)" "s \<in> set p"
    then have g: "start_time s \<in> set time_slots" "end_time s \<in> set time_slots"
      by (auto dest: get_time_patterns_sessions)
    with ends [OF g(2)] have "start_time s \<in> set time_slots \<and> end_time s \<in> set time_slots
        \<and> (\<exists>t. strptime (end_time s) = Some t \<and> minute_of_day t \<le> 20 * 60 + 30
                 \<and> minute_of_day t < 21 * 60)" by simp }
  moreover
  { assume "generate_schedule self algorithm max_iterations term_filter allow_conflicts
              = Inr (sched, self')" "e \<in> set sched"
    with generate_schedule_grid have "on_grid e" by (auto simp: list_all_iff)
    then have g: "e_start_time e \<in> set time_slots" "e_end_time e \<in> set time_slots"
      by (simp_all add: on_grid_def)
    with ends [OF g(2)] have "e_start_time e \<in> set time_slots \<and> e_end_time e \<in> set time_slots
        \<and> (\<exists>t. strptime (e_end_time e) = Some t \<and> minute_of_day t \<le> 20 * 60 + 30
                 \<and> minute_of_day t < 21 * 60)" by simp }
  ultimately show ?thesis by blast
qed

theorem scheduled_classes_on_grid_witness:
  "[lecture_monday, lecture_thursday] \<in> set (get_time_patterns 0 3 ''Lecture'')
   \<and> generate_schedule fresh_scheduler ''greedy'' 1000 None False
     = Inr ([make_entry lecture_monday ccincomx test_section ''Alice'' ''R101'' ''Lecture'',
             make_entry lecture_thursday ccincomx test_section ''Alice'' ''R101'' ''Lecture''],
            fresh_scheduler\<lparr>self_day_pairing_counter := 1\<rparr>)
   \<and> end_time lecture_thursday = ''08:30''
   \<and> e_end_time (make_entry lecture_thursday ccincomx test_section ''Alice'' ''R101''
                   ''Lecture'') = ''08:30''
   \<and> ''08:30'' \<in> set time_slots
   \<and> (\<exists>t. strptime ''08:30'' = Some t \<and> minute_of_day t \<le> 20 * 60 + 30
            \<and> minute_of_day t < 21 * 60)"
proof -
  have p: "[lecture_monday, lecture_thursday] \<in> set (get_time_patterns 0 3 ''Lecture'')"
    using monday_pattern_3h by (simp add: lecture_monday_def lecture_thursday_def)
  have e: "end_time lecture_thursday = ''08:30''"
    "e_end_time (make_entry lecture_thursday ccincomx test_section ''Alice'' ''R101''
                   ''Lecture'') = ''08:30''"
    by (simp_all add: lecture_thursday_def make_entry_def)
  from scheduled_classes_on_grid
    [of "[lecture_monday, lecture_thursday]" 0 3 "''Lecture''" lecture_thursday
        fresh_scheduler "''greedy''" 1000 None False
        "[make_entry lecture_monday ccincomx test_section ''Alice'' ''R101'' ''Lecture'',
          make_entry lecture_thursday ccincomx test_section ''Alice'' ''R101'' ''Lecture'']"
        "fresh_scheduler\<lparr>self_day_pairing_counter := 1\<rparr>"
        "make_entry lecture_thursday ccincomx test_section ''Alice'' ''R101'' ''Lecture''"]
    p fresh_first_run e
  show ?thesis by simp
qed

end
